(* ===== verification/Hv_Prelude.thy ===== *)
theory Hv_Prelude
  imports Main "HOL-Library.Word"
begin

text \<open>
  Shared vocabulary of the development.  Machine integers are words of the width the Rust source
  gives them; \<open>usize\<close> is 64 bits wide on the only supported target (x86-64) and is modelled by
  \<^typ>\<open>nat\<close> where it is the length of a buffer in memory.

  A Rust call ends in one of three ways: it returns \<open>Ok\<close>, it returns \<open>Err\<close>, or it panics.
  The type \<open>outcome\<close> has these three constructors.  Integer overflow panics in a debug build and
  wraps in a release build, so the arithmetic that the source does not guard takes the build
  \<open>profile\<close> as an argument.
\<close>

type_synonym u8 = "8 word"
type_synonym u16 = "16 word"
type_synonym u32 = "32 word"
type_synonym u64 = "64 word"

section \<open>Outcomes of calls\<close>

datatype ('e, 'a) outcome = Ok 'a | Err 'e | Panic

datatype profile = Debug | Release

definition and_then :: "('e, 'a) outcome \<times> 's \<Rightarrow> ('a \<Rightarrow> 's \<Rightarrow> ('e, 'b) outcome \<times> 's) \<Rightarrow> ('e, 'b) outcome \<times> 's" where
  "and_then r f = (case r of (Ok a, s) \<Rightarrow> f a s | (Err e, s) \<Rightarrow> (Err e, s) | (Panic, s) \<Rightarrow> (Panic, s))"

definition bind_outcome :: "('e, 'a) outcome \<Rightarrow> ('a \<Rightarrow> ('e, 'b) outcome) \<Rightarrow> ('e, 'b) outcome" where
  "bind_outcome r f = (case r of Ok a \<Rightarrow> f a | Err e \<Rightarrow> Err e | Panic \<Rightarrow> Panic)"

definition map_err :: "('e \<Rightarrow> 'x) \<Rightarrow> ('e, 'a) outcome \<Rightarrow> ('x, 'a) outcome" where
  "map_err f r = (case r of Ok a \<Rightarrow> Ok a | Err e \<Rightarrow> Err (f e) | Panic \<Rightarrow> Panic)"

definition is_ok :: "('e, 'a) outcome \<Rightarrow> bool" where
  "is_ok r = (case r of Ok _ \<Rightarrow> True | _ \<Rightarrow> False)"

section \<open>Arithmetic of the two build profiles\<close>

definition add_u64 :: "profile \<Rightarrow> u64 \<Rightarrow> u64 \<Rightarrow> ('e, u64) outcome" where
  "add_u64 p a b = (if p = Debug \<and> 2 ^ 64 \<le> unat a + unat b then Panic else Ok (a + b))"

definition mul_u64 :: "profile \<Rightarrow> u64 \<Rightarrow> u64 \<Rightarrow> ('e, u64) outcome" where
  "mul_u64 p a b = (if p = Debug \<and> 2 ^ 64 \<le> unat a * unat b then Panic else Ok (a * b))"

definition add_u32 :: "profile \<Rightarrow> u32 \<Rightarrow> u32 \<Rightarrow> ('e, u32) outcome" where
  "add_u32 p a b = (if p = Debug \<and> 2 ^ 32 \<le> unat a + unat b then Panic else Ok (a + b))"

definition checked_add_u64 :: "u64 \<Rightarrow> u64 \<Rightarrow> u64 option" where
  "checked_add_u64 a b = (if 2 ^ 64 \<le> unat a + unat b then None else Some (a + b))"

section \<open>Slices\<close>

definition slice_range :: "'a list \<Rightarrow> nat \<Rightarrow> nat \<Rightarrow> ('e, 'a list) outcome" where
  "slice_range xs i j = (if i \<le> j \<and> j \<le> length xs then Ok (take (j - i) (drop i xs)) else Panic)"

definition splice :: "'a list \<Rightarrow> nat \<Rightarrow> 'a list \<Rightarrow> 'a list" where
  "splice xs i ys = take i xs @ ys @ drop (i + length ys) xs"

text \<open>\<open>data[..len].copy_from_slice(&src[..len])\<close> with \<open>len\<close> the smaller of the two lengths.\<close>

definition copy_prefix :: "'a list \<Rightarrow> 'a list \<Rightarrow> 'a list" where
  "copy_prefix src dst = take (length dst) src @ drop (length src) dst"

text \<open>The pieces of \<open>slice.chunks(n)\<close>, the last one possibly shorter.\<close>

function chunks :: "nat \<Rightarrow> 'a list \<Rightarrow> 'a list list" where
  "chunks n xs = (if n = 0 \<or> xs = [] then [] else take n xs # chunks n (drop n xs))"
  by pat_completeness auto
termination
  by (relation "measure (\<lambda>(n, xs). length xs)") auto

declare chunks.simps [simp del]

section \<open>Little-endian byte encodings\<close>

primrec le_bytes_nat :: "nat \<Rightarrow> nat \<Rightarrow> u8 list" where
  "le_bytes_nat 0 v = []"
| "le_bytes_nat (Suc n) v = word_of_nat v # le_bytes_nat n (v div 256)"

primrec le_nat :: "u8 list \<Rightarrow> nat" where
  "le_nat [] = 0"
| "le_nat (b # bs) = unat b + 256 * le_nat bs"

definition u16_to_le_bytes :: "u16 \<Rightarrow> u8 list" where
  "u16_to_le_bytes w = le_bytes_nat 2 (unat w)"

definition u32_to_le_bytes :: "u32 \<Rightarrow> u8 list" where
  "u32_to_le_bytes w = le_bytes_nat 4 (unat w)"

definition u64_to_le_bytes :: "u64 \<Rightarrow> u8 list" where
  "u64_to_le_bytes w = le_bytes_nat 8 (unat w)"

definition u32_from_le_bytes :: "u8 list \<Rightarrow> u32" where
  "u32_from_le_bytes bs = word_of_nat (le_nat bs)"

definition u64_from_le_bytes :: "u8 list \<Rightarrow> u64" where
  "u64_from_le_bytes bs = word_of_nat (le_nat bs)"

section \<open>Texts\<close>

definition string_bytes :: "string \<Rightarrow> u8 list" where
  "string_bytes s = map of_char s"

text \<open>The digits that \<open>{:x}\<close> prints.\<close>

fun hex_digits :: "nat \<Rightarrow> string" where
  "hex_digits n = (if n < 16 then [''0123456789abcdef'' ! n] else hex_digits (n div 16) @ [''0123456789abcdef'' ! (n mod 16)])"

declare hex_digits.simps [simp del]

text \<open>The digits that \<open>{}\<close> prints.\<close>

fun dec_digits :: "nat \<Rightarrow> string" where
  "dec_digits n = (if n < 10 then [''0123456789'' ! n] else dec_digits (n div 10) @ [''0123456789'' ! (n mod 10)])"

declare dec_digits.simps [simp del]

section \<open>Byte maps\<close>

text \<open>
  The contents of a guest physical address space, as seen by the lemmas: a partial map from
  addresses to bytes, the domain being the addresses backed by a region.
\<close>

type_synonym bytemap = "nat \<Rightarrow> u8 option"

definition mapped :: "bytemap \<Rightarrow> nat \<Rightarrow> nat \<Rightarrow> bool" where
  "mapped f a n = list_all (\<lambda>i. f i \<noteq> None) [a..<a + n]"

definition bytes_at :: "bytemap \<Rightarrow> nat \<Rightarrow> nat \<Rightarrow> u8 list" where
  "bytes_at f a n = map (\<lambda>i. the (f i)) [a..<a + n]"

definition put_bytes :: "bytemap \<Rightarrow> nat \<Rightarrow> u8 list \<Rightarrow> bytemap" where
  "put_bytes f a bs = (\<lambda>x. if a \<le> x \<and> x < a + length bs then Some (bs ! (x - a)) else f x)"

text \<open>Two address ranges, each given by start and length, do not overlap.\<close>

definition apart :: "nat \<Rightarrow> nat \<Rightarrow> nat \<Rightarrow> nat \<Rightarrow> bool" where
  "apart a n b k = (a + n \<le> b \<or> b + k \<le> a)"

section \<open>Lemma collections and generic lemmas\<close>

named_theorems outcome_simps \<open>equations for outcomes and their sequencing\<close>
named_theorems byte_simps \<open>equations for byte encodings and byte maps\<close>

lemma and_then_simps [simp, outcome_simps]:
  "and_then (Ok a, s) f = f a s"
  "and_then (Err e, s) f = (Err e, s)"
  "and_then (Panic, s) f = (Panic, s)"
  by (simp_all add: and_then_def)

lemma and_then_OkE:
  assumes "and_then r f = (Ok b, t)"
  obtains a s where "r = (Ok a, s)" and "f a s = (Ok b, t)"
  using assms by (cases r; cases "fst r") (auto simp: and_then_def)

lemma and_then_cases:
  assumes "and_then r f = x"
  obtains (Ok) a s where "r = (Ok a, s)" and "f a s = x"
  | (Err) e s where "r = (Err e, s)" and "x = (Err e, s)"
  | (Panic) s where "r = (Panic, s)" and "x = (Panic, s)"
  using assms by (cases r; cases "fst r") (auto simp: and_then_def)

lemma bind_outcome_simps [simp, outcome_simps]:
  "bind_outcome (Ok a) g = g a"
  "bind_outcome (Err e) g = Err e"
  "bind_outcome Panic g = Panic"
  by (simp_all add: bind_outcome_def)

lemma map_err_simps [simp, outcome_simps]:
  "map_err f (Ok a) = Ok a" "map_err f (Err e) = Err (f e)" "map_err f Panic = Panic"
  by (simp_all add: map_err_def)

lemma map_err_Ok [simp]: "map_err f r = Ok a \<longleftrightarrow> r = Ok a"
  by (cases r) simp_all

lemma is_ok_simps [simp, outcome_simps]:
  "is_ok (Ok a)" "\<not> is_ok (Err e)" "\<not> is_ok Panic"
  by (simp_all add: is_ok_def)

lemma unat_bounds:
  "unat (a :: u8) < 256" "unat (b :: u16) < 65536" "unat (c :: u32) < 4294967296"
  "unat (d :: u64) < 18446744073709551616"
proof -
  have "unat a < 2 ^ LENGTH(8)" "unat b < 2 ^ LENGTH(16)" "unat c < 2 ^ LENGTH(32)" "unat d < 2 ^ LENGTH(64)"
    by (rule unsigned_less)+
  then show "unat a < 256" "unat b < 65536" "unat c < 4294967296" "unat d < 18446744073709551616"
    by simp_all
qed

lemma unat_word_of_nat_small:
  "i < 256 \<Longrightarrow> unat (word_of_nat i :: u8) = i" "j < 65536 \<Longrightarrow> unat (word_of_nat j :: u16) = j"
  "k < 4294967296 \<Longrightarrow> unat (word_of_nat k :: u32) = k"
  "n < 18446744073709551616 \<Longrightarrow> unat (word_of_nat n :: u64) = n"
  by (simp_all add: unat_of_nat)

lemma length_splice [simp]: "i + length ys \<le> length xs \<Longrightarrow> length (splice xs i ys) = length xs"
  by (simp add: splice_def)

lemma splice_read_back: "i + length ys \<le> length xs \<Longrightarrow> take (length ys) (drop i (splice xs i ys)) = ys"
  by (simp add: splice_def)

lemma nth_splice:
  "i + length ys \<le> length xs \<Longrightarrow> x < length xs \<Longrightarrow>
   splice xs i ys ! x = (if i \<le> x \<and> x < i + length ys then ys ! (x - i) else xs ! x)"
  by (auto simp: splice_def nth_append min_def)

lemma take_drop_splice_other:
  assumes "i + length ys \<le> length xs" and "b + n \<le> i \<or> i + length ys \<le> b"
  shows "take n (drop b (splice xs i ys)) = take n (drop b xs)"
  using assms by (intro nth_equalityI) (auto simp: nth_splice)

lemma take_drop_update_other: "i < b \<or> b + n \<le> i \<Longrightarrow> take n (drop b (xs[i := v])) = take n (drop b xs)"
  by (intro nth_equalityI) (auto simp: nth_list_update)

lemma length_copy_prefix [simp]: "length (copy_prefix src dst) = length dst"
  by (simp add: copy_prefix_def)

lemma copy_prefix_same_length: "length src = length dst \<Longrightarrow> copy_prefix src dst = src"
  by (simp add: copy_prefix_def)

lemma concat_chunks: "0 < n \<Longrightarrow> concat (chunks n xs) = xs"
proof (induction n xs rule: chunks.induct)
  case (1 n xs)
  then show ?case by (subst chunks.simps) auto
qed

lemma length_le_bytes_nat [simp]: "length (le_bytes_nat n v) = n"
  by (induction n arbitrary: v) auto

lemma le_nat_le_bytes_nat: "le_nat (le_bytes_nat n v) = v mod 256 ^ n"
proof (induction n arbitrary: v)
  case 0
  then show ?case by simp
next
  case (Suc n)
  have "v mod 256 ^ Suc n = v mod 256 + 256 * (v div 256 mod 256 ^ n)"
    by (simp add: mod_mult2_eq)
  then show ?case
    by (simp add: Suc.IH unat_of_nat)
qed

lemma le_nat_bound: "le_nat bs < 256 ^ length bs"
proof (induction bs)
  case Nil
  then show ?case by simp
next
  case (Cons b bs)
  then show ?case
    using unat_bounds(1) [of b] by simp
qed

lemma length_to_le_bytes [simp]:
  "length (u16_to_le_bytes a) = 2" "length (u32_to_le_bytes b) = 4" "length (u64_to_le_bytes c) = 8"
  by (simp_all add: u16_to_le_bytes_def u32_to_le_bytes_def u64_to_le_bytes_def)

lemma to_le_bytes_nonempty [simp]:
  "u16_to_le_bytes a \<noteq> []" "u32_to_le_bytes b \<noteq> []" "u64_to_le_bytes c \<noteq> []"
  by (metis length_to_le_bytes list.size(3) zero_neq_numeral)+

lemma u32_le_roundtrip [simp]: "u32_from_le_bytes (u32_to_le_bytes w) = w"
proof -
  have "unat w mod 256 ^ 4 = unat w"
    using unat_bounds by simp
  then show ?thesis
    by (simp add: u32_from_le_bytes_def u32_to_le_bytes_def le_nat_le_bytes_nat)
qed

lemma u64_le_roundtrip [simp]: "u64_from_le_bytes (u64_to_le_bytes w) = w"
proof -
  have "unat w mod 256 ^ 8 = unat w"
    using unat_bounds by simp
  then show ?thesis
    by (simp add: u64_from_le_bytes_def u64_to_le_bytes_def le_nat_le_bytes_nat)
qed

lemma length_string_bytes [simp]: "length (string_bytes s) = length s"
  by (simp add: string_bytes_def)

lemma length_bytes_at [simp]: "length (bytes_at f a n) = n"
  by (simp add: bytes_at_def)

lemma nth_bytes_at [simp]: "i < n \<Longrightarrow> bytes_at f a n ! i = the (f (a + i))"
  by (simp add: bytes_at_def)

lemma mapped_iff: "mapped f a n \<longleftrightarrow> (\<forall>x. a \<le> x \<and> x < a + n \<longrightarrow> f x \<noteq> None)"
  by (auto simp: mapped_def list_all_iff)

lemma mapped_sub: "mapped f a n \<Longrightarrow> a \<le> b \<Longrightarrow> b + k \<le> a + n \<Longrightarrow> mapped f b k"
  by (auto simp: mapped_iff)

lemma bytes_at_cong: "(\<And>x. a \<le> x \<Longrightarrow> x < a + n \<Longrightarrow> f x = g x) \<Longrightarrow> bytes_at f a n = bytes_at g a n"
  by (simp add: bytes_at_def)

lemma bytes_at_put_same [byte_simps]: "bytes_at (put_bytes f a bs) a (length bs) = bs"
  by (rule nth_equalityI) (auto simp: put_bytes_def)

lemma put_bytes_other [byte_simps]: "x < a \<or> a + length bs \<le> x \<Longrightarrow> put_bytes f a bs x = f x"
  by (auto simp: put_bytes_def)

lemma bytes_at_put_disjoint [byte_simps]:
  "b + n \<le> a \<or> a + length bs \<le> b \<Longrightarrow> bytes_at (put_bytes f a bs) b n = bytes_at f b n"
  by (rule bytes_at_cong) (auto simp: put_bytes_other)

lemma bytes_at_put_inside [byte_simps]:
  "a \<le> b \<Longrightarrow> b + n \<le> a + length bs \<Longrightarrow> bytes_at (put_bytes f a bs) b n = take n (drop (b - a) bs)"
  by (rule nth_equalityI) (auto simp: put_bytes_def)

lemma put_bytes_Nil [simp]: "put_bytes f a [] = f"
  by (auto simp: put_bytes_def fun_eq_iff)

lemma put_bytes_append: "put_bytes (put_bytes f a bs) (a + length bs) cs = put_bytes f a (bs @ cs)"
  by (auto simp: put_bytes_def nth_append fun_eq_iff)

lemma bytes_at_split: "k \<le> n \<Longrightarrow> bytes_at f a k @ bytes_at f (a + k) (n - k) = bytes_at f a n"
  by (rule nth_equalityI) (auto simp: nth_append)

lemma dom_put_bytes: "mapped f a (length bs) \<Longrightarrow> dom (put_bytes f a bs) = dom f"
  by (auto simp: put_bytes_def mapped_iff dom_def)

lemma mapped_cong: "dom f = dom g \<Longrightarrow> mapped f a n = mapped g a n"
  by (auto simp: mapped_iff dom_def set_eq_iff)

end
