(* ===== verification/Hv_Error.thy ===== *)
theory Hv_Error
  imports Hv_Prelude
begin

text \<open>
  The error type of \<open>src/error.rs\<close> and its conversions.  Errors of other crates enter the
  hypervisor through their display text only, so they are represented by that text; a KVM error is
  its \<open>errno\<close>.  An \<open>std::io::Error\<close> has a kind and a text; the kinds that the hypervisor neither
  constructs nor matches on are numbered by \<open>KindNo\<close>.
\<close>

datatype io_kind = WouldBlock | InvalidInput | UnexpectedEof | Unsupported | Other | KindNo nat

datatype io_error = IoErr io_kind string

type_synonym kvm_errno = int
type_synonym gm_error = string

datatype HypervisorError =
    KvmError kvm_errno
  | IoError io_error
  | BincodeError string
  | MemoryError string
  | VirtioError string
  | UnsupportedArchitecture
  | VcpuError string
  | SnapshotError string
  | ThreadSpawnError string
  | NetworkError string
  | FamError string
  | GenericError string

type_synonym 'a Result = "(HypervisorError, 'a) outcome"

primrec io_error_kind :: "io_error \<Rightarrow> io_kind" where
  "io_error_kind (IoErr k s) = k"

primrec io_error_to_string :: "io_error \<Rightarrow> string" where
  "io_error_to_string (IoErr k s) = s"

text \<open>\<open>impl From<&std::io::Error>\<close>: the error cannot be moved, so it is rebuilt.\<close>

definition from_io_ref :: "io_error \<Rightarrow> HypervisorError" where
  "from_io_ref e = IoError (IoErr (io_error_kind e) (io_error_to_string e))"

text \<open>
  \<open>impl From<anyhow::Error>\<close>.  An \<open>anyhow\<close> error belongs to another crate; what the conversion
  asks of it, \<open>downcast_ref::<io::Error>\<close> and \<open>to_string\<close>, are the first two arguments.
\<close>

definition from_anyhow :: "('x \<Rightarrow> io_error option) \<Rightarrow> ('x \<Rightarrow> string) \<Rightarrow> 'x \<Rightarrow> HypervisorError" where
  "from_anyhow downcast_ref to_string err =
     (case downcast_ref err of
        Some io_err \<Rightarrow> IoError (IoErr (io_error_kind io_err) (io_error_to_string io_err))
      | None \<Rightarrow> GenericError (to_string err))"

text \<open>\<open>impl From<GuestMemoryError>\<close>.\<close>

definition from_guest_memory_error :: "gm_error \<Rightarrow> HypervisorError" where
  "from_guest_memory_error err = MemoryError err"

text \<open>
  The display texts that the \<open>#[error]\<close> attributes give.  The text of a KVM \<open>errno\<close> is made by
  another crate and is the argument.
\<close>

fun hypervisor_error_to_string :: "(kvm_errno \<Rightarrow> string) \<Rightarrow> HypervisorError \<Rightarrow> string" where
  "hypervisor_error_to_string errno_text (KvmError n) = ''KVM error: '' @ errno_text n"
| "hypervisor_error_to_string errno_text (IoError e) = ''IO error: '' @ io_error_to_string e"
| "hypervisor_error_to_string errno_text (BincodeError s) = ''Bincode error: '' @ s"
| "hypervisor_error_to_string errno_text (MemoryError s) = ''Memory error: '' @ s"
| "hypervisor_error_to_string errno_text (VirtioError s) = ''Virtio error: '' @ s"
| "hypervisor_error_to_string errno_text UnsupportedArchitecture = ''Unsupported architecture''"
| "hypervisor_error_to_string errno_text (VcpuError s) = ''VCPU error: '' @ s"
| "hypervisor_error_to_string errno_text (SnapshotError s) = ''Snapshot error: '' @ s"
| "hypervisor_error_to_string errno_text (ThreadSpawnError s) = ''Thread spawn error: '' @ s"
| "hypervisor_error_to_string errno_text (NetworkError s) = ''Network error: '' @ s"
| "hypervisor_error_to_string errno_text (FamError s) = ''FAM error: '' @ s"
| "hypervisor_error_to_string errno_text (GenericError s) = ''Generic error: '' @ s"

lemma from_io_ref_eq [simp]: "from_io_ref e = IoError e"
  by (cases e) (simp add: from_io_ref_def)

lemma from_anyhow_Some [simp]: "downcast_ref err = Some e \<Longrightarrow> from_anyhow downcast_ref to_string err = IoError e"
  by (cases e) (simp add: from_anyhow_def)

lemma from_anyhow_None [simp]:
  "downcast_ref err = None \<Longrightarrow> from_anyhow downcast_ref to_string err = GenericError (to_string err)"
  by (simp add: from_anyhow_def)

end
