(* ===== verification/Hv_Platform.thy ===== *)
theory Hv_Platform
  imports Hv_Error
begin

text \<open>
  The crate under the hypervisor that holds guest memory (\<open>vm-memory\<close>).  It is not part of the
  repository, so every operation the hypervisor calls is a field of a record of operations that the
  model takes as an argument; the type variable stands for the crate's own data.  What the
  hypervisor relies on is stated by the locales below: \<open>guest_memory\<close> for \<open>read_slice\<close> and
  \<open>write_slice\<close>, and \<open>guest_regions\<close> for the region view of the same memory.

  \<open>flat_mem\<close> is a reference memory that meets the contracts: a list of regions with zeroed bytes at
  creation, every access outside the regions refused.  It is what the witnesses run on.
\<close>

section \<open>Guest memory\<close>

text \<open>
  \<open>read_slice\<close> fills a buffer that the caller owns: the argument and the second component of the
  result are the buffer before and after, since a failed read may have filled a part of it.  In the
  same way \<open>write_slice\<close> returns the memory also when it fails.
\<close>

record 'm gmem_ops =
  from_ranges :: "(u64 \<times> nat) list \<Rightarrow> gm_error + 'm"
  read_slice :: "'m \<Rightarrow> u8 list \<Rightarrow> u64 \<Rightarrow> gm_error option \<times> u8 list"
  write_slice :: "'m \<Rightarrow> u8 list \<Rightarrow> u64 \<Rightarrow> gm_error option \<times> 'm"
  mem_iter :: "'m \<Rightarrow> (u64 \<times> nat) list"
  region_as_ptr :: "'m \<Rightarrow> nat \<Rightarrow> u64"
  find_region :: "'m \<Rightarrow> u64 \<Rightarrow> nat option"
  region_read_slice :: "'m \<Rightarrow> nat \<Rightarrow> u8 list \<Rightarrow> u64 \<Rightarrow> gm_error option \<times> u8 list"
  region_write_slice :: "'m \<Rightarrow> nat \<Rightarrow> u8 list \<Rightarrow> u64 \<Rightarrow> gm_error option \<times> 'm"

text \<open>\<open>memory.write_slice(bs, addr).map_err(f)?\<close>, and a \<open>for\<close> loop over a range of integers whose
  body may leave the function with \<open>?\<close>.\<close>

definition write_slice_or ::
  "('m, 'z) gmem_ops_scheme \<Rightarrow> (gm_error \<Rightarrow> HypervisorError) \<Rightarrow> 'm \<Rightarrow> u8 list \<Rightarrow> u64 \<Rightarrow> unit Result \<times> 'm" where
  "write_slice_or G f m bs a =
     (case write_slice G m bs a of (None, m') \<Rightarrow> (Ok (), m') | (Some e, m') \<Rightarrow> (Err (f e), m'))"

fun for_range :: "nat \<Rightarrow> nat \<Rightarrow> (nat \<Rightarrow> 's \<Rightarrow> unit Result \<times> 's) \<Rightarrow> 's \<Rightarrow> unit Result \<times> 's" where
  "for_range i 0 body s = (Ok (), s)"
| "for_range i (Suc k) body s = and_then (body i s) (\<lambda>_ s. for_range (Suc i) k body s)"

locale guest_memory =
  fixes G :: "('m, 'z) gmem_ops_scheme"
    and invar :: "'m \<Rightarrow> bool"
    and view :: "'m \<Rightarrow> bytemap"
  assumes read_length: "length (snd (read_slice G m buf a)) = length buf"
    and read_ok: "invar m \<Longrightarrow> buf \<noteq> [] \<Longrightarrow> mapped (view m) (unat a) (length buf) \<Longrightarrow>
      read_slice G m buf a = (None, bytes_at (view m) (unat a) (length buf))"
    and read_err: "invar m \<Longrightarrow> buf \<noteq> [] \<Longrightarrow> \<not> mapped (view m) (unat a) (length buf) \<Longrightarrow>
      fst (read_slice G m buf a) \<noteq> None"
    and write_ok: "invar m \<Longrightarrow> bs \<noteq> [] \<Longrightarrow> mapped (view m) (unat a) (length bs) \<Longrightarrow>
      fst (write_slice G m bs a) = None \<and>
      view (snd (write_slice G m bs a)) = put_bytes (view m) (unat a) bs"
    and write_err: "invar m \<Longrightarrow> bs \<noteq> [] \<Longrightarrow> \<not> mapped (view m) (unat a) (length bs) \<Longrightarrow>
      fst (write_slice G m bs a) \<noteq> None"
    and write_frame: "invar m \<Longrightarrow> x < unat a \<or> unat a + length bs \<le> x \<Longrightarrow>
      view (snd (write_slice G m bs a)) x = view m x"
    and write_dom: "invar m \<Longrightarrow> dom (view (snd (write_slice G m bs a))) = dom (view m)"
    and write_invar: "invar m \<Longrightarrow> invar (snd (write_slice G m bs a))"
begin

lemma write_slice_mapped:
  assumes "invar m" and "bs \<noteq> []" and "mapped (view m) (unat a) (length bs)"
  obtains m' where "write_slice G m bs a = (None, m')" and "invar m'"
    and "view m' = put_bytes (view m) (unat a) bs"
proof -
  obtain r m' where w: "write_slice G m bs a = (r, m')"
    by (cases "write_slice G m bs a")
  with write_ok [OF assms] write_invar [OF assms(1), of bs a] that [of m'] show thesis
    by simp
qed

lemma write_slice_or_mapped:
  assumes "invar m" and "bs \<noteq> []" and "mapped (view m) (unat a) (length bs)"
  obtains m' where "write_slice_or G f m bs a = (Ok (), m')" and "invar m'"
    and "view m' = put_bytes (view m) (unat a) bs" and "dom (view m') = dom (view m)"
proof -
  obtain m' where "write_slice G m bs a = (None, m')" "invar m'" "view m' = put_bytes (view m) (unat a) bs"
    using write_slice_mapped [OF assms] .
  with that [of m'] dom_put_bytes [OF assms(3)] show thesis
    by (simp add: write_slice_or_def)
qed

lemma write_slice_or_total:
  assumes "invar m" and "bs \<noteq> []" and "mapped f b n" and "dom (view m) = dom f"
    and "b \<le> unat a" and "unat a + length bs \<le> b + n"
  obtains m' where "write_slice_or G h m bs a = (Ok (), m')" and "invar m'" and "dom (view m') = dom f"
proof -
  have "mapped (view m) (unat a) (length bs)"
    using mapped_sub [OF assms(3,5,6)] mapped_cong [OF assms(4)] by simp
  from write_slice_or_mapped [OF assms(1,2) this] that assms(4) show thesis by metis
qed

lemma write_slice_or_Ok:
  assumes "invar m" and "bs \<noteq> []" and "write_slice_or G f m bs a = (Ok (), m')"
  shows "mapped (view m) (unat a) (length bs) \<and> invar m' \<and> view m' = put_bytes (view m) (unat a) bs \<and>
    dom (view m') = dom (view m)"
proof -
  have w: "write_slice G m bs a = (None, m')"
    using assms(3) by (auto simp: write_slice_or_def split: prod.splits option.splits)
  then have mp: "mapped (view m) (unat a) (length bs)"
    using write_err [OF assms(1,2), of a] by auto
  with write_ok [OF assms(1,2) mp] write_invar [OF assms(1), of bs a] w dom_put_bytes [OF mp] show ?thesis
    by simp
qed

lemma write_then_read:
  assumes "invar m" and "bs \<noteq> []" and "write_slice G m bs a = (None, m')" and "length buf = length bs"
  shows "read_slice G m' buf a = (None, bs)"
proof -
  have mp: "mapped (view m) (unat a) (length bs)"
    using write_err [OF assms(1,2), of a] assms(3) by auto
  have v: "view m' = put_bytes (view m) (unat a) bs" and i: "invar m'"
    using write_ok [OF assms(1,2) mp] write_invar [OF assms(1), of bs a] assms(3) by simp_all
  have "mapped (view m') (unat a) (length bs)"
    using mp mapped_cong [OF dom_put_bytes [OF mp]] by (simp add: v)
  moreover have "buf \<noteq> []"
    using assms(2,4) by auto
  ultimately show ?thesis
    using read_ok [OF i, of buf a] assms(4) by (simp add: v bytes_at_put_same)
qed

end

lemma for_range_total:
  assumes "\<And>j s. i \<le> j \<Longrightarrow> j < i + k \<Longrightarrow> I j s \<Longrightarrow> \<exists>s'. body j s = (Ok (), s') \<and> I (Suc j) s'" and "I i s"
  shows "\<exists>s'. for_range i k body s = (Ok (), s') \<and> I (i + k) s'"
  using assms
proof (induction k arbitrary: i s)
  case 0
  then show ?case by simp
next
  case (Suc k)
  obtain s1 where s1: "body i s = (Ok (), s1)" "I (Suc i) s1"
    using Suc.prems(1) [of i s] Suc.prems(2) by auto
  obtain s' where "for_range (Suc i) k body s1 = (Ok (), s')" "I (Suc i + k) s'"
    using Suc.IH [of "Suc i" s1] Suc.prems(1) s1(2) by auto
  with s1 show ?case by simp
qed

text \<open>The region view: \<open>iter\<close>, \<open>find_region\<close> and the accesses relative to a region.\<close>

locale guest_regions = guest_memory G invar view
  for G :: "('m, 'z) gmem_ops_scheme" and invar :: "'m \<Rightarrow> bool" and view :: "'m \<Rightarrow> bytemap" +
  assumes view_dom: "invar m \<Longrightarrow>
      view m x \<noteq> None \<longleftrightarrow> (\<exists>(s, n) \<in> set (mem_iter G m). unat s \<le> x \<and> x < unat s + n)"
    and regions_bounded: "invar m \<Longrightarrow> (s, n) \<in> set (mem_iter G m) \<Longrightarrow> 0 < n \<and> unat s + n \<le> 2 ^ 64"
    and regions_disjoint: "invar m \<Longrightarrow> i < length (mem_iter G m) \<Longrightarrow> j < length (mem_iter G m) \<Longrightarrow> i \<noteq> j \<Longrightarrow>
      {unat (fst (mem_iter G m ! i))..<unat (fst (mem_iter G m ! i)) + snd (mem_iter G m ! i)} \<inter>
      {unat (fst (mem_iter G m ! j))..<unat (fst (mem_iter G m ! j)) + snd (mem_iter G m ! j)} = {}"
    and write_iter: "invar m \<Longrightarrow> mem_iter G (snd (write_slice G m bs a)) = mem_iter G m"
    and find_region_Some: "invar m \<Longrightarrow> find_region G m a = Some i \<Longrightarrow>
      i < length (mem_iter G m) \<and> unat (fst (mem_iter G m ! i)) \<le> unat a \<and>
      unat a < unat (fst (mem_iter G m ! i)) + snd (mem_iter G m ! i)"
    and find_region_None: "invar m \<Longrightarrow> find_region G m a = None \<Longrightarrow> view m (unat a) = None"
    and region_read: "invar m \<Longrightarrow> i < length (mem_iter G m) \<Longrightarrow> buf \<noteq> [] \<Longrightarrow>
      unat off + length buf \<le> snd (mem_iter G m ! i) \<Longrightarrow>
      region_read_slice G m i buf off =
        (None, bytes_at (view m) (unat (fst (mem_iter G m ! i)) + unat off) (length buf))"
    and region_write: "invar m \<Longrightarrow> i < length (mem_iter G m) \<Longrightarrow> bs \<noteq> [] \<Longrightarrow>
      unat off + length bs \<le> snd (mem_iter G m ! i) \<Longrightarrow>
      fst (region_write_slice G m i bs off) = None \<and>
      view (snd (region_write_slice G m i bs off)) =
        put_bytes (view m) (unat (fst (mem_iter G m ! i)) + unat off) bs"
    and region_write_err: "invar m \<Longrightarrow> i < length (mem_iter G m) \<Longrightarrow> bs \<noteq> [] \<Longrightarrow>
      snd (mem_iter G m ! i) < unat off + length bs \<Longrightarrow> fst (region_write_slice G m i bs off) \<noteq> None"
    and region_write_invar: "invar m \<Longrightarrow> invar (snd (region_write_slice G m i bs off))"
    and region_write_iter: "invar m \<Longrightarrow> mem_iter G (snd (region_write_slice G m i bs off)) = mem_iter G m"
    and region_write_frame: "invar m \<Longrightarrow> i < length (mem_iter G m) \<Longrightarrow>
      x < unat (fst (mem_iter G m ! i)) + unat off \<or> unat (fst (mem_iter G m ! i)) + unat off + length bs \<le> x \<Longrightarrow>
      view (snd (region_write_slice G m i bs off)) x = view m x"
    and from_ranges_ok: "from_ranges G rs = Inr m \<Longrightarrow>
      invar m \<and> mem_iter G m = rs \<and> (\<forall>x. view m x \<noteq> None \<longrightarrow> view m x = Some 0)"
begin

lemma region_mapped:
  assumes "invar m" and "(s, n) \<in> set (mem_iter G m)" and "unat s \<le> a" and "a + k \<le> unat s + n"
  shows "mapped (view m) a k"
proof -
  have "view m x \<noteq> None" if "a \<le> x" "x < a + k" for x
    using view_dom [OF assms(1), of x] assms(2-4) that by (fastforce intro: bexI [of _ "(s, n)"])
  then show ?thesis by (simp add: mapped_iff)
qed

end

section \<open>The reference memory\<close>

record flat_mem =
  fm_regions :: "(u64 \<times> nat) list"
  fm_byte :: "nat \<Rightarrow> u8"

definition in_regions :: "(u64 \<times> nat) list \<Rightarrow> nat \<Rightarrow> bool" where
  "in_regions rs x = list_ex (\<lambda>(s, n). unat s \<le> x \<and> x < unat s + n) rs"

definition flat_view :: "flat_mem \<Rightarrow> bytemap" where
  "flat_view m x = (if in_regions (fm_regions m) x then Some (fm_byte m x) else None)"

definition flat_disjoint :: "u64 \<times> nat \<Rightarrow> u64 \<times> nat \<Rightarrow> bool" where
  "flat_disjoint r q = (unat (fst r) + snd r \<le> unat (fst q) \<or> unat (fst q) + snd q \<le> unat (fst r))"

fun flat_regions_ok :: "(u64 \<times> nat) list \<Rightarrow> bool" where
  "flat_regions_ok [] = True"
| "flat_regions_ok (r # rs) =
     (0 < snd r \<and> unat (fst r) + snd r \<le> 2 ^ 64 \<and> list_all (flat_disjoint r) rs \<and> flat_regions_ok rs)"

definition flat_invar :: "flat_mem \<Rightarrow> bool" where
  "flat_invar m = flat_regions_ok (fm_regions m)"

definition flat_from_ranges :: "(u64 \<times> nat) list \<Rightarrow> gm_error + flat_mem" where
  "flat_from_ranges rs =
     (if flat_regions_ok rs then Inr \<lparr>fm_regions = rs, fm_byte = (\<lambda>_. 0)\<rparr> else Inl ''overlapping regions'')"

definition flat_read :: "flat_mem \<Rightarrow> u8 list \<Rightarrow> u64 \<Rightarrow> gm_error option \<times> u8 list" where
  "flat_read m buf a =
     (if mapped (flat_view m) (unat a) (length buf)
      then (None, bytes_at (flat_view m) (unat a) (length buf))
      else (Some ''invalid guest address'', buf))"

definition flat_put :: "flat_mem \<Rightarrow> nat \<Rightarrow> u8 list \<Rightarrow> flat_mem" where
  "flat_put m a bs = m\<lparr>fm_byte := (\<lambda>x. if a \<le> x \<and> x < a + length bs then bs ! (x - a) else fm_byte m x)\<rparr>"

definition flat_write :: "flat_mem \<Rightarrow> u8 list \<Rightarrow> u64 \<Rightarrow> gm_error option \<times> flat_mem" where
  "flat_write m bs a =
     (if mapped (flat_view m) (unat a) (length bs) then (None, flat_put m (unat a) bs)
      else (Some ''invalid guest address'', m))"

fun flat_find :: "nat \<Rightarrow> (u64 \<times> nat) list \<Rightarrow> u64 \<Rightarrow> nat option" where
  "flat_find i [] a = None"
| "flat_find i ((s, n) # rs) a =
     (if unat s \<le> unat a \<and> unat a < unat s + n then Some i else flat_find (Suc i) rs a)"

definition flat_region_read :: "flat_mem \<Rightarrow> nat \<Rightarrow> u8 list \<Rightarrow> u64 \<Rightarrow> gm_error option \<times> u8 list" where
  "flat_region_read m i buf off =
     (if i < length (fm_regions m) \<and> unat off + length buf \<le> snd (fm_regions m ! i)
      then (None, bytes_at (flat_view m) (unat (fst (fm_regions m ! i)) + unat off) (length buf))
      else (Some ''invalid region offset'', buf))"

definition flat_region_write :: "flat_mem \<Rightarrow> nat \<Rightarrow> u8 list \<Rightarrow> u64 \<Rightarrow> gm_error option \<times> flat_mem" where
  "flat_region_write m i bs off =
     (if i < length (fm_regions m) \<and> unat off + length bs \<le> snd (fm_regions m ! i)
      then (None, flat_put m (unat (fst (fm_regions m ! i)) + unat off) bs)
      else (Some ''invalid region offset'', m))"

definition flat_ops :: "flat_mem gmem_ops" where
  "flat_ops = \<lparr>from_ranges = flat_from_ranges, read_slice = flat_read, write_slice = flat_write,
     mem_iter = fm_regions, region_as_ptr = (\<lambda>m i. 0), find_region = (\<lambda>m. flat_find 0 (fm_regions m)),
     region_read_slice = flat_region_read, region_write_slice = flat_region_write\<rparr>"

lemma in_regions_iff: "in_regions rs x \<longleftrightarrow> (\<exists>(s, n) \<in> set rs. unat s \<le> x \<and> x < unat s + n)"
  by (auto simp: in_regions_def list_ex_iff)

lemma flat_put_regions [simp]: "fm_regions (flat_put m a bs) = fm_regions m"
  by (simp add: flat_put_def)

lemma flat_view_put:
  "flat_view (flat_put m a bs) x =
     (if a \<le> x \<and> x < a + length bs \<and> in_regions (fm_regions m) x then Some (bs ! (x - a)) else flat_view m x)"
  by (auto simp: flat_view_def flat_put_def)

lemma flat_view_put_mapped:
  assumes "mapped (flat_view m) a (length bs)"
  shows "flat_view (flat_put m a bs) = put_bytes (flat_view m) a bs"
proof
  fix x
  have "in_regions (fm_regions m) x" if "a \<le> x" "x < a + length bs"
    using assms that by (auto simp: mapped_iff flat_view_def split: if_splits)
  then show "flat_view (flat_put m a bs) x = put_bytes (flat_view m) a bs x"
    by (auto simp: flat_view_put put_bytes_def)
qed

lemma flat_find_Some:
  "flat_find k rs a = Some i \<Longrightarrow> k \<le> i \<and> i < k + length rs \<and>
     unat (fst (rs ! (i - k))) \<le> unat a \<and> unat a < unat (fst (rs ! (i - k))) + snd (rs ! (i - k))"
proof (induction k rs a rule: flat_find.induct)
  case (1 i a)
  then show ?case by simp
next
  case (2 k s n rs a)
  then show ?case
    by (auto split: if_splits simp: Suc_diff_le nth_Cons')
qed

lemma flat_find_None: "flat_find k rs a = None \<Longrightarrow> \<not> in_regions rs (unat a)"
  by (induction k rs a rule: flat_find.induct) (auto simp: in_regions_def split: if_splits)

lemma flat_regions_ok_nth:
  "flat_regions_ok rs \<Longrightarrow> i < j \<Longrightarrow> j < length rs \<Longrightarrow> flat_disjoint (rs ! i) (rs ! j)"
proof (induction rs arbitrary: i j)
  case Nil
  then show ?case by simp
next
  case (Cons r rs)
  then show ?case
    by (cases i; cases j) (auto simp: list_all_length)
qed

lemma flat_regions_ok_mem: "flat_regions_ok rs \<Longrightarrow> (s, n) \<in> set rs \<Longrightarrow> 0 < n \<and> unat s + n \<le> 2 ^ 64"
  by (induction rs) auto

lemma flat_mapped_region:
  assumes "i < length (fm_regions m)" and "off + k \<le> snd (fm_regions m ! i)"
  shows "mapped (flat_view m) (unat (fst (fm_regions m ! i)) + off) k"
proof -
  have "in_regions (fm_regions m) x"
    if "unat (fst (fm_regions m ! i)) + off \<le> x" "x < unat (fst (fm_regions m ! i)) + off + k" for x
    unfolding in_regions_iff
    using assms that by (intro bexI [of _ "fm_regions m ! i"]) (simp_all add: split_beta)
  then show ?thesis by (simp add: mapped_iff flat_view_def)
qed

lemma flat_mapped_single:
  "fm_regions m = [(s, n)] \<Longrightarrow> unat s \<le> a \<Longrightarrow> a + k \<le> unat s + n \<Longrightarrow> mapped (flat_view m) a k"
  by (auto simp: mapped_iff flat_view_def in_regions_def)

interpretation fm: guest_regions flat_ops flat_invar flat_view
proof (unfold_locales, goal_cases)
  case (1 m buf a)
  show ?case by (simp add: flat_ops_def flat_read_def)
next
  case (2 m buf a)
  then show ?case by (simp add: flat_ops_def flat_read_def)
next
  case (3 m buf a)
  then show ?case by (simp add: flat_ops_def flat_read_def)
next
  case (4 m bs a)
  then show ?case by (simp add: flat_ops_def flat_write_def flat_view_put_mapped)
next
  case (5 m bs a)
  then show ?case by (simp add: flat_ops_def flat_write_def)
next
  case (6 m x a bs)
  then show ?case by (auto simp: flat_ops_def flat_write_def flat_view_put)
next
  case (7 m bs a)
  then show ?case by (simp add: flat_ops_def flat_write_def flat_view_put_mapped dom_put_bytes)
next
  case (8 m bs a)
  then show ?case by (simp add: flat_ops_def flat_write_def flat_invar_def)
next
  case (9 m x)
  then show ?case by (simp add: flat_ops_def flat_view_def in_regions_iff)
next
  case (10 m s n)
  then show ?case using flat_regions_ok_mem [of "fm_regions m" s n] by (simp add: flat_ops_def flat_invar_def)
next
  case (11 m i j)
  then have "flat_disjoint (fm_regions m ! i) (fm_regions m ! j) \<or> flat_disjoint (fm_regions m ! j) (fm_regions m ! i)"
    by (auto simp: flat_ops_def flat_invar_def intro: flat_regions_ok_nth elim: linorder_neqE_nat)
  then show ?case by (auto simp: flat_ops_def flat_disjoint_def)
next
  case (12 m bs a)
  then show ?case by (simp add: flat_ops_def flat_write_def)
next
  case (13 m a i)
  then show ?case using flat_find_Some [of 0 "fm_regions m" a i] by (simp add: flat_ops_def)
next
  case (14 m a)
  then show ?case by (auto simp: flat_ops_def flat_view_def dest: flat_find_None)
next
  case (15 m i buf off)
  then show ?case by (simp add: flat_ops_def flat_region_read_def)
next
  case (16 m i bs off)
  then show ?case
    by (simp add: flat_ops_def flat_region_write_def flat_view_put_mapped flat_mapped_region)
next
  case (17 m i bs off)
  then show ?case by (simp add: flat_ops_def flat_region_write_def)
next
  case (18 m i bs off)
  then show ?case by (simp add: flat_ops_def flat_region_write_def flat_invar_def)
next
  case (19 m i bs off)
  then show ?case by (simp add: flat_ops_def flat_region_write_def)
next
  case (20 m i x off bs)
  then show ?case by (auto simp: flat_ops_def flat_region_write_def flat_view_put)
next
  case (21 rs m)
  then show ?case
    by (auto simp: flat_ops_def flat_from_ranges_def flat_invar_def flat_view_def split: if_splits)
qed

end
