(* ===== verification/Hv_Kvm.thy ===== *)
theory Hv_Kvm
  imports Hv_Error
begin

unbundle bit_operations_syntax

text \<open>
  The KVM interface (\<open>kvm-ioctls\<close>, \<open>kvm-bindings\<close>) as the hypervisor uses it.  The register
  structures are those of the kernel's ABI; \<open>fpu_rest\<close> is the 410 bytes of \<open>kvm_fpu\<close> that are neither
  the control word nor \<open>mxcsr\<close>.  The ioctls are not part of the repository: they are the
  fields of \<open>kvm_ops\<close>, an argument of the model, over the types of the kernel state, the VM file
  descriptor and the vCPU file descriptor.  The locale \<open>kvm_vcpu\<close> states what the hypervisor
  relies on for a vCPU descriptor (a register set that was written is read back, the other register
  sets keep their values), the locale \<open>kvm_vm\<close> what it relies on for memory slots.
\<close>

section \<open>Register structures\<close>

record kvm_regs =
  rax :: u64
  rbx :: u64
  rcx :: u64
  rdx :: u64
  rsi :: u64
  rdi :: u64
  rsp :: u64
  rbp :: u64
  r8 :: u64
  r9 :: u64
  r10 :: u64
  r11 :: u64
  r12 :: u64
  r13 :: u64
  r14 :: u64
  r15 :: u64
  rip :: u64
  rflags :: u64

record kvm_segment =
  seg_base :: u64
  seg_limit :: u32
  seg_selector :: u16
  seg_type :: u8
  seg_present :: u8
  seg_dpl :: u8
  seg_db :: u8
  seg_s :: u8
  seg_l :: u8
  seg_g :: u8
  seg_avl :: u8
  seg_unusable :: u8

record kvm_dtable =
  dt_base :: u64
  dt_limit :: u16

record kvm_sregs =
  sr_cs :: kvm_segment
  sr_ds :: kvm_segment
  sr_es :: kvm_segment
  sr_fs :: kvm_segment
  sr_gs :: kvm_segment
  sr_ss :: kvm_segment
  sr_tr :: kvm_segment
  sr_ldt :: kvm_segment
  sr_gdt :: kvm_dtable
  sr_idt :: kvm_dtable
  sr_cr0 :: u64
  sr_cr2 :: u64
  sr_cr3 :: u64
  sr_cr4 :: u64
  sr_cr8 :: u64
  sr_efer :: u64
  sr_apic_base :: u64
  sr_interrupt_bitmap :: "256 word"

record kvm_fpu =
  fpu_fcw :: u16
  fpu_mxcsr :: u32
  fpu_rest :: "3280 word"

record kvm_msr_entry =
  msr_index :: u32
  msr_reserved :: u32
  msr_data :: u64

record kvm_userspace_memory_region =
  kr_slot :: u32
  kr_flags :: u32
  kr_guest_phys_addr :: u64
  kr_memory_size :: u64
  kr_userspace_addr :: u64

datatype VcpuExit =
    IoIn u16 "u8 list"
  | IoOut u16 "u8 list"
  | MmioRead u64 "u8 list"
  | MmioWrite u64 "u8 list"
  | Hlt
  | Shutdown
  | OtherExit string

section \<open>The ioctls\<close>

text \<open>
  \<open>put_run_data\<close> is the write through the data slice of an \<open>IoIn\<close> or \<open>MmioRead\<close> exit, which
  lies in the page shared with the kernel and is what the guest reads when it is resumed.
\<close>

record ('k, 'v, 'f, 'c) kvm_ops =
  kvm_new :: "'k \<Rightarrow> kvm_errno option \<times> 'k"
  create_vm :: "'k \<Rightarrow> (kvm_errno + 'v) \<times> 'k"
  create_irq_chip :: "'v \<Rightarrow> kvm_errno option \<times> 'v"
  create_pit2 :: "'v \<Rightarrow> u32 \<Rightarrow> kvm_errno option \<times> 'v"
  set_user_memory_region :: "'v \<Rightarrow> kvm_userspace_memory_region \<Rightarrow> kvm_errno option \<times> 'v"
  create_vcpu :: "'v \<Rightarrow> u64 \<Rightarrow> (kvm_errno + 'f) \<times> 'v"
  get_clock :: "'v \<Rightarrow> kvm_errno + 'c"
  set_clock :: "'v \<Rightarrow> 'c \<Rightarrow> kvm_errno option \<times> 'v"
  get_regs :: "'f \<Rightarrow> kvm_errno + kvm_regs"
  set_regs :: "'f \<Rightarrow> kvm_regs \<Rightarrow> kvm_errno option \<times> 'f"
  get_sregs :: "'f \<Rightarrow> kvm_errno + kvm_sregs"
  set_sregs :: "'f \<Rightarrow> kvm_sregs \<Rightarrow> kvm_errno option \<times> 'f"
  get_fpu :: "'f \<Rightarrow> kvm_errno + kvm_fpu"
  set_fpu :: "'f \<Rightarrow> kvm_fpu \<Rightarrow> kvm_errno option \<times> 'f"
  msrs_from_entries :: "kvm_msr_entry list \<Rightarrow> string + kvm_msr_entry list"
  set_msrs :: "'f \<Rightarrow> kvm_msr_entry list \<Rightarrow> (kvm_errno + nat) \<times> 'f"
  vcpu_fd_run :: "'f \<Rightarrow> (kvm_errno + VcpuExit) \<times> 'f"
  put_run_data :: "'f \<Rightarrow> u8 list \<Rightarrow> 'f"

text \<open>\<open>.map_err(HypervisorError::KvmError)?\<close> on an ioctl that reads and on one that writes.\<close>

definition ioctl_get :: "kvm_errno + 'a \<Rightarrow> 'f \<Rightarrow> 'a Result \<times> 'f" where
  "ioctl_get r f = (case r of Inl n \<Rightarrow> (Err (KvmError n), f) | Inr a \<Rightarrow> (Ok a, f))"

definition ioctl_set :: "kvm_errno option \<times> 'f \<Rightarrow> unit Result \<times> 'f" where
  "ioctl_set r = (case r of (None, f) \<Rightarrow> (Ok (), f) | (Some n, f) \<Rightarrow> (Err (KvmError n), f))"

section \<open>What the hypervisor relies on\<close>

locale kvm_vcpu =
  fixes K :: "('k, 'v, 'f, 'c) kvm_ops"
    and cpu_regs :: "'f \<Rightarrow> kvm_regs"
    and cpu_sregs :: "'f \<Rightarrow> kvm_sregs"
    and cpu_fpu :: "'f \<Rightarrow> kvm_fpu"
  assumes get_regs_law: "get_regs K f = Inr r \<Longrightarrow> r = cpu_regs f"
    and get_sregs_law: "get_sregs K f = Inr sr \<Longrightarrow> sr = cpu_sregs f"
    and get_fpu_law: "get_fpu K f = Inr fp \<Longrightarrow> fp = cpu_fpu f"
    and set_regs_law: "set_regs K f r = (None, f') \<Longrightarrow> bit (rflags r) 1 \<Longrightarrow>
      cpu_regs f' = r \<and> cpu_sregs f' = cpu_sregs f \<and> cpu_fpu f' = cpu_fpu f"
    and set_sregs_law: "set_sregs K f sr = (None, f') \<Longrightarrow>
      cpu_sregs f' = sr \<and> cpu_regs f' = cpu_regs f \<and> cpu_fpu f' = cpu_fpu f"
    and set_fpu_law: "set_fpu K f fp = (None, f') \<Longrightarrow>
      cpu_fpu f' = fp \<and> cpu_regs f' = cpu_regs f \<and> cpu_sregs f' = cpu_sregs f"
    and set_msrs_law: "set_msrs K f ms = (Inr n, f') \<Longrightarrow>
      cpu_regs f' = cpu_regs f \<and> cpu_fpu f' = cpu_fpu f \<and>
      (\<exists>e. cpu_sregs f' = (cpu_sregs f)\<lparr>sr_efer := e\<rparr>)"

text \<open>
  A memory slot maps guest physical addresses to host addresses.  \<open>slots\<close> is the slot table of a
  VM descriptor: slot number to guest address, size and host address.
\<close>

locale kvm_vm =
  fixes K :: "('k, 'v, 'f, 'c) kvm_ops"
    and slots :: "'v \<Rightarrow> nat \<Rightarrow> (nat \<times> nat \<times> nat) option"
  assumes set_region_law: "set_user_memory_region K v r = (None, v') \<Longrightarrow>
    slots v' = (slots v)(unat (kr_slot r) \<mapsto>
      (unat (kr_guest_phys_addr r), unat (kr_memory_size r), unat (kr_userspace_addr r)))"
    and create_vcpu_law: "create_vcpu K v i = (Inr f, v') \<Longrightarrow> slots v' = slots v"

section \<open>Reference descriptors\<close>

text \<open>
  Descriptors that meet the two contracts: the vCPU descriptor holds its register sets and the exits
  that it will report, the VM descriptor its slot table.  Every ioctl succeeds.
\<close>

record flat_cpu =
  fc_regs :: kvm_regs
  fc_sregs :: kvm_sregs
  fc_fpu :: kvm_fpu
  fc_msrs :: "kvm_msr_entry list"
  fc_exits :: "VcpuExit list"
  fc_data :: "u8 list"

definition zero_regs :: kvm_regs where
  "zero_regs = \<lparr>rax = 0, rbx = 0, rcx = 0, rdx = 0, rsi = 0, rdi = 0, rsp = 0, rbp = 0, r8 = 0, r9 = 0,
     r10 = 0, r11 = 0, r12 = 0, r13 = 0, r14 = 0, r15 = 0, rip = 0, rflags = 2\<rparr>"

definition zero_segment :: kvm_segment where
  "zero_segment = \<lparr>seg_base = 0, seg_limit = 0, seg_selector = 0, seg_type = 0, seg_present = 0, seg_dpl = 0,
     seg_db = 0, seg_s = 0, seg_l = 0, seg_g = 0, seg_avl = 0, seg_unusable = 0\<rparr>"

definition zero_dtable :: kvm_dtable where
  "zero_dtable = \<lparr>dt_base = 0, dt_limit = 0\<rparr>"

definition zero_sregs :: kvm_sregs where
  "zero_sregs = \<lparr>sr_cs = zero_segment, sr_ds = zero_segment, sr_es = zero_segment, sr_fs = zero_segment,
     sr_gs = zero_segment, sr_ss = zero_segment, sr_tr = zero_segment, sr_ldt = zero_segment,
     sr_gdt = zero_dtable, sr_idt = zero_dtable, sr_cr0 = 0, sr_cr2 = 0, sr_cr3 = 0, sr_cr4 = 0, sr_cr8 = 0,
     sr_efer = 0, sr_apic_base = 0, sr_interrupt_bitmap = 0\<rparr>"

definition zero_fpu :: kvm_fpu where
  "zero_fpu = \<lparr>fpu_fcw = 0, fpu_mxcsr = 0, fpu_rest = 0\<rparr>"

definition reset_cpu :: flat_cpu where
  "reset_cpu = \<lparr>fc_regs = zero_regs, fc_sregs = zero_sregs, fc_fpu = zero_fpu, fc_msrs = [], fc_exits = [],
     fc_data = []\<rparr>"

type_synonym flat_slots = "(nat \<times> nat \<times> nat \<times> nat) list"

definition flat_slot :: "flat_slots \<Rightarrow> nat \<Rightarrow> (nat \<times> nat \<times> nat) option" where
  "flat_slot v = map_of v"

definition flat_set_region :: "flat_slots \<Rightarrow> kvm_userspace_memory_region \<Rightarrow> kvm_errno option \<times> flat_slots" where
  "flat_set_region v r = (None, (unat (kr_slot r), unat (kr_guest_phys_addr r), unat (kr_memory_size r),
     unat (kr_userspace_addr r)) # v)"

definition flat_run :: "flat_cpu \<Rightarrow> (kvm_errno + VcpuExit) \<times> flat_cpu" where
  "flat_run f = (case fc_exits f of [] \<Rightarrow> (Inl 4, f) | x # xs \<Rightarrow> (Inr x, f\<lparr>fc_exits := xs\<rparr>))"

definition flat_kvm :: "(unit, flat_slots, flat_cpu, nat) kvm_ops" where
  "flat_kvm = \<lparr>kvm_new = (\<lambda>k. (None, k)), create_vm = (\<lambda>k. (Inr [], k)),
     create_irq_chip = (\<lambda>v. (None, v)), create_pit2 = (\<lambda>v _. (None, v)),
     set_user_memory_region = flat_set_region, create_vcpu = (\<lambda>v _. (Inr reset_cpu, v)),
     get_clock = (\<lambda>_. Inr 0), set_clock = (\<lambda>v _. (None, v)),
     get_regs = (\<lambda>f. Inr (fc_regs f)), set_regs = (\<lambda>f r. (None, f\<lparr>fc_regs := r\<rparr>)),
     get_sregs = (\<lambda>f. Inr (fc_sregs f)), set_sregs = (\<lambda>f r. (None, f\<lparr>fc_sregs := r\<rparr>)),
     get_fpu = (\<lambda>f. Inr (fc_fpu f)), set_fpu = (\<lambda>f r. (None, f\<lparr>fc_fpu := r\<rparr>)),
     msrs_from_entries = Inr, set_msrs = (\<lambda>f ms. (Inr (length ms), f\<lparr>fc_msrs := ms\<rparr>)),
     vcpu_fd_run = flat_run, put_run_data = (\<lambda>f d. f\<lparr>fc_data := d\<rparr>)\<rparr>"

section \<open>Lemmas\<close>

lemma ioctl_get_simps [simp, outcome_simps]:
  "ioctl_get (Inl n) f = (Err (KvmError n), f)" "ioctl_get (Inr a) f = (Ok a, f)"
  by (simp_all add: ioctl_get_def)

lemma ioctl_set_simps [simp, outcome_simps]:
  "ioctl_set (None, f) = (Ok (), f)" "ioctl_set (Some n, f) = (Err (KvmError n), f)"
  by (simp_all add: ioctl_set_def)

lemma ioctl_get_Ok: "ioctl_get r f = (Ok a, f') \<longleftrightarrow> r = Inr a \<and> f' = f"
  by (auto simp: ioctl_get_def split: sum.splits)

lemma ioctl_set_Ok: "ioctl_set r = (Ok u, f') \<longleftrightarrow> r = (None, f')"
  by (cases r) (auto simp: ioctl_set_def split: option.splits)

lemma ioctl_never_panics: "fst (ioctl_get r f) \<noteq> Panic" "fst (ioctl_set q) \<noteq> Panic"
  by (auto simp: ioctl_get_def ioctl_set_def split: sum.splits option.splits prod.splits)

lemma flat_kvm_simps [simp]:
  "get_regs flat_kvm f = Inr (fc_regs f)" "set_regs flat_kvm f r = (None, f\<lparr>fc_regs := r\<rparr>)"
  "get_sregs flat_kvm f = Inr (fc_sregs f)" "set_sregs flat_kvm f sr = (None, f\<lparr>fc_sregs := sr\<rparr>)"
  "get_fpu flat_kvm f = Inr (fc_fpu f)" "set_fpu flat_kvm f fp = (None, f\<lparr>fc_fpu := fp\<rparr>)"
  "msrs_from_entries flat_kvm ms = Inr ms" "set_msrs flat_kvm f ms = (Inr (length ms), f\<lparr>fc_msrs := ms\<rparr>)"
  "vcpu_fd_run flat_kvm f = flat_run f" "put_run_data flat_kvm f d = f\<lparr>fc_data := d\<rparr>"
  "set_user_memory_region flat_kvm v kr = flat_set_region v kr"
  "kvm_new flat_kvm k = (None, k)" "create_vm flat_kvm k = (Inr [], k)"
  "create_irq_chip flat_kvm v = (None, v)" "create_pit2 flat_kvm v fl = (None, v)"
  "create_vcpu flat_kvm v i = (Inr reset_cpu, v)" "get_clock flat_kvm v = Inr 0"
  "set_clock flat_kvm v c = (None, v)"
  by (simp_all only: flat_kvm_def kvm_ops.simps)

lemma sregs_same_efer: "\<exists>e. sr = sr\<lparr>sr_efer := e\<rparr>"
  by (rule exI [of _ "sr_efer sr"]) simp

interpretation fc: kvm_vcpu flat_kvm fc_regs fc_sregs fc_fpu
  by unfold_locales (auto intro: sregs_same_efer)

interpretation fv: kvm_vm flat_kvm flat_slot
  by unfold_locales (auto simp: flat_set_region_def flat_slot_def)

end
