(* ===== verification/Hv_Memory.thy ===== *)
theory Hv_Memory
  imports Hv_Platform Hv_Kvm
begin

text \<open>
  Guest physical memory (\<open>src/memory.rs\<close>): the layout of RAM around the PCI gap, the allocation of
  the regions and their registration as KVM memory slots.  \<open>GuestMemoryRegions::new\<close> works on the
  constant \<open>MEMORY_SIZE\<close>; the layout it computes is the function \<open>guest_ranges\<close> of that constant, so
  the lemmas cover every value the constant may be set to.
\<close>

definition MEMORY_SIZE :: u64 where
  "MEMORY_SIZE = 128 * 1024 * 1024"

definition KVM_32BIT_GAP_SIZE :: u64 where
  "KVM_32BIT_GAP_SIZE = push_bit 21 768"

definition KVM_32BIT_GAP_START :: u64 where
  "KVM_32BIT_GAP_START = 0x100000000"

record 'm GuestMemoryRegions =
  memory :: 'm
  low_mem_size :: u64

definition guest_low_mem_size :: "u64 \<Rightarrow> u64" where
  "guest_low_mem_size memory_size = min KVM_32BIT_GAP_START memory_size"

definition guest_ranges :: "u64 \<Rightarrow> (u64 \<times> nat) list" where
  "guest_ranges memory_size =
     (if memory_size > KVM_32BIT_GAP_START then
        (let high_mem_size = memory_size - KVM_32BIT_GAP_START in
         [(0, unat (guest_low_mem_size memory_size)),
          (KVM_32BIT_GAP_START + KVM_32BIT_GAP_SIZE, unat high_mem_size)])
      else [(0, unat (guest_low_mem_size memory_size))])"

definition GuestMemoryRegions_new :: "('m, 'z) gmem_ops_scheme \<Rightarrow> 'm GuestMemoryRegions Result" where
  "GuestMemoryRegions_new G =
     (case from_ranges G (guest_ranges MEMORY_SIZE) of
        Inl e \<Rightarrow> Err (MemoryError e)
      | Inr m \<Rightarrow> Ok \<lparr>memory = m, low_mem_size = guest_low_mem_size MEMORY_SIZE\<rparr>)"

definition memory_slot :: "nat \<Rightarrow> u64 \<times> nat \<Rightarrow> u64 \<Rightarrow> kvm_userspace_memory_region" where
  "memory_slot slot region host_addr =
     \<lparr>kr_slot = word_of_nat slot, kr_flags = 0, kr_guest_phys_addr = fst region,
      kr_memory_size = word_of_nat (snd region), kr_userspace_addr = host_addr\<rparr>"

text \<open>The loop of \<open>setup_memory_region\<close> over \<open>self.memory.iter().enumerate()\<close>; \<open>?\<close> leaves it at
  the first slot that the kernel refuses.\<close>

fun register_slots ::
  "('k, 'v, 'f, 'c) kvm_ops \<Rightarrow> (nat \<Rightarrow> u64) \<Rightarrow> nat \<Rightarrow> (u64 \<times> nat) list \<Rightarrow> 'v \<Rightarrow> unit Result \<times> 'v" where
  "register_slots K host_addr slot [] vm_fd = (Ok (), vm_fd)"
| "register_slots K host_addr slot (region # rest) vm_fd =
     and_then (ioctl_set (set_user_memory_region K vm_fd (memory_slot slot region (host_addr slot))))
       (\<lambda>_ vm_fd. register_slots K host_addr (Suc slot) rest vm_fd)"

definition setup_memory_region ::
  "('m, 'z) gmem_ops_scheme \<Rightarrow> ('k, 'v, 'f, 'c) kvm_ops \<Rightarrow> 'm GuestMemoryRegions \<Rightarrow> 'v \<Rightarrow> unit Result \<times> 'v" where
  "setup_memory_region G K self vm_fd =
     register_slots K (region_as_ptr G (memory self)) 0 (mem_iter G (memory self)) vm_fd"

text \<open>The host address that a slot table gives to a guest physical address.\<close>

definition slot_translate :: "(nat \<Rightarrow> (nat \<times> nat \<times> nat) option) \<Rightarrow> nat \<Rightarrow> nat \<Rightarrow> nat option" where
  "slot_translate tab i gpa =
     (case tab i of None \<Rightarrow> None
      | Some (g, n, h) \<Rightarrow> if g \<le> gpa \<and> gpa < g + n then Some (h + (gpa - g)) else None)"

section \<open>Layout\<close>

lemma memory_constants:
  "unat MEMORY_SIZE = 134217728" "unat KVM_32BIT_GAP_SIZE = 1610612736" "unat KVM_32BIT_GAP_START = 4294967296"
  by (simp_all add: MEMORY_SIZE_def KVM_32BIT_GAP_SIZE_def KVM_32BIT_GAP_START_def)

lemma unat_gap_end: "unat (KVM_32BIT_GAP_START + KVM_32BIT_GAP_SIZE) = 5905580032"
  by (simp add: KVM_32BIT_GAP_SIZE_def KVM_32BIT_GAP_START_def)

lemma gap_start_less_iff: "KVM_32BIT_GAP_START < w \<longleftrightarrow> 4294967296 < unat w"
  by (simp add: word_less_nat_alt memory_constants)

lemma unat_guest_low_mem_size: "unat (guest_low_mem_size s) = min 4294967296 (unat s)"
  by (simp add: guest_low_mem_size_def min_def word_le_nat_alt memory_constants)

lemma guest_ranges_small: "unat s \<le> 4294967296 \<Longrightarrow> guest_ranges s = [(0, unat s)]"
  by (simp add: guest_ranges_def gap_start_less_iff unat_guest_low_mem_size)

lemma guest_ranges_large:
  assumes "4294967296 < unat s"
  shows "guest_ranges s = [(0, 4294967296), (KVM_32BIT_GAP_START + KVM_32BIT_GAP_SIZE, unat s - 4294967296)]"
proof -
  have "KVM_32BIT_GAP_START \<le> s"
    using assms by (simp add: word_le_nat_alt memory_constants)
  then have "unat (s - KVM_32BIT_GAP_START) = unat s - 4294967296"
    by (simp add: unat_sub memory_constants)
  then show ?thesis
    using assms by (simp add: guest_ranges_def gap_start_less_iff unat_guest_low_mem_size)
qed

lemma guest_ranges_MEMORY_SIZE: "guest_ranges MEMORY_SIZE = [(0, 134217728)]"
  by (simp add: guest_ranges_small memory_constants)

lemma gap_range_disjoint:
  assumes "(start, len) \<in> set (guest_ranges s)"
  shows "unat start + len \<le> 4294967296 \<or> 5905580032 \<le> unat start"
  using assms unat_gap_end
  by (cases "4294967296 < unat s") (auto simp: guest_ranges_small guest_ranges_large)

text \<open>
  C9. The RAM layout for a memory of any size: the regions add up to exactly that size, no two of
  them overlap, none of them reaches into the PCI gap, and none wraps around the address space.
\<close>

theorem guest_ranges_layout:
  assumes "unat memory_size + unat KVM_32BIT_GAP_SIZE \<le> 2 ^ 64"
  shows "sum_list (map snd (guest_ranges memory_size)) = unat memory_size \<and>
    list_all (\<lambda>(start, len). unat start + len \<le> 2 ^ 64 \<and>
      {unat start..<unat start + len} \<inter>
        {unat KVM_32BIT_GAP_START..<unat KVM_32BIT_GAP_START + unat KVM_32BIT_GAP_SIZE} = {})
      (guest_ranges memory_size) \<and>
    (\<forall>i j. i < j \<and> j < length (guest_ranges memory_size) \<longrightarrow>
      unat (fst (guest_ranges memory_size ! i)) + snd (guest_ranges memory_size ! i)
        \<le> unat (fst (guest_ranges memory_size ! j)))"
proof (cases "4294967296 < unat memory_size")
  case True
  with assms unat_gap_end show ?thesis
    by (auto simp: guest_ranges_large memory_constants less_Suc_eq nth_Cons')
next
  case False
  then show ?thesis
    by (auto simp: guest_ranges_small memory_constants)
qed

theorem guest_ranges_layout_witness:
  "sum_list (map snd (guest_ranges 0x200000000)) = 0x200000000 \<and>
   guest_ranges 0x200000000 = [(0, 4294967296), (0x160000000, 4294967296)]"
proof -
  have h: "unat (0x200000000 :: u64) + unat KVM_32BIT_GAP_SIZE \<le> 2 ^ 64"
    by (simp add: memory_constants)
  have "guest_ranges 0x200000000 = [(0, 4294967296), (0x160000000, 4294967296)]"
    by (simp add: guest_ranges_large KVM_32BIT_GAP_SIZE_def KVM_32BIT_GAP_START_def)
  with guest_ranges_layout [OF h] show ?thesis by simp
qed

section \<open>Allocation and registration\<close>

context guest_regions
begin

lemma GuestMemoryRegions_new_ok:
  assumes "GuestMemoryRegions_new G = Ok r"
  shows "invar (memory r) \<and> mem_iter G (memory r) = [(0, 134217728)] \<and>
    (\<forall>x. view (memory r) x = (if x < 134217728 then Some 0 else None))"
proof -
  have r: "from_ranges G [(0, 134217728)] = Inr (memory r)"
    using assms by (auto simp: GuestMemoryRegions_new_def guest_ranges_MEMORY_SIZE split: sum.splits)
  note new = from_ranges_ok [OF r]
  have "view (memory r) x = (if x < 134217728 then Some 0 else None)" for x
    using view_dom [of "memory r" x] new by (cases "view (memory r) x") auto
  with new show ?thesis by blast
qed

end

context kvm_vm
begin

lemma register_slots_ok:
  "register_slots K host_addr slot regions v = (Ok (), v') \<Longrightarrow> slot + length regions \<le> 2 ^ 32 \<Longrightarrow>
   list_all (\<lambda>(s, n). n < 2 ^ 64) regions \<Longrightarrow>
   slots v' j = (if slot \<le> j \<and> j < slot + length regions
     then Some (unat (fst (regions ! (j - slot))), snd (regions ! (j - slot)), unat (host_addr j))
     else slots v j)"
proof (induction regions arbitrary: slot v)
  case Nil
  then show ?case by auto
next
  case (Cons region rest)
  obtain v1 where v1: "set_user_memory_region K v (memory_slot slot region (host_addr slot)) = (None, v1)"
    and rest: "register_slots K host_addr (Suc slot) rest v1 = (Ok (), v')"
    using Cons.prems(1) by (auto elim!: and_then_OkE simp: ioctl_set_Ok)
  have w: "unat (word_of_nat slot :: u32) = slot" "unat (word_of_nat (snd region) :: u64) = snd region"
    using Cons.prems(2,3) by (auto simp: unat_word_of_nat_small split_beta)
  have s1: "slots v1 = (slots v)(slot \<mapsto> (unat (fst region), snd region, unat (host_addr slot)))"
    using set_region_law [OF v1] by (simp add: memory_slot_def w)
  have "slots v' j = (if Suc slot \<le> j \<and> j < Suc slot + length rest
      then Some (unat (fst (rest ! (j - Suc slot))), snd (rest ! (j - Suc slot)), unat (host_addr j))
      else slots v1 j)"
    using Cons.IH [OF rest] Cons.prems(2,3) by simp
  then show ?case
    by (cases "j = slot") (auto simp: s1 nth_Cons' Suc_diff_le)
qed

end

text \<open>
  C10. When \<open>setup_memory_region\<close> succeeds, KVM translates every guest physical address of region
  \<open>i\<close> through slot \<open>i\<close> to the byte at the same offset of that region's host mapping.
\<close>

theorem setup_memory_region_translates:
  assumes "kvm_vm K slots"
    and "setup_memory_region G K self vm_fd = (Ok (), vm_fd')"
    and "i < length (mem_iter G (memory self))" and "length (mem_iter G (memory self)) \<le> 2 ^ 32"
    and "list_all (\<lambda>(start, len). len < 2 ^ 64) (mem_iter G (memory self))"
    and "off < snd (mem_iter G (memory self) ! i)"
  shows "slot_translate (slots vm_fd') i (unat (fst (mem_iter G (memory self) ! i)) + off) =
    Some (unat (region_as_ptr G (memory self) i) + off)"
proof -
  have "slots vm_fd' i = Some (unat (fst (mem_iter G (memory self) ! i)), snd (mem_iter G (memory self) ! i),
      unat (region_as_ptr G (memory self) i))"
    using kvm_vm.register_slots_ok [OF assms(1), of "region_as_ptr G (memory self)" 0] assms(2-5)
    by (simp add: setup_memory_region_def)
  with assms(6) show ?thesis
    by (simp add: slot_translate_def)
qed

text \<open>The memory that \<open>GuestMemoryRegions::new\<close> allocates on the reference platform.\<close>

definition flat_ram :: flat_mem where
  "flat_ram = \<lparr>fm_regions = [(0, 134217728)], fm_byte = (\<lambda>_. 0)\<rparr>"

lemma flat_ram_new: "GuestMemoryRegions_new flat_ops = Ok \<lparr>memory = flat_ram, low_mem_size = MEMORY_SIZE\<rparr>"
proof -
  have "guest_low_mem_size MEMORY_SIZE = MEMORY_SIZE"
    by (simp add: guest_low_mem_size_def MEMORY_SIZE_def KVM_32BIT_GAP_START_def)
  then show ?thesis
    by (simp add: GuestMemoryRegions_new_def guest_ranges_MEMORY_SIZE flat_ops_def flat_from_ranges_def flat_ram_def)
qed

lemma flat_ram_invar [simp]: "flat_invar flat_ram"
  by (simp add: flat_invar_def flat_ram_def)

lemma flat_ram_iter [simp]: "mem_iter flat_ops flat_ram = [(0, 134217728)]"
  by (simp add: flat_ops_def flat_ram_def)

lemma flat_ram_mapped: "a + k \<le> 134217728 \<Longrightarrow> mapped (flat_view flat_ram) a k"
  by (rule flat_mapped_single [of _ 0 134217728]) (simp_all add: flat_ram_def)

theorem setup_memory_region_translates_witness:
  "\<exists>v. setup_memory_region flat_ops flat_kvm \<lparr>memory = flat_ram, low_mem_size = MEMORY_SIZE\<rparr> [] = (Ok (), v) \<and>
     slot_translate (flat_slot v) 0 0x100000 = Some 0x100000"
proof -
  let ?r = "\<lparr>memory = flat_ram, low_mem_size = MEMORY_SIZE\<rparr>"
  obtain v where v: "setup_memory_region flat_ops flat_kvm ?r [] = (Ok (), v)"
    by (simp add: setup_memory_region_def flat_set_region_def)
  have "slot_translate (flat_slot v) 0 (unat (fst (mem_iter flat_ops (memory ?r) ! 0)) + 0x100000) =
      Some (unat (region_as_ptr flat_ops (memory ?r) 0) + 0x100000)"
    by (rule setup_memory_region_translates [OF fv.kvm_vm_axioms v]) simp_all
  with v show ?thesis
    by (simp add: flat_ops_def flat_ram_def)
qed

end
