(* ===== verification/Hv_Host.thy ===== *)
theory Hv_Host
  imports Hv_Error
begin

text \<open>
  What the hypervisor uses of the Rust standard library for input and output: the writer behind
  \<open>stdout\<close>, the regular file behind a disk image, and the datagram socket behind the network device.  Every system call may fail; which ones do is
  decided by a script in the state: the head of the list of faults is the fate of the next call,
  \<open>None\<close> for a call without fault and \<open>Some k\<close> for one that fails after \<open>k\<close> bytes.  An empty
  script means no further faults.  Locks come with their poison flag.
\<close>

section \<open>Writers\<close>

record writer =
  written :: "u8 list"
  wr_faults :: "nat option list"

definition os_error :: io_error where
  "os_error = IoErr (KindNo 0) ''os error''"

definition next_fault :: "nat option list \<Rightarrow> nat option" where
  "next_fault fs = (case fs of [] \<Rightarrow> None | x # _ \<Rightarrow> x)"

definition writer_write_all :: "writer \<Rightarrow> u8 list \<Rightarrow> io_error option \<times> writer" where
  "writer_write_all w bs =
     (if bs = [] then (None, w)
      else case next_fault (wr_faults w) of
        None \<Rightarrow> (None, w\<lparr>written := written w @ bs, wr_faults := tl (wr_faults w)\<rparr>)
      | Some k \<Rightarrow> (Some os_error, w\<lparr>written := written w @ take k bs, wr_faults := tl (wr_faults w)\<rparr>))"

definition writer_flush :: "writer \<Rightarrow> io_error option \<times> writer" where
  "writer_flush w =
     (case next_fault (wr_faults w) of
        None \<Rightarrow> (None, w\<lparr>wr_faults := tl (wr_faults w)\<rparr>)
      | Some k \<Rightarrow> (Some os_error, w\<lparr>wr_faults := tl (wr_faults w)\<rparr>))"

section \<open>Files\<close>

record host_file =
  contents :: "u8 list"
  file_pos :: nat
  writable :: bool
  io_faults :: "nat option list"

text \<open>\<open>seek(SeekFrom::Start(offset))\<close>: the kernel takes a signed offset.\<close>

definition file_seek :: "host_file \<Rightarrow> u64 \<Rightarrow> io_error option \<times> host_file" where
  "file_seek f offset =
     (if 2 ^ 63 \<le> unat offset then (Some (IoErr InvalidInput ''Invalid argument''), f)
      else (None, f\<lparr>file_pos := unat offset\<rparr>))"

text \<open>\<open>read_exact\<close> fills the buffer from the position on; at the end of the file it fails, with
  the bytes that were left in the front of the buffer.\<close>

definition file_read_exact :: "host_file \<Rightarrow> u8 list \<Rightarrow> io_error option \<times> u8 list \<times> host_file" where
  "file_read_exact f buf =
     (let avail = take (length buf) (drop (file_pos f) (contents f)) in
      if buf = [] then (None, buf, f)
      else case next_fault (io_faults f) of
        None \<Rightarrow>
          (if length avail = length buf then None else Some (IoErr UnexpectedEof ''failed to fill whole buffer''),
           avail @ drop (length avail) buf,
           f\<lparr>file_pos := file_pos f + length avail, io_faults := tl (io_faults f)\<rparr>)
      | Some k \<Rightarrow>
          (Some os_error, take k avail @ drop (length (take k avail)) buf,
           f\<lparr>file_pos := file_pos f + length (take k avail), io_faults := tl (io_faults f)\<rparr>))"

definition overwrite_at :: "u8 list \<Rightarrow> nat \<Rightarrow> u8 list \<Rightarrow> u8 list" where
  "overwrite_at cs p bs =
     (if bs = [] then cs else take p cs @ replicate (p - length cs) 0 @ bs @ drop (p + length bs) cs)"

definition file_write_all :: "host_file \<Rightarrow> u8 list \<Rightarrow> io_error option \<times> host_file" where
  "file_write_all f bs =
     (if bs = [] then (None, f)
      else if \<not> writable f then (Some (IoErr (KindNo 9) ''Bad file descriptor''), f)
      else case next_fault (io_faults f) of
        None \<Rightarrow> (None, f\<lparr>contents := overwrite_at (contents f) (file_pos f) bs,
                        file_pos := file_pos f + length bs, io_faults := tl (io_faults f)\<rparr>)
      | Some k \<Rightarrow> (Some os_error, f\<lparr>contents := overwrite_at (contents f) (file_pos f) (take k bs),
                        file_pos := file_pos f + length (take k bs), io_faults := tl (io_faults f)\<rparr>))"

text \<open>\<open>flush\<close> of a \<open>File\<close> does nothing.\<close>

definition file_flush :: "host_file \<Rightarrow> io_error option \<times> host_file" where
  "file_flush f = (None, f)"

text \<open>
  Opening a disk image: the host file system gives the file at a path or refuses.  \<open>metadata\<close> of an
  open file is a system call as well.
\<close>

type_synonym host_disks = "string \<Rightarrow> io_error + host_file"

definition file_open :: "host_disks \<Rightarrow> string \<Rightarrow> bool \<Rightarrow> io_error + host_file" where
  "file_open disks path for_writing =
     (case disks path of Inl e \<Rightarrow> Inl e | Inr f \<Rightarrow> Inr (f\<lparr>file_pos := 0, writable := for_writing\<rparr>))"

definition file_len :: "host_file \<Rightarrow> (io_error + u64) \<times> host_file" where
  "file_len f =
     (case next_fault (io_faults f) of
        None \<Rightarrow> (Inr (word_of_nat (length (contents f))), f\<lparr>io_faults := tl (io_faults f)\<rparr>)
      | Some k \<Rightarrow> (Inl os_error, f\<lparr>io_faults := tl (io_faults f)\<rparr>))"

section \<open>Datagram sockets\<close>

text \<open>
  A bound \<open>UdpSocket\<close>: the datagrams and errors that the next receives will give, what has been
  sent to whom, and the faults of the next calls that send or configure.  A receive with nothing to
  give blocks, which is \<open>None\<close>, unless the socket is in non-blocking mode.
\<close>

type_synonym sock_addr = string

record udp_socket =
  sock_nonblocking :: bool
  sock_inbox :: "(io_error + u8 list) list"
  sock_sent :: "(sock_addr \<times> u8 list) list"
  sock_faults :: "nat option list"

definition udp_set_nonblocking :: "udp_socket \<Rightarrow> bool \<Rightarrow> io_error option \<times> udp_socket" where
  "udp_set_nonblocking s b =
     (case next_fault (sock_faults s) of
        None \<Rightarrow> (None, s\<lparr>sock_nonblocking := b, sock_faults := tl (sock_faults s)\<rparr>)
      | Some k \<Rightarrow> (Some os_error, s\<lparr>sock_faults := tl (sock_faults s)\<rparr>))"

text \<open>\<open>recv_from\<close> into a buffer of the given length; the rest of a longer datagram is lost.\<close>

definition udp_recv_from :: "udp_socket \<Rightarrow> nat \<Rightarrow> ((io_error + u8 list) \<times> udp_socket) option" where
  "udp_recv_from s len =
     (case sock_inbox s of
        [] \<Rightarrow> if sock_nonblocking s then Some (Inl (IoErr WouldBlock ''Resource temporarily unavailable''), s) else None
      | Inl e # rest \<Rightarrow> Some (Inl e, s\<lparr>sock_inbox := rest\<rparr>)
      | Inr d # rest \<Rightarrow> Some (Inr (take len d), s\<lparr>sock_inbox := rest\<rparr>))"

definition udp_send_to :: "udp_socket \<Rightarrow> u8 list \<Rightarrow> sock_addr \<Rightarrow> io_error option \<times> udp_socket" where
  "udp_send_to s d peer =
     (case next_fault (sock_faults s) of
        None \<Rightarrow> (None, s\<lparr>sock_sent := sock_sent s @ [(peer, d)], sock_faults := tl (sock_faults s)\<rparr>)
      | Some k \<Rightarrow> (Some os_error, s\<lparr>sock_faults := tl (sock_faults s)\<rparr>))"

section \<open>Locks\<close>

text \<open>
  A \<open>Mutex\<close> with its poison flag.  \<open>lock().unwrap()\<close> panics when the flag is set; a panic while the
  guard is alive sets it.
\<close>

record 'a mutex =
  mx_data :: 'a
  mx_poisoned :: bool

definition mutex_new :: "'a \<Rightarrow> 'a mutex" where
  "mutex_new x = \<lparr>mx_data = x, mx_poisoned = False\<rparr>"

text \<open>The lock after its guard is dropped, with the outcome of the code that ran under it.\<close>

definition mutex_release :: "('e, 'r) outcome \<Rightarrow> 'a \<Rightarrow> 'a mutex" where
  "mutex_release r x = \<lparr>mx_data = x, mx_poisoned = (case r of Panic \<Rightarrow> True | _ \<Rightarrow> False)\<rparr>"

section \<open>Lemmas\<close>

lemma next_fault_simps [simp]: "next_fault [] = None" "next_fault (x # fs) = x"
  by (simp_all add: next_fault_def)

lemma writer_write_all_quiet:
  "wr_faults w = [] \<Longrightarrow> writer_write_all w bs = (None, w\<lparr>written := written w @ bs\<rparr>)"
  by (simp add: writer_write_all_def)

lemma writer_write_all_prefix: "\<exists>k. written (snd (writer_write_all w bs)) = written w @ take k bs"
proof (cases "bs = []")
  case True
  then show ?thesis by (simp add: writer_write_all_def)
next
  case False
  then show ?thesis
    by (cases "next_fault (wr_faults w)") (auto simp: writer_write_all_def intro: exI [of _ "length bs"])
qed

lemma file_seek_contents [simp]:
  "contents (snd (file_seek f off)) = contents f" "writable (snd (file_seek f off)) = writable f"
  "io_faults (snd (file_seek f off)) = io_faults f"
  by (simp_all add: file_seek_def)

lemma file_read_exact_contents [simp]:
  "contents (snd (snd (file_read_exact f buf))) = contents f"
  "writable (snd (snd (file_read_exact f buf))) = writable f"
  by (simp_all add: file_read_exact_def Let_def split: option.splits)

lemma file_read_exact_length [simp]: "length (fst (snd (file_read_exact f buf))) = length buf"
  by (auto simp: file_read_exact_def Let_def split: option.splits)

lemma file_flush_contents [simp]: "contents (snd (file_flush f)) = contents f"
  by (simp add: file_flush_def)

lemma overwrite_at_within:
  assumes "p + length bs \<le> length cs"
  shows "overwrite_at cs p bs = splice cs p bs"
  using assms by (simp add: overwrite_at_def splice_def)

lemma overwrite_at_read_back: "take (length bs) (drop p (overwrite_at cs p bs)) = bs"
  by (simp add: overwrite_at_def)

lemma overwrite_at_nth_other:
  assumes "x < p \<or> p + length bs \<le> x" and "x < length cs"
  shows "overwrite_at cs p bs ! x = cs ! x"
  using assms by (auto simp: overwrite_at_def nth_append)

lemma mutex_release_simps [simp]:
  "mx_data (mutex_release r x) = x"
  "mx_poisoned (mutex_release (Ok a) x) = False" "mx_poisoned (mutex_release (Err e) x) = False"
  "mx_poisoned (mutex_release Panic x) = True"
  by (simp_all add: mutex_release_def)

lemma mutex_release_poisoned: "mx_poisoned (mutex_release r x) \<longleftrightarrow> r = Panic"
  by (cases r) simp_all

lemma mutex_new_simps [simp]: "mx_data (mutex_new x) = x" "\<not> mx_poisoned (mutex_new x)"
  by (simp_all add: mutex_new_def)

end
