(* ===== verification/Hv_Vcpu.thy ===== *)
theory Hv_Vcpu
  imports Hv_Kvm Hv_Host
begin

text \<open>
  Virtual CPUs (\<open>src/vcpu.rs\<close>): the register state that \<open>Vcpu::init\<close> gives a vCPU before the kernel
  is entered, the model-specific registers, and the handling of one exit by \<open>Vcpu::run\<close>.  A vCPU
  descriptor is threaded through the ioctls; \<open>run\<close> also threads the writer behind \<open>stdout\<close>, to
  which the serial port is connected.
\<close>

record 'f Vcpu =
  vcpu_fd :: 'f
  vcpu_id :: u64

definition Vcpu_new :: "'f \<Rightarrow> u64 \<Rightarrow> 'f Vcpu Result" where
  "Vcpu_new fd i = Ok \<lparr>vcpu_fd = fd, vcpu_id = i\<rparr>"

section \<open>Initial register state\<close>

definition init_regs :: "kvm_regs \<Rightarrow> u64 \<Rightarrow> u64 \<Rightarrow> kvm_regs" where
  "init_regs regs entry_point boot_params =
     regs\<lparr>rflags := 0x2, rip := entry_point, rsi := boot_params, rsp := 0x80000, rbp := 0x80000\<rparr>"

definition init_code_segment :: "kvm_segment \<Rightarrow> kvm_segment" where
  "init_code_segment seg =
     seg\<lparr>seg_selector := 0x8, seg_base := 0, seg_limit := 0xFFFFFFFF, seg_type := 0xB, seg_present := 1,
         seg_dpl := 0, seg_db := 1, seg_s := 1, seg_l := 0, seg_g := 1, seg_avl := 0\<rparr>"

definition init_data_segment :: "kvm_segment \<Rightarrow> kvm_segment" where
  "init_data_segment code = code\<lparr>seg_selector := 0x10, seg_type := 3, seg_limit := 0xFFFFFFFF\<rparr>"

definition init_task_register :: "kvm_segment \<Rightarrow> kvm_segment" where
  "init_task_register seg =
     seg\<lparr>seg_base := 0, seg_limit := 0xFFFF, seg_selector := 0x18, seg_type := 11, seg_present := 1,
         seg_dpl := 0, seg_db := 0, seg_s := 0, seg_l := 0, seg_g := 0, seg_avl := 0\<rparr>"

definition init_sregs :: "kvm_sregs \<Rightarrow> kvm_sregs" where
  "init_sregs sregs =
     (let code = init_code_segment (sr_cs sregs); data_seg = init_data_segment code in
      sregs\<lparr>sr_cs := code, sr_ds := data_seg, sr_es := data_seg, sr_fs := data_seg, sr_gs := data_seg,
            sr_ss := data_seg, sr_cr3 := 0x0, sr_cr4 := 0x0, sr_cr0 := 0x11,
            sr_tr := init_task_register (sr_tr sregs),
            sr_gdt := (sr_gdt sregs)\<lparr>dt_base := 0x1000, dt_limit := 0xFFFF\<rparr>,
            sr_idt := (sr_idt sregs)\<lparr>dt_base := 0x2000, dt_limit := 0xFFFF\<rparr>\<rparr>)"

definition init_fpu :: "kvm_fpu \<Rightarrow> kvm_fpu" where
  "init_fpu fpu = fpu\<lparr>fpu_fcw := 0x37f, fpu_mxcsr := 0x1f80\<rparr>"

definition msr_entry :: "u32 \<Rightarrow> u64 \<Rightarrow> kvm_msr_entry" where
  "msr_entry index data = \<lparr>msr_index = index, msr_reserved = 0, msr_data = data\<rparr>"

definition init_msr_entries :: "kvm_msr_entry list" where
  "init_msr_entries =
     [msr_entry 0xc0000080 0x1,
      msr_entry 0xc0000081 0x0013000800000000,
      msr_entry 0xc0000082 0x1000,
      msr_entry 0xc0000083 0x0,
      msr_entry 0xc0000084 0x0]"

definition setup_msrs :: "('k, 'v, 'f, 'c) kvm_ops \<Rightarrow> 'f \<Rightarrow> unit Result \<times> 'f" where
  "setup_msrs K fd =
     (case msrs_from_entries K init_msr_entries of
        Inl e \<Rightarrow> (Err (GenericError (''MSR error: '' @ e)), fd)
      | Inr msrs \<Rightarrow>
          (case set_msrs K fd msrs of
             (Inl n, fd) \<Rightarrow> (Err (KvmError n), fd)
           | (Inr _, fd) \<Rightarrow> (Ok (), fd)))"

definition Vcpu_init :: "('k, 'v, 'f, 'c) kvm_ops \<Rightarrow> 'f \<Rightarrow> u64 \<Rightarrow> u64 \<Rightarrow> unit Result \<times> 'f" where
  "Vcpu_init K fd entry_point boot_params =
     and_then (ioctl_get (get_regs K fd) fd) (\<lambda>regs fd.
     and_then (ioctl_set (set_regs K fd (init_regs regs entry_point boot_params))) (\<lambda>_ fd.
     and_then (ioctl_get (get_sregs K fd) fd) (\<lambda>sregs fd.
     and_then (ioctl_set (set_sregs K fd (init_sregs sregs))) (\<lambda>_ fd.
     and_then (ioctl_get (get_fpu K fd) fd) (\<lambda>fpu fd.
     and_then (ioctl_set (set_fpu K fd (init_fpu fpu))) (\<lambda>_ fd.
     setup_msrs K fd))))))"

section \<open>Running\<close>

definition COM1 :: u16 where
  "COM1 = 0x3F8"

definition zero_first_byte :: "u8 list \<Rightarrow> u8 list" where
  "zero_first_byte data = (case data of [] \<Rightarrow> [] | _ # rest \<Rightarrow> 0 # rest)"

definition serial_out :: "writer \<Rightarrow> u8 list \<Rightarrow> unit Result \<times> writer" where
  "serial_out stdout data =
     (case writer_write_all stdout data of
        (Some e, stdout) \<Rightarrow> (Panic, stdout)
      | (None, stdout) \<Rightarrow>
          (case writer_flush stdout of
             (Some e, stdout) \<Rightarrow> (Panic, stdout)
           | (None, stdout) \<Rightarrow> (Ok (), stdout)))"

definition Vcpu_run :: "('k, 'v, 'f, 'c) kvm_ops \<Rightarrow> 'f \<Rightarrow> writer \<Rightarrow> VcpuExit Result \<times> 'f \<times> writer" where
  "Vcpu_run K fd stdout =
     (case vcpu_fd_run K fd of
        (Inl n, fd) \<Rightarrow> (Err (KvmError n), fd, stdout)
      | (Inr (IoIn addr data), fd) \<Rightarrow>
          (Ok (IoIn addr (zero_first_byte data)), put_run_data K fd (zero_first_byte data), stdout)
      | (Inr (IoOut addr data), fd) \<Rightarrow>
          (if addr = COM1
           then and_then (case serial_out stdout data of (r, stdout) \<Rightarrow> (r, fd, stdout))
                  (\<lambda>_ s. (Ok (IoOut addr data), s))
           else (Ok (IoOut addr data), fd, stdout))
      | (Inr exit_reason, fd) \<Rightarrow>
          (case get_regs K fd of
             Inl n \<Rightarrow> (Err (KvmError n), fd, stdout)
           | Inr regs \<Rightarrow> (Ok exit_reason, fd, stdout)))"

section \<open>The mode a vCPU starts in\<close>

text \<open>
  Flat 32-bit protected mode without paging: protection enabled and paging disabled, a ring-0 32-bit
  code segment and five ring-0 data segments, all present and each covering the whole 4 GiB.
\<close>

definition flat_code_segment :: "kvm_segment \<Rightarrow> bool" where
  "flat_code_segment seg = (seg_base seg = 0 \<and> seg_limit seg = 0xFFFFFFFF \<and> seg_present seg = 1 \<and> seg_dpl seg = 0 \<and>
     seg_s seg = 1 \<and> seg_db seg = 1 \<and> seg_l seg = 0 \<and> seg_g seg = 1 \<and> bit (seg_type seg) 3)"

definition flat_data_segment :: "kvm_segment \<Rightarrow> bool" where
  "flat_data_segment seg = (seg_base seg = 0 \<and> seg_limit seg = 0xFFFFFFFF \<and> seg_present seg = 1 \<and> seg_dpl seg = 0 \<and>
     seg_s seg = 1 \<and> seg_db seg = 1 \<and> seg_g seg = 1 \<and> \<not> bit (seg_type seg) 3 \<and> bit (seg_type seg) 1)"

definition protected_mode :: "kvm_sregs \<Rightarrow> bool" where
  "protected_mode sr = (bit (sr_cr0 sr) 0 \<and> \<not> bit (sr_cr0 sr) 31 \<and> flat_code_segment (sr_cs sr) \<and>
     list_all flat_data_segment [sr_ds sr, sr_es sr, sr_fs sr, sr_gs sr, sr_ss sr])"

lemma bit_numerals:
  "bit (0x11 :: u64) 0" "\<not> bit (0x11 :: u64) 31" "bit (0xB :: u8) 3" "\<not> bit (3 :: u8) 3" "bit (3 :: u8) 1"
  "bit (2 :: u64) 1" "\<not> bit (0x10 :: u64) 0" "\<not> bit (0x10 :: u64) 31"
  by (simp_all add: bit_iff_odd)

lemma init_sregs_protected: "protected_mode ((init_sregs sr)\<lparr>sr_efer := e\<rparr>)"
  by (simp add: protected_mode_def init_sregs_def flat_code_segment_def flat_data_segment_def
      init_code_segment_def init_data_segment_def Let_def bit_numerals)

lemma setup_msrs_Ok:
  "setup_msrs K fd = (Ok u, fd') \<longleftrightarrow>
   (\<exists>msrs n. msrs_from_entries K init_msr_entries = Inr msrs \<and> set_msrs K fd msrs = (Inr n, fd'))"
  by (auto simp: setup_msrs_def split: sum.splits prod.splits)

lemma init_regs_rflags: "bit (rflags (init_regs r e b)) 1"
  by (simp add: init_regs_def bit_numerals)

context kvm_vcpu
begin

lemma Vcpu_init_state:
  assumes "Vcpu_init K fd entry boot = (Ok (), fd')"
  shows "cpu_regs fd' = init_regs (cpu_regs fd) entry boot \<and> cpu_fpu fd' = init_fpu (cpu_fpu fd) \<and>
    (\<exists>e. cpu_sregs fd' = (init_sregs (cpu_sregs fd))\<lparr>sr_efer := e\<rparr>)"
proof -
  obtain r f1 sr f2 fp f3 ms n where
    "get_regs K fd = Inr r" "set_regs K fd (init_regs r entry boot) = (None, f1)"
    "get_sregs K f1 = Inr sr" "set_sregs K f1 (init_sregs sr) = (None, f2)"
    "get_fpu K f2 = Inr fp" "set_fpu K f2 (init_fpu fp) = (None, f3)" "set_msrs K f3 ms = (Inr n, fd')"
    using assms unfolding Vcpu_init_def
    by (auto elim!: and_then_OkE simp: ioctl_get_Ok ioctl_set_Ok setup_msrs_Ok)
  note steps = get_regs_law [OF this(1)] set_regs_law [OF this(2) init_regs_rflags]
    get_sregs_law [OF this(3)] set_sregs_law [OF this(4)] get_fpu_law [OF this(5)]
    set_fpu_law [OF this(6)] set_msrs_law [OF this(7)]
  then show ?thesis by metis
qed

end

lemma and_then_Panic:
  "fst (and_then r f) = Panic \<Longrightarrow> fst r \<noteq> Panic \<Longrightarrow> (\<exists>a s. r = (Ok a, s) \<and> fst (f a s) = Panic)"
  by (cases r; cases "fst r") (auto simp: and_then_def)





text \<open>
  For a port read \<open>Vcpu::run\<close> clears the first byte of the answer only: a guest that reads two
  or four bytes from a port gets whatever the rest of the shared buffer held.
\<close>

theorem Vcpu_run_io_in:
  assumes "vcpu_fd_run K fd = (Inr (IoIn addr (b # rest)), fd')"
  shows "Vcpu_run K fd stdout = (Ok (IoIn addr (0 # rest)), put_run_data K fd' (0 # rest), stdout)"
  using assms by (simp add: Vcpu_run_def zero_first_byte_def)

theorem Vcpu_run_io_in_witness:
  "fst (Vcpu_run flat_kvm (reset_cpu\<lparr>fc_exits := [IoIn 0x1F0 [0xAA, 0xBB]]\<rparr>) \<lparr>written = [], wr_faults = []\<rparr>) =
     Ok (IoIn 0x1F0 [0, 0xBB])"
proof -
  have "vcpu_fd_run flat_kvm (reset_cpu\<lparr>fc_exits := [IoIn 0x1F0 [0xAA, 0xBB]]\<rparr>) = (Inr (IoIn 0x1F0 [0xAA, 0xBB]), reset_cpu)"
    by (simp add: flat_run_def reset_cpu_def)
  from Vcpu_run_io_in [OF this] show ?thesis by simp
qed

end
