(* ===== verification/Hv_Bootloader.thy ===== *)
theory Hv_Bootloader
  imports Hv_Memory Hv_Vcpu
begin

text \<open>
  The real-mode boot path (\<open>src/bootloader.rs\<close>): the boot sector at \<open>0x7C00\<close>, the minimal BIOS
  behind the interrupt vectors, and the register state for real mode.  The host file system is a
  function from paths to the result of opening and reading the file.
\<close>

type_synonym host_fs = "string \<Rightarrow> io_error + u8 list"

definition bios_addr :: u32 where
  "bios_addr = 0x1000"

definition int10_handler :: "u8 list" where
  "int10_handler = [0xBA, 0xF8, 0x03, 0xEE, 0xCF]"

definition ivt_entry :: "u32 \<Rightarrow> u8 list" where
  "ivt_entry target = [ucast (target AND 0xFF), ucast (drop_bit 8 target AND 0xFF), 0x00, 0x00]"

definition dummy_iret :: "u8 list" where
  "dummy_iret = [0xCF]"

fun install_dummy_vectors :: "('m, 'z) gmem_ops_scheme \<Rightarrow> nat list \<Rightarrow> 'm \<Rightarrow> unit Result \<times> 'm" where
  "install_dummy_vectors G [] m = (Ok (), m)"
| "install_dummy_vectors G (i # is) m =
     and_then (write_slice_or G (\<lambda>_. MemoryError ''Failed to write dummy IVT entry'') m
                 (ivt_entry (bios_addr + 0x10)) (word_of_nat i * 4))
       (\<lambda>_ m. install_dummy_vectors G is m)"

definition install_minimal_bios :: "('m, 'z) gmem_ops_scheme \<Rightarrow> 'm \<Rightarrow> unit Result \<times> 'm" where
  "install_minimal_bios G m =
     and_then (write_slice_or G (\<lambda>_. MemoryError ''Failed to write INT 0x10 handler'') m int10_handler (ucast bios_addr)) (\<lambda>_ m.
     and_then (write_slice_or G (\<lambda>_. MemoryError ''Failed to write IVT entry 0x10'') m (ivt_entry bios_addr) 0x40) (\<lambda>_ m.
     and_then (write_slice_or G (\<lambda>_. MemoryError ''Failed to write dummy iret'') m dummy_iret (ucast bios_addr + 0x10)) (\<lambda>_ m.
     install_dummy_vectors G [0x13, 0x15, 0x16] m)))"

definition load_bootloader :: "('m, 'z) gmem_ops_scheme \<Rightarrow> host_fs \<Rightarrow> string \<Rightarrow> 'm \<Rightarrow> unit Result \<times> 'm" where
  "load_bootloader G fs boot_path m =
     (case fs boot_path of
        Inl e \<Rightarrow> (Err (IoError e), m)
      | Inr buffer \<Rightarrow>
          and_then (write_slice_or G (\<lambda>e. MemoryError (''Failed to write bootloader: '' @ e)) m buffer 0x7c00)
            (\<lambda>_ m. install_minimal_bios G m))"

definition real_mode_code_segment :: "kvm_segment \<Rightarrow> kvm_segment" where
  "real_mode_code_segment seg =
     seg\<lparr>seg_selector := 0, seg_base := 0, seg_limit := 0xFFFF, seg_type := 11, seg_present := 1, seg_dpl := 0,
         seg_db := 0, seg_s := 1, seg_l := 0, seg_g := 0, seg_avl := 0\<rparr>"

definition real_mode_sregs :: "kvm_sregs \<Rightarrow> kvm_sregs" where
  "real_mode_sregs sregs =
     (let code = real_mode_code_segment (sr_cs sregs); data_seg = code\<lparr>seg_type := 3\<rparr> in
      sregs\<lparr>sr_cs := code, sr_ds := data_seg, sr_es := data_seg, sr_fs := data_seg, sr_gs := data_seg,
            sr_ss := data_seg, sr_cr0 := 0x10, sr_cr3 := 0, sr_cr4 := 0, sr_efer := 0,
            sr_idt := (sr_idt sregs)\<lparr>dt_base := 0, dt_limit := 0x3FF\<rparr>,
            sr_gdt := (sr_gdt sregs)\<lparr>dt_base := 0, dt_limit := 0xFFFF\<rparr>\<rparr>)"

definition init_vcpu_for_real_mode :: "('k, 'v, 'f, 'c) kvm_ops \<Rightarrow> 'f \<Rightarrow> unit Result \<times> 'f" where
  "init_vcpu_for_real_mode K fd =
     and_then (ioctl_get (get_sregs K fd) fd) (\<lambda>sregs fd.
     and_then (ioctl_set (set_sregs K fd (real_mode_sregs sregs))) (\<lambda>_ fd.
     and_then (ioctl_get (get_regs K fd) fd) (\<lambda>regs fd.
     ioctl_set (set_regs K fd (regs\<lparr>rflags := 0x2, rip := 0x7c00, rsp := 0x7c00, rbp := 0\<rparr>)))))"

text \<open>The far pointer that real-mode interrupt \<open>v\<close> is dispatched through: offset and segment.\<close>

definition ivt_target :: "bytemap \<Rightarrow> nat \<Rightarrow> nat \<times> nat" where
  "ivt_target f v = (le_nat (bytes_at f (4 * v) 2), le_nat (bytes_at f (4 * v + 2) 2))"

text \<open>Real mode at \<open>0000:7C00\<close>: protection off, every segment based at 0 with a 64 KiB limit, the
  vector table at 0.\<close>

definition real_mode_segment :: "kvm_segment \<Rightarrow> bool" where
  "real_mode_segment seg = (seg_selector seg = 0 \<and> seg_base seg = 0 \<and> seg_limit seg = 0xFFFF \<and> seg_present seg = 1 \<and>
     seg_s seg = 1 \<and> seg_db seg = 0 \<and> seg_l seg = 0 \<and> seg_g seg = 0)"

definition real_mode :: "kvm_sregs \<Rightarrow> bool" where
  "real_mode sr = (\<not> bit (sr_cr0 sr) 0 \<and> \<not> bit (sr_cr0 sr) 31 \<and> sr_efer sr = 0 \<and>
     list_all real_mode_segment [sr_cs sr, sr_ds sr, sr_es sr, sr_fs sr, sr_gs sr, sr_ss sr] \<and>
     dt_base (sr_idt sr) = 0 \<and> dt_limit (sr_idt sr) = 0x3FF)"

section \<open>The vector table\<close>

lemma real_mode_sregs_ok: "real_mode (real_mode_sregs sr)"
  by (simp add: real_mode_def real_mode_sregs_def real_mode_segment_def real_mode_code_segment_def Let_def bit_numerals)

lemma ivt_entry_bytes: "ivt_entry bios_addr = [0, 0x10, 0, 0]" "ivt_entry (bios_addr + 0x10) = [0x10, 0x10, 0, 0]"
  by (simp_all add: ivt_entry_def bios_addr_def)

lemma length_bios_bytes [simp]:
  "length (ivt_entry t) = 4" "length int10_handler = 5" "length dummy_iret = 1"
  "ivt_entry t \<noteq> []" "int10_handler \<noteq> []" "dummy_iret \<noteq> []"
  by (simp_all add: ivt_entry_def int10_handler_def dummy_iret_def)

context guest_memory
begin

lemma install_minimal_bios_view:
  assumes "invar m" and "install_minimal_bios G m = (Ok (), m')"
  shows "invar m' \<and> view m' = put_bytes (put_bytes (put_bytes (put_bytes (put_bytes (put_bytes (view m)
      0x1000 int10_handler) 0x40 (ivt_entry bios_addr)) 0x1010 dummy_iret)
      0x4C (ivt_entry (bios_addr + 0x10))) 0x54 (ivt_entry (bios_addr + 0x10))) 0x58 (ivt_entry (bios_addr + 0x10))"
proof -
  have a: "unat (ucast bios_addr :: u64) = 0x1000" "unat (ucast bios_addr + 0x10 :: u64) = 0x1010"
    by (simp_all add: bios_addr_def)
  have c: "(19 :: u64) * 4 = 0x4C" "(21 :: u64) * 4 = 0x54" "(22 :: u64) * 4 = 0x58"
    by simp_all
  obtain m1 m2 m3 m4 m5 where w:
    "write_slice_or G (\<lambda>_. MemoryError ''Failed to write INT 0x10 handler'') m int10_handler (ucast bios_addr) = (Ok (), m1)"
    "write_slice_or G (\<lambda>_. MemoryError ''Failed to write IVT entry 0x10'') m1 (ivt_entry bios_addr) 0x40 = (Ok (), m2)"
    "write_slice_or G (\<lambda>_. MemoryError ''Failed to write dummy iret'') m2 dummy_iret (ucast bios_addr + 0x10) = (Ok (), m3)"
    "write_slice_or G (\<lambda>_. MemoryError ''Failed to write dummy IVT entry'') m3 (ivt_entry (bios_addr + 0x10)) 0x4C = (Ok (), m4)"
    "write_slice_or G (\<lambda>_. MemoryError ''Failed to write dummy IVT entry'') m4 (ivt_entry (bios_addr + 0x10)) 0x54 = (Ok (), m5)"
    "write_slice_or G (\<lambda>_. MemoryError ''Failed to write dummy IVT entry'') m5 (ivt_entry (bios_addr + 0x10)) 0x58 = (Ok (), m')"
    using assms(2) unfolding install_minimal_bios_def install_dummy_vectors.simps of_nat_numeral c
    by (elim and_then_OkE) (simp only: prod.inject simp_thms outcome.inject unit_eq)
  note v1 = write_slice_or_Ok [OF assms(1) length_bios_bytes(5) w(1)]
  note v2 = write_slice_or_Ok [OF v1 [THEN conjunct2, THEN conjunct1] length_bios_bytes(4) w(2)]
  note v3 = write_slice_or_Ok [OF v2 [THEN conjunct2, THEN conjunct1] length_bios_bytes(6) w(3)]
  note v4 = write_slice_or_Ok [OF v3 [THEN conjunct2, THEN conjunct1] length_bios_bytes(4) w(4)]
  note v5 = write_slice_or_Ok [OF v4 [THEN conjunct2, THEN conjunct1] length_bios_bytes(4) w(5)]
  note v6 = write_slice_or_Ok [OF v5 [THEN conjunct2, THEN conjunct1] length_bios_bytes(4) w(6)]
  show ?thesis
    using v1 v2 v3 v4 v5 v6 by (simp add: a)
qed

lemma install_minimal_bios_total:
  assumes "invar m" and "mapped (view m) 0 0x1011"
  shows "\<exists>m'. install_minimal_bios G m = (Ok (), m')"
proof -
  have w: "\<exists>y. write_slice_or G h x bs a = (Ok (), y) \<and> invar y \<and> dom (view y) = dom (view m)"
    if "invar x" "dom (view x) = dom (view m)" "bs \<noteq> []" "unat a + length bs \<le> 0x1011" for x bs a h
    by (rule write_slice_or_total [OF that(1,3) assms(2) that(2), of a h]) (use that(4) in auto)
  obtain m1 where m1: "write_slice_or G (\<lambda>_. MemoryError ''Failed to write INT 0x10 handler'') m int10_handler (ucast bios_addr) = (Ok (), m1)"
    "invar m1" "dom (view m1) = dom (view m)"
    using w [of m int10_handler "ucast bios_addr" "\<lambda>_. MemoryError ''Failed to write INT 0x10 handler''"] assms(1) by (auto simp: bios_addr_def)
  obtain m2 where m2: "write_slice_or G (\<lambda>_. MemoryError ''Failed to write IVT entry 0x10'') m1 (ivt_entry bios_addr) 0x40 = (Ok (), m2)"
    "invar m2" "dom (view m2) = dom (view m)"
    using w [OF m1(2,3), of "ivt_entry bios_addr" "0x40" "\<lambda>_. MemoryError ''Failed to write IVT entry 0x10''"] by auto
  obtain m3 where m3: "write_slice_or G (\<lambda>_. MemoryError ''Failed to write dummy iret'') m2 dummy_iret (ucast bios_addr + 0x10) = (Ok (), m3)"
    "invar m3" "dom (view m3) = dom (view m)"
    using w [OF m2(2,3), of dummy_iret "ucast bios_addr + 0x10" "\<lambda>_. MemoryError ''Failed to write dummy iret''"] by (auto simp: bios_addr_def)
  have "\<exists>m'. install_dummy_vectors G is x = (Ok (), m')"
    if "invar x" "dom (view x) = dom (view m)" "list_all (\<lambda>i. i < 0x100) is" for x "is"
    using that
  proof (induction "is" arbitrary: x)
    case Nil
    then show ?case by simp
  next
    case (Cons i "is")
    have a: "unat (word_of_nat i * 4 :: u64) = i * 4"
      using Cons.prems(3) by (simp add: unat_word_ariths unat_of_nat)
    obtain y where "write_slice_or G (\<lambda>_. MemoryError ''Failed to write dummy IVT entry'') x (ivt_entry (bios_addr + 0x10)) (word_of_nat i * 4) = (Ok (), y)"
      "invar y" "dom (view y) = dom (view m)"
      using w [OF Cons.prems(1,2), of "ivt_entry (bios_addr + 0x10)" "word_of_nat i * 4"
          "\<lambda>_. MemoryError ''Failed to write dummy IVT entry''"] Cons.prems(3) by (auto simp: a)
    with Cons show ?case by simp
  qed
  from this [OF m3(2,3), of "[0x13, 0x15, 0x16]"] m1(1) m2(1) m3(1) show ?thesis
    by (simp add: install_minimal_bios_def)
qed

lemma load_bootloader_total:
  assumes "invar m" and "fs path = Inr buffer" and "buffer \<noteq> []"
    and "mapped (view m) 0 0x1011" and "mapped (view m) 0x7c00 (length buffer)"
  obtains m1 m' where "load_bootloader G fs path m = (Ok (), m')" and "invar m1"
    and "view m1 = put_bytes (view m) 0x7c00 buffer" and "install_minimal_bios G m1 = (Ok (), m')"
proof -
  obtain m1 where m1: "write_slice_or G (\<lambda>e. MemoryError (''Failed to write bootloader: '' @ e)) m buffer 0x7c00 = (Ok (), m1)"
    "invar m1" "view m1 = put_bytes (view m) 0x7c00 buffer" "dom (view m1) = dom (view m)"
    using write_slice_or_mapped [OF assms(1,3), of "0x7c00"] assms(5) by auto
  moreover obtain m' where "install_minimal_bios G m1 = (Ok (), m')"
    using install_minimal_bios_total [OF m1(2)] assms(4) mapped_cong [OF m1(4)] by auto
  ultimately show thesis
    using that assms(2) by (simp add: load_bootloader_def)
qed

end

lemma minimal_bios_vectors:
  assumes "g = put_bytes (put_bytes (put_bytes (put_bytes (put_bytes (put_bytes f
      0x1000 int10_handler) 0x40 (ivt_entry bios_addr)) 0x1010 dummy_iret)
      0x4C (ivt_entry (bios_addr + 0x10))) 0x54 (ivt_entry (bios_addr + 0x10))) 0x58 (ivt_entry (bios_addr + 0x10))"
  shows "ivt_target g 0x10 = (0x1000, 0)" and "ivt_target g 0x13 = (0x1010, 0)" and "ivt_target g 0x15 = (0x1010, 0)"
    and "ivt_target g 0x16 = (0x1010, 0)" and "bytes_at g 0x1000 5 = int10_handler" and "bytes_at g 0x1010 1 = dummy_iret"
    and "0x1011 \<le> a \<Longrightarrow> bytes_at g a n = bytes_at f a n"
  by (simp_all add: assms ivt_target_def byte_simps ivt_entry_bytes)

text \<open>
  C24. With RAM under the vector table and under the boot sector, \<open>load_bootloader\<close> succeeds: the boot
  sector lies at \<open>0x7C00\<close>, \<open>INT 10h\<close> is dispatched to the handler that writes \<open>AL\<close> to the serial
  port, and \<open>INT 13h\<close>, \<open>15h\<close> and \<open>16h\<close> to an \<open>IRET\<close>.
\<close>

theorem load_bootloader_correct:
  assumes "guest_memory G invar view" and "invar m" and "fs path = Inr buffer" and "buffer \<noteq> []"
    and "mapped (view m) 0 0x1011" and "mapped (view m) 0x7c00 (length buffer)"
  shows "\<exists>m'. load_bootloader G fs path m = (Ok (), m') \<and>
    bytes_at (view m') 0x7c00 (length buffer) = buffer \<and>
    ivt_target (view m') 0x10 = (0x1000, 0) \<and> bytes_at (view m') 0x1000 5 = [0xBA, 0xF8, 0x03, 0xEE, 0xCF] \<and>
    list_all (\<lambda>v. ivt_target (view m') v = (0x1010, 0)) [0x13, 0x15, 0x16] \<and>
    bytes_at (view m') 0x1010 1 = [0xCF]"
proof -
  obtain m1 m' where m1: "load_bootloader G fs path m = (Ok (), m')" "invar m1"
    "view m1 = put_bytes (view m) 0x7c00 buffer" "install_minimal_bios G m1 = (Ok (), m')"
    using guest_memory.load_bootloader_total [OF assms(1), of m fs path buffer] assms(2-6) by metis
  note v = minimal_bios_vectors [OF guest_memory.install_minimal_bios_view [OF assms(1) m1(2,4), THEN conjunct2]]
  show ?thesis
    using m1(1) v(1-6) v(7) [of "0x7c00" "length buffer"]
    by (simp add: m1(3) bytes_at_put_same int10_handler_def dummy_iret_def)
qed

theorem load_bootloader_correct_witness:
  "\<exists>m'. load_bootloader flat_ops (\<lambda>_. Inr [0xEB, 0xFE]) ''boot.bin'' flat_ram = (Ok (), m') \<and>
     bytes_at (flat_view m') 0x7c00 2 = [0xEB, 0xFE] \<and> ivt_target (flat_view m') 0x10 = (0x1000, 0)"
proof -
  have "mapped (flat_view flat_ram) 0 0x1011" "mapped (flat_view flat_ram) 0x7c00 (length [0xEB, 0xFE])"
    by (rule flat_ram_mapped, simp)+
  from load_bootloader_correct [OF fm.guest_memory_axioms flat_ram_invar _ _ this,
      of "\<lambda>_. Inr [0xEB, 0xFE]" "''boot.bin''"]
  show ?thesis by (auto simp: numeral_2_eq_2)
qed

context kvm_vcpu
begin

lemma real_mode_state:
  assumes "init_vcpu_for_real_mode K fd = (Ok (), fd')"
  shows "cpu_sregs fd' = real_mode_sregs (cpu_sregs fd) \<and>
    cpu_regs fd' = (cpu_regs fd)\<lparr>rflags := 2, rip := 0x7c00, rsp := 0x7c00, rbp := 0\<rparr> \<and> cpu_fpu fd' = cpu_fpu fd"
proof -
  obtain sr f1 r where
    "get_sregs K fd = Inr sr" "set_sregs K fd (real_mode_sregs sr) = (None, f1)" "get_regs K f1 = Inr r"
    "set_regs K f1 (r\<lparr>rflags := 2, rip := 0x7c00, rsp := 0x7c00, rbp := 0\<rparr>) = (None, fd')"
    using assms unfolding init_vcpu_for_real_mode_def
    by (auto elim!: and_then_OkE simp: ioctl_get_Ok ioctl_set_Ok)
  moreover have "bit (rflags (r\<lparr>rflags := 2, rip := 0x7c00, rsp := 0x7c00, rbp := 0\<rparr>)) 1"
    by (simp add: bit_numerals)
  ultimately show ?thesis
    using get_sregs_law set_sregs_law get_regs_law set_regs_law by metis
qed

end

text \<open>
  C25. A vCPU on which \<open>init_vcpu_for_real_mode\<close> succeeded is in real mode at \<open>0000:7C00\<close>, whatever
  mode it was in before (in particular after \<open>Vcpu::init\<close>), with the vector table at address 0.
\<close>

theorem init_vcpu_for_real_mode_correct:
  assumes "kvm_vcpu K cpu_regs cpu_sregs cpu_fpu" and "init_vcpu_for_real_mode K fd = (Ok (), fd')"
  shows "real_mode (cpu_sregs fd') \<and> rip (cpu_regs fd') = 0x7c00 \<and> rsp (cpu_regs fd') = 0x7c00 \<and>
    rflags (cpu_regs fd') = 2"
  using kvm_vcpu.real_mode_state [OF assms] by (simp add: real_mode_sregs_ok)

theorem init_vcpu_for_real_mode_correct_witness:
  "\<exists>fd'. init_vcpu_for_real_mode flat_kvm reset_cpu = (Ok (), fd') \<and> real_mode (fc_sregs fd')"
proof -
  obtain fd' where v: "init_vcpu_for_real_mode flat_kvm reset_cpu = (Ok (), fd')"
    by (simp add: init_vcpu_for_real_mode_def)
  with init_vcpu_for_real_mode_correct [OF fc.kvm_vcpu_axioms v] show ?thesis by simp
qed

end
