(* ===== verification/Hv_Kernel_Loader.thy ===== *)
theory Hv_Kernel_Loader
  imports Hv_Memory Hv_Bootloader
begin

text \<open>
  The kernel loader (\<open>src/kernel_loader.rs\<close>): the loadable segments of an ELF image, the page
  tables that map the first 4 GiB to themselves, the command line and the boot parameters.  Parsing
  the image is done by the crate \<open>goblin\<close>; its result on a buffer is the argument \<open>parse\<close>.
  \<open>info_enabled\<close> tells whether the log level evaluates the arguments of \<open>info!\<close>, one of which is a
  sum that can overflow.
\<close>

record program_header =
  p_type :: u32
  p_offset :: u64
  p_paddr :: u64
  p_filesz :: u64
  p_memsz :: u64

record elf_image =
  elf_entry :: u64
  program_headers :: "program_header list"

record KernelLoader =
  entry_point :: u64
  kl_cmdline :: string

definition KernelLoader_new :: KernelLoader where
  "KernelLoader_new = \<lparr>entry_point = 0, kl_cmdline = ''''\<rparr>"

definition PT_LOAD :: u32 where
  "PT_LOAD = 1"

section \<open>Segments\<close>

definition load_segment ::
  "profile \<Rightarrow> bool \<Rightarrow> ('m, 'z) gmem_ops_scheme \<Rightarrow> u8 list \<Rightarrow> program_header \<Rightarrow> 'm \<Rightarrow> unit Result \<times> 'm" where
  "load_segment p info_enabled G buffer phdr m =
     and_then (add_u64 p (p_offset phdr) (p_filesz phdr), m) (\<lambda>file_end m.
     if length buffer < unat file_end
     then (Err (MemoryError ''Invalid ELF segment: extends past end of file''), m)
     else and_then (slice_range buffer (unat (p_offset phdr)) (unat file_end), m) (\<lambda>bytes m.
     and_then (write_slice_or G
         (\<lambda>e. MemoryError (''Failed to write kernel segment at 0x'' @ hex_digits (unat (p_paddr phdr)) @ '': '' @ e))
         m bytes (p_paddr phdr)) (\<lambda>_ m.
     if info_enabled then and_then (add_u64 p (p_paddr phdr) (p_memsz phdr), m) (\<lambda>_ m. (Ok (), m))
     else (Ok (), m))))"

fun load_segments ::
  "profile \<Rightarrow> bool \<Rightarrow> ('m, 'z) gmem_ops_scheme \<Rightarrow> u8 list \<Rightarrow> program_header list \<Rightarrow> 'm \<Rightarrow> unit Result \<times> 'm" where
  "load_segments p info_enabled G buffer [] m = (Ok (), m)"
| "load_segments p info_enabled G buffer (phdr # rest) m =
     (if p_type phdr = PT_LOAD
      then and_then (load_segment p info_enabled G buffer phdr m)
             (\<lambda>_ m. load_segments p info_enabled G buffer rest m)
      else load_segments p info_enabled G buffer rest m)"

section \<open>Page tables\<close>

definition page_table_base :: u64 where
  "page_table_base = 0x9000"

definition pdpte_addr :: u64 where
  "pdpte_addr = page_table_base + 0x1000"

definition pde_addr :: u64 where
  "pde_addr = page_table_base + 0x2000"

definition pml4_entry :: u64 where
  "pml4_entry = pdpte_addr OR 0x3"

definition pdpte_entry :: "nat \<Rightarrow> u64" where
  "pdpte_entry i = (pde_addr + word_of_nat i * 0x1000) OR 0x3"

definition pde_entry :: "nat \<Rightarrow> u64" where
  "pde_entry i = (word_of_nat i * 0x200000) OR 0x83"

definition write_page_tables :: "('m, 'z) gmem_ops_scheme \<Rightarrow> 'm \<Rightarrow> unit Result \<times> 'm" where
  "write_page_tables G m =
     and_then (write_slice_or G (\<lambda>_. MemoryError ''Failed to zero page tables'') m (replicate 0x6000 0) page_table_base) (\<lambda>_ m.
     and_then (write_slice_or G (\<lambda>_. MemoryError ''PML4 write failed'') m (u64_to_le_bytes pml4_entry) page_table_base) (\<lambda>_ m.
     and_then (for_range 0 4 (\<lambda>i m. write_slice_or G (\<lambda>_. MemoryError ''PDPTE write failed'') m
                 (u64_to_le_bytes (pdpte_entry i)) (pdpte_addr + word_of_nat i * 8)) m) (\<lambda>_ m.
     for_range 0 2048 (\<lambda>i m. write_slice_or G (\<lambda>_. MemoryError ''PDE write failed'') m
                 (u64_to_le_bytes (pde_entry i)) (pde_addr + word_of_nat i * 8)) m)))"

section \<open>Boot parameters\<close>

definition cmdline_addr :: u64 where
  "cmdline_addr = 0x10000"

definition boot_params_addr :: u64 where
  "boot_params_addr = 0x7000"

definition kernel_boot_params :: "u8 list" where
  "kernel_boot_params =
     (let bp = (replicate 4096 0)[0x210 := 0xFF];
          bp = splice bp 0x228 (u32_to_le_bytes (ucast cmdline_addr));
          bp = bp[0x1e8 := 1];
          bp = splice bp 0x2d0 (u64_to_le_bytes 0);
          bp = splice bp 0x2d8 (u64_to_le_bytes 0x8000000)
      in splice bp 0x2e0 (u32_to_le_bytes 1))"

definition write_boot_params :: "('m, 'z) gmem_ops_scheme \<Rightarrow> string \<Rightarrow> 'm \<Rightarrow> unit Result \<times> 'm" where
  "write_boot_params G cmdline m =
     and_then (write_slice_or G (\<lambda>_. MemoryError ''Failed to write cmdline'') m (string_bytes cmdline @ [0]) cmdline_addr) (\<lambda>_ m.
     write_slice_or G (\<lambda>_. MemoryError ''Failed to write boot params'') m kernel_boot_params boot_params_addr)"

section \<open>Loading\<close>

definition load_kernel ::
  "profile \<Rightarrow> bool \<Rightarrow> ('m, 'z) gmem_ops_scheme \<Rightarrow> (u8 list \<Rightarrow> elf_image option) \<Rightarrow> host_fs \<Rightarrow> string \<Rightarrow> string \<Rightarrow>
   KernelLoader \<Rightarrow> 'm \<Rightarrow> unit Result \<times> KernelLoader \<times> 'm" where
  "load_kernel p info_enabled G parse fs kernel_path cmdline self m =
     (case fs kernel_path of
        Inl e \<Rightarrow> (Err (IoError e), self, m)
      | Inr buffer \<Rightarrow>
     (case parse buffer of
        None \<Rightarrow> (Err (MemoryError ''Invalid ELF format''), self, m)
      | Some elf \<Rightarrow>
     (case load_segments p info_enabled G buffer (program_headers elf) m of
        (Err e, m) \<Rightarrow> (Err e, self, m)
      | (Panic, m) \<Rightarrow> (Panic, self, m)
      | (Ok _, m) \<Rightarrow>
     (let self = self\<lparr>entry_point := elf_entry elf, kl_cmdline := cmdline\<rparr> in
      case and_then (write_page_tables G m) (\<lambda>_ m. write_boot_params G cmdline m) of
        (Err e, m) \<Rightarrow> (Err e, self, m)
      | (Panic, m) \<Rightarrow> (Panic, self, m)
      | (Ok _, m) \<Rightarrow>
          (case read_slice G m (replicate 16 0) (entry_point self) of
             (Some e, _) \<Rightarrow> (Panic, self, m)
           | (None, _) \<Rightarrow> (Ok (), self, m))))))"

definition get_entry_point :: "KernelLoader \<Rightarrow> u64" where
  "get_entry_point self = entry_point self"

definition get_cmdline :: "KernelLoader \<Rightarrow> string" where
  "get_cmdline self = kl_cmdline self"

section \<open>The specification of address translation\<close>

text \<open>
  Four-level translation as the processor does it in 64-bit mode: an entry is present when bit 0 is
  set, maps a large page when bit 7 is set at the second or third level, and holds a physical
  address in bits 12 to 51.
\<close>

definition read_u64 :: "bytemap \<Rightarrow> nat \<Rightarrow> nat" where
  "read_u64 f a = le_nat (bytes_at f a 8)"

definition entry_base :: "nat \<Rightarrow> nat \<Rightarrow> nat" where
  "entry_base e align = (e mod 2 ^ 52) div align * align"

definition page_walk :: "bytemap \<Rightarrow> nat \<Rightarrow> nat \<Rightarrow> nat option" where
  "page_walk f cr3 va =
     (let pml4e = read_u64 f (cr3 + 8 * (va div 2 ^ 39 mod 512)) in
      if even pml4e then None else
      let pdpte = read_u64 f (entry_base pml4e 4096 + 8 * (va div 2 ^ 30 mod 512)) in
      if even pdpte then None
      else if odd (pdpte div 128) then Some (entry_base pdpte (2 ^ 30) + va mod 2 ^ 30) else
      let pde = read_u64 f (entry_base pdpte 4096 + 8 * (va div 2 ^ 21 mod 512)) in
      if even pde then None
      else if odd (pde div 128) then Some (entry_base pde (2 ^ 21) + va mod 2 ^ 21) else
      let pte = read_u64 f (entry_base pde 4096 + 8 * (va div 2 ^ 12 mod 512)) in
      if even pte then None else Some (entry_base pte 4096 + va mod 2 ^ 12))"

text \<open>A segment that the loader can place: its bytes are in the file and its target is in RAM.\<close>

definition segment_ok :: "u8 list \<Rightarrow> bytemap \<Rightarrow> program_header \<Rightarrow> bool" where
  "segment_ok buffer f phdr =
     (p_type phdr \<noteq> PT_LOAD \<or>
      0 < unat (p_filesz phdr) \<and> unat (p_offset phdr) + unat (p_filesz phdr) \<le> length buffer \<and>
      length buffer < 2 ^ 64 \<and> unat (p_paddr phdr) + unat (p_memsz phdr) < 2 ^ 64 \<and>
      mapped f (unat (p_paddr phdr)) (unat (p_filesz phdr)))"

definition segment_bytes :: "u8 list \<Rightarrow> program_header \<Rightarrow> u8 list" where
  "segment_bytes buffer phdr = take (unat (p_filesz phdr)) (drop (unat (p_offset phdr)) buffer)"

section \<open>Page table entries\<close>

lemma or_low_bits: "take_bit k x = x \<Longrightarrow> push_bit k w OR x = push_bit k w + (x :: u64)"
proof -
  assume x: "take_bit k x = x"
  have "\<not> bit (push_bit k w) n \<or> \<not> bit x n" for n
    using arg_cong [OF x, of "\<lambda>y. bit y n"] by (auto simp: bit_push_bit_iff bit_take_bit_iff)
  then show ?thesis
    by (simp add: disjunctive_add)
qed

lemma table_addresses:
  "unat page_table_base = 0x9000" "unat pdpte_addr = 0xA000" "unat pde_addr = 0xB000"
  "unat cmdline_addr = 0x10000" "unat boot_params_addr = 0x7000"
  by (simp_all add: page_table_base_def pdpte_addr_def pde_addr_def cmdline_addr_def boot_params_addr_def)

lemma unat_pml4_entry: "unat pml4_entry = 0xA003"
  by (simp add: pml4_entry_def pdpte_addr_def page_table_base_def)

lemma unat_pdpte_entry: "i < 4 \<Longrightarrow> unat (pdpte_entry i) = 0xB003 + 0x1000 * i"
proof -
  assume "i < 4"
  then consider "i = 0" | "i = 1" | "i = 2" | "i = 3" by linarith
  then show ?thesis
    by cases (simp_all add: pdpte_entry_def pde_addr_def page_table_base_def)
qed

lemma unat_pde_entry:
  assumes "i < 2048"
  shows "unat (pde_entry i) = 0x200000 * i + 0x83"
proof -
  have "word_of_nat i * 0x200000 = push_bit 21 (word_of_nat i :: u64)"
    by (simp add: push_bit_eq_mult)
  then have "pde_entry i = push_bit 21 (word_of_nat i) + 0x83"
    by (simp add: pde_entry_def or_low_bits)
  also have "\<dots> = word_of_nat (0x200000 * i + 0x83)"
    by (simp add: push_bit_eq_mult)
  finally have e: "pde_entry i = word_of_nat (0x200000 * i + 0x83)" .
  show ?thesis
    unfolding e by (rule unat_word_of_nat_small(4)) (use assms in simp)
qed

lemma unat_table_slot:
  "i < 2048 \<Longrightarrow> unat (pdpte_addr + word_of_nat i * 8) = 0xA000 + 8 * i"
  "i < 2048 \<Longrightarrow> unat (pde_addr + word_of_nat i * 8) = 0xB000 + 8 * i"
  by (simp_all add: unat_word_ariths table_addresses unat_of_nat)

lemma read_u64_le_bytes: "bytes_at f a 8 = u64_to_le_bytes w \<Longrightarrow> read_u64 f a = unat w"
  using unat_bounds(4) [of w] by (simp add: read_u64_def u64_to_le_bytes_def le_nat_le_bytes_nat)

lemma identity_walk:
  assumes "read_u64 f 0x9000 = 0xA003"
    and "\<And>i. i < 4 \<Longrightarrow> read_u64 f (0xA000 + 8 * i) = 0xB003 + 0x1000 * i"
    and "\<And>i. i < 2048 \<Longrightarrow> read_u64 f (0xB000 + 8 * i) = 0x200000 * i + 0x83"
    and "va < 2 ^ 32"
  shows "page_walk f 0x9000 va = Some va"
proof -
  define q where "q = va div 2 ^ 30"
  define r where "r = va div 2 ^ 21 mod 512"
  have q: "q < 4" "va div 2 ^ 30 mod 512 = q" and top: "va div 2 ^ 39 mod 512 = 0"
    using assms(4) by (auto simp: q_def)
  have "va div 2 ^ 30 = va div 2 ^ 21 div 512"
    by (simp add: div_mult2_eq [symmetric])
  then have r: "r < 512" "va div 2 ^ 21 = 512 * q + r"
    by (simp_all add: r_def q_def)
  have pdpte: "read_u64 f (0xA000 + 8 * q) = 0xB003 + 0x1000 * q"
    using assms(2) q(1) .
  have "0xB000 + 0x1000 * q + 8 * r = 0xB000 + 8 * (512 * q + r)"
    by simp
  moreover have "512 * q + r < 2048"
    using q(1) r(1) by simp
  ultimately have pde: "read_u64 f (0xB000 + 0x1000 * q + 8 * r) = 0x200000 * (512 * q + r) + 0x83"
    using assms(3) [of "512 * q + r"] by (simp only:)
  have b1: "entry_base 0xA003 4096 = 0xA000"
    by (simp add: entry_base_def)
  have b2: "entry_base (0xB003 + 0x1000 * q) 4096 = 0xB000 + 0x1000 * q"
  proof -
    have "(0xB003 + 0x1000 * q) mod 2 ^ 52 = 0xB003 + 0x1000 * q" "(0xB003 + 0x1000 * q) div 4096 = 0xB + q"
      using q(1) by simp_all
    then show ?thesis by (simp add: entry_base_def)
  qed
  have b3: "entry_base (0x200000 * (512 * q + r) + 0x83) (2 ^ 21) = 0x200000 * (512 * q + r)"
  proof -
    have "(0x200000 * (512 * q + r) + 0x83) mod 2 ^ 52 = 0x200000 * (512 * q + r) + 0x83"
      "(0x200000 * (512 * q + r) + 0x83) div 2 ^ 21 = 512 * q + r"
      using q(1) r(1) by simp_all
    then show ?thesis by (simp add: entry_base_def)
  qed
  have small: "odd (0xB003 + 0x1000 * q)" "\<not> odd ((0xB003 + 0x1000 * q) div 128)"
    "odd (0x200000 * (512 * q + r) + 0x83)" "odd ((0x200000 * (512 * q + r) + 0x83) div 128)"
  proof -
    have "(0xB003 + 0x1000 * q) div 128 = 352 + 32 * q"
      "(0x200000 * (512 * q + r) + 0x83) div 128 = 16384 * (512 * q + r) + 1"
      by simp_all
    then show "\<not> odd ((0xB003 + 0x1000 * q) div 128)" "odd ((0x200000 * (512 * q + r) + 0x83) div 128)"
      by simp_all
  qed simp_all
  have va: "0x200000 * (512 * q + r) + va mod 2 ^ 21 = va"
    using r(2) div_mult_mod_eq [of va "2 ^ 21"] by simp
  have "odd (0xA003 :: nat)"
    by simp
  then show ?thesis
    unfolding page_walk_def Let_def top q(2) r_def [symmetric]
    by (simp only: mult_0_right add_0_right assms(1) b1 pdpte b2 small pde b3 va if_False if_True simp_thms)
qed

section \<open>What the writes leave in memory\<close>

text \<open>The loadable segments, in order, laid over the memory.\<close>

definition apply_segment :: "u8 list \<Rightarrow> bytemap \<Rightarrow> program_header \<Rightarrow> bytemap" where
  "apply_segment buffer f phdr =
     (if p_type phdr = PT_LOAD then put_bytes f (unat (p_paddr phdr)) (segment_bytes buffer phdr) else f)"

lemma segment_ok_cong: "dom f = dom g \<Longrightarrow> segment_ok buffer f ph = segment_ok buffer g ph"
  using mapped_cong [of f g] by (simp add: segment_ok_def)

lemma length_segment_bytes:
  "segment_ok buffer f ph \<Longrightarrow> p_type ph = PT_LOAD \<Longrightarrow> length (segment_bytes buffer ph) = unat (p_filesz ph)"
  by (auto simp: segment_ok_def segment_bytes_def)

lemma apply_segments_frame:
  "list_all (\<lambda>ph. p_type ph = PT_LOAD \<longrightarrow> length (segment_bytes buffer ph) = unat (p_filesz ph) \<and>
      (b + n \<le> unat (p_paddr ph) \<or> unat (p_paddr ph) + unat (p_filesz ph) \<le> b)) phs \<Longrightarrow>
   bytes_at (foldl (apply_segment buffer) f phs) b n = bytes_at f b n"
  by (induction phs arbitrary: f) (auto simp: apply_segment_def bytes_at_put_disjoint)

lemma length_kernel_boot_params [simp]: "length kernel_boot_params = 4096" "kernel_boot_params \<noteq> []"
proof -
  show l: "length kernel_boot_params = 4096"
    by (simp add: kernel_boot_params_def Let_def)
  show "kernel_boot_params \<noteq> []"
    using l by (metis length_0_conv zero_neq_numeral)
qed

context guest_memory
begin

lemma table_loop:
  assumes "invar m" and "mapped (view m) base (8 * n)" and "\<And>i. i < n \<Longrightarrow> unat (adr i) = base + 8 * i"
  shows "\<exists>m'. for_range 0 n (\<lambda>i m. write_slice_or G h m (u64_to_le_bytes (ent i)) (adr i)) m = (Ok (), m') \<and>
    invar m' \<and> dom (view m') = dom (view m) \<and>
    (\<forall>j<n. bytes_at (view m') (base + 8 * j) 8 = u64_to_le_bytes (ent j)) \<and>
    (\<forall>x. x < base \<or> base + 8 * n \<le> x \<longrightarrow> view m' x = view m x)"
proof -
  let ?I = "\<lambda>k s. invar s \<and> dom (view s) = dom (view m) \<and>
    (\<forall>j<k. bytes_at (view s) (base + 8 * j) 8 = u64_to_le_bytes (ent j)) \<and>
    (\<forall>x. x < base \<or> base + 8 * n \<le> x \<longrightarrow> view s x = view m x)"
  have step: "\<exists>s'. write_slice_or G h s (u64_to_le_bytes (ent k)) (adr k) = (Ok (), s') \<and> ?I (Suc k) s'"
    if k: "k < n" and I: "?I k s" for k s
  proof -
    have "mapped (view s) (unat (adr k)) (length (u64_to_le_bytes (ent k)))"
      using mapped_sub [OF assms(2), of "base + 8 * k" 8] mapped_cong [of "view s" "view m"] I k assms(3) by simp
    moreover have "u64_to_le_bytes (ent k) \<noteq> []"
      by simp
    ultimately obtain s' where s': "write_slice_or G h s (u64_to_le_bytes (ent k)) (adr k) = (Ok (), s')" "invar s'"
      "view s' = put_bytes (view s) (base + 8 * k) (u64_to_le_bytes (ent k))" "dom (view s') = dom (view m)"
      using write_slice_or_mapped [of s "u64_to_le_bytes (ent k)" "adr k" h] I k assms(3) by metis
    have "bytes_at (view s') (base + 8 * j) 8 = u64_to_le_bytes (ent j)" if "j < Suc k" for j
      using that I by (cases "j = k") (auto simp: s'(3) bytes_at_put_inside bytes_at_put_disjoint)
    moreover have "view s' x = view m x" if "x < base \<or> base + 8 * n \<le> x" for x
      using that I k by (auto simp: s'(3) put_bytes_other)
    ultimately show ?thesis
      using s' by auto
  qed
  show ?thesis
    using for_range_total [of 0 n ?I "\<lambda>i m. write_slice_or G h m (u64_to_le_bytes (ent i)) (adr i)" m] step assms(1)
    by simp
qed

lemma write_page_tables_total:
  assumes "invar m" and "mapped (view m) 0x9000 0x6000"
  shows "\<exists>m'. write_page_tables G m = (Ok (), m') \<and> invar m' \<and> dom (view m') = dom (view m) \<and>
    bytes_at (view m') 0x9000 8 = u64_to_le_bytes pml4_entry \<and>
    (\<forall>j<4. bytes_at (view m') (0xA000 + 8 * j) 8 = u64_to_le_bytes (pdpte_entry j)) \<and>
    (\<forall>j<2048. bytes_at (view m') (0xB000 + 8 * j) 8 = u64_to_le_bytes (pde_entry j)) \<and>
    (\<forall>x. x < 0x9000 \<or> 0xF000 \<le> x \<longrightarrow> view m' x = view m x)"
proof -
  have ne: "replicate 0x6000 (0 :: u8) \<noteq> []" "u64_to_le_bytes pml4_entry \<noteq> []"
    by simp_all
  obtain m1 where m1: "write_slice_or G (\<lambda>_. MemoryError ''Failed to zero page tables'') m (replicate 0x6000 0) page_table_base = (Ok (), m1)"
    "invar m1" "view m1 = put_bytes (view m) 0x9000 (replicate 0x6000 0)" "dom (view m1) = dom (view m)"
    using write_slice_or_mapped [OF assms(1) ne(1), of page_table_base] assms(2)
    by (auto simp: table_addresses)
  have map1: "mapped (view m1) a k" if "0x9000 \<le> a" "a + k \<le> 0xF000" for a k
    using mapped_sub [OF assms(2), of a k] that mapped_cong [OF m1(4)] by simp
  obtain m2 where m2: "write_slice_or G (\<lambda>_. MemoryError ''PML4 write failed'') m1 (u64_to_le_bytes pml4_entry) page_table_base = (Ok (), m2)"
    "invar m2" "view m2 = put_bytes (view m1) 0x9000 (u64_to_le_bytes pml4_entry)" "dom (view m2) = dom (view m1)"
    using write_slice_or_mapped [OF m1(2) ne(2), of page_table_base] map1 [of "0x9000" 8]
    by (auto simp: table_addresses)
  have map2: "mapped (view m2) a k" if "0x9000 \<le> a" "a + k \<le> 0xF000" for a k
    using map1 [OF that] mapped_cong [OF m2(4)] by simp
  have "\<exists>m3. for_range 0 4 (\<lambda>i m. write_slice_or G (\<lambda>_. MemoryError ''PDPTE write failed'') m
        (u64_to_le_bytes (pdpte_entry i)) (pdpte_addr + word_of_nat i * 8)) m2 = (Ok (), m3) \<and>
      invar m3 \<and> dom (view m3) = dom (view m2) \<and>
      (\<forall>j<4. bytes_at (view m3) (0xA000 + 8 * j) 8 = u64_to_le_bytes (pdpte_entry j)) \<and>
      (\<forall>x. x < 0xA000 \<or> 0xA000 + 8 * 4 \<le> x \<longrightarrow> view m3 x = view m2 x)"
    by (rule table_loop [OF m2(2) map2 unat_table_slot(1)]) simp_all
  then obtain m3 where m3: "for_range 0 4 (\<lambda>i m. write_slice_or G (\<lambda>_. MemoryError ''PDPTE write failed'') m
      (u64_to_le_bytes (pdpte_entry i)) (pdpte_addr + word_of_nat i * 8)) m2 = (Ok (), m3)"
    "invar m3" "dom (view m3) = dom (view m2)"
    "\<forall>j<4. bytes_at (view m3) (0xA000 + 8 * j) 8 = u64_to_le_bytes (pdpte_entry j)"
    "\<forall>x. x < 0xA000 \<or> 0xA000 + 8 * 4 \<le> x \<longrightarrow> view m3 x = view m2 x"
    by blast
  have map3: "mapped (view m3) a k" if "0x9000 \<le> a" "a + k \<le> 0xF000" for a k
    using map2 [OF that] mapped_cong [OF m3(3)] by simp
  have "\<exists>m4. for_range 0 2048 (\<lambda>i m. write_slice_or G (\<lambda>_. MemoryError ''PDE write failed'') m
        (u64_to_le_bytes (pde_entry i)) (pde_addr + word_of_nat i * 8)) m3 = (Ok (), m4) \<and>
      invar m4 \<and> dom (view m4) = dom (view m3) \<and>
      (\<forall>j<2048. bytes_at (view m4) (0xB000 + 8 * j) 8 = u64_to_le_bytes (pde_entry j)) \<and>
      (\<forall>x. x < 0xB000 \<or> 0xB000 + 8 * 2048 \<le> x \<longrightarrow> view m4 x = view m3 x)"
    by (rule table_loop [OF m3(2) map3 unat_table_slot(2)]) simp_all
  then obtain m4 where m4: "for_range 0 2048 (\<lambda>i m. write_slice_or G (\<lambda>_. MemoryError ''PDE write failed'') m
      (u64_to_le_bytes (pde_entry i)) (pde_addr + word_of_nat i * 8)) m3 = (Ok (), m4)"
    "invar m4" "dom (view m4) = dom (view m3)"
    "\<forall>j<2048. bytes_at (view m4) (0xB000 + 8 * j) 8 = u64_to_le_bytes (pde_entry j)"
    "\<forall>x. x < 0xB000 \<or> 0xB000 + 8 * 2048 \<le> x \<longrightarrow> view m4 x = view m3 x"
    by blast
  have "bytes_at (view m4) 0x9000 8 = bytes_at (view m2) 0x9000 8"
    using m4(5) m3(5) by (intro bytes_at_cong) simp
  moreover have "bytes_at (view m4) (0xA000 + 8 * j) 8 = bytes_at (view m3) (0xA000 + 8 * j) 8" if "j < 4" for j
    using m4(5) that by (intro bytes_at_cong) simp
  moreover have "view m4 x = view m x" if "x < 0x9000 \<or> 0xF000 \<le> x" for x
    using that m4(5) m3(5) by (auto simp: m2(3) m1(3) put_bytes_other)
  ultimately show ?thesis
    using m1 m2 m3 m4 by (simp add: write_page_tables_def bytes_at_put_inside)
qed

lemma load_segment_total:
  assumes "invar m" and "segment_ok buffer (view m) ph" and "p_type ph = PT_LOAD"
  shows "\<exists>m'. load_segment p info_enabled G buffer ph m = (Ok (), m') \<and> invar m' \<and>
    view m' = apply_segment buffer (view m) ph \<and> dom (view m') = dom (view m)"
proof -
  note ok = assms(2) [unfolded segment_ok_def]
  have e: "unat (p_offset ph + p_filesz ph) = unat (p_offset ph) + unat (p_filesz ph)"
    using ok assms(3) by (simp add: unat_word_ariths)
  have len: "length (segment_bytes buffer ph) = unat (p_filesz ph)"
    using length_segment_bytes assms(2,3) .
  then have ne: "segment_bytes buffer ph \<noteq> []"
    using ok assms(3) by auto
  have mp: "mapped (view m) (unat (p_paddr ph)) (length (segment_bytes buffer ph))"
    using ok assms(3) len by simp
  let ?h = "\<lambda>e. MemoryError (''Failed to write kernel segment at 0x'' @ hex_digits (unat (p_paddr ph)) @ '': '' @ e)"
  obtain m' where m': "write_slice_or G ?h m (segment_bytes buffer ph) (p_paddr ph) = (Ok (), m')" "invar m'"
    "view m' = put_bytes (view m) (unat (p_paddr ph)) (segment_bytes buffer ph)" "dom (view m') = dom (view m)"
    using write_slice_or_mapped [OF assms(1) ne mp] .
  have "slice_range buffer (unat (p_offset ph)) (unat (p_offset ph + p_filesz ph)) = (Ok (segment_bytes buffer ph) :: u8 list Result)"
    using ok assms(3) by (simp add: slice_range_def e segment_bytes_def)
  with ok assms(3) m' show ?thesis
    by (simp add: load_segment_def add_u64_def e apply_segment_def)
qed

lemma load_segments_total:
  "invar m \<Longrightarrow> list_all (segment_ok buffer (view m)) phs \<Longrightarrow>
   \<exists>m'. load_segments p info_enabled G buffer phs m = (Ok (), m') \<and> invar m' \<and>
     view m' = foldl (apply_segment buffer) (view m) phs \<and> dom (view m') = dom (view m)"
proof (induction phs arbitrary: m)
  case Nil
  then show ?case by simp
next
  case (Cons ph phs)
  have "\<exists>m1. (if p_type ph = PT_LOAD then load_segment p info_enabled G buffer ph m else (Ok (), m)) = (Ok (), m1) \<and>
      invar m1 \<and> view m1 = apply_segment buffer (view m) ph \<and> dom (view m1) = dom (view m)"
    using load_segment_total [of m buffer ph p info_enabled] Cons.prems by (auto simp: apply_segment_def)
  then obtain m1 where m1: "(if p_type ph = PT_LOAD then load_segment p info_enabled G buffer ph m else (Ok (), m)) = (Ok (), m1)"
    "invar m1" "view m1 = apply_segment buffer (view m) ph" "dom (view m1) = dom (view m)"
    by blast
  have "list_all (segment_ok buffer (view m1)) phs"
    using Cons.prems(2) segment_ok_cong [OF m1(4)] by (simp add: list_all_iff)
  from Cons.IH [OF m1(2) this] m1 show ?case
    by (auto split: if_splits)
qed

lemma write_boot_params_total:
  assumes "invar m" and "mapped (view m) 0x7000 0x1000" and "mapped (view m) 0x10000 (Suc (length cmdline))"
  shows "\<exists>m'. write_boot_params G cmdline m = (Ok (), m') \<and> invar m' \<and> dom (view m') = dom (view m) \<and>
    view m' = put_bytes (put_bytes (view m) 0x10000 (string_bytes cmdline @ [0])) 0x7000 kernel_boot_params"
proof -
  obtain m1 where m1: "write_slice_or G (\<lambda>_. MemoryError ''Failed to write cmdline'') m (string_bytes cmdline @ [0]) cmdline_addr = (Ok (), m1)"
    "invar m1" "view m1 = put_bytes (view m) 0x10000 (string_bytes cmdline @ [0])" "dom (view m1) = dom (view m)"
    using write_slice_or_mapped [OF assms(1), of "string_bytes cmdline @ [0]" cmdline_addr] assms(3)
    by (auto simp: table_addresses)
  have "mapped (view m1) (unat boot_params_addr) (length kernel_boot_params)"
    using assms(2) mapped_cong [OF m1(4)] by (simp add: table_addresses)
  then obtain m2 where "write_slice_or G (\<lambda>_. MemoryError ''Failed to write boot params'') m1 kernel_boot_params boot_params_addr = (Ok (), m2)"
    "invar m2" "view m2 = put_bytes (view m1) 0x7000 kernel_boot_params" "dom (view m2) = dom (view m1)"
    using write_slice_or_mapped [OF m1(2) length_kernel_boot_params(2), of boot_params_addr] by (auto simp: table_addresses)
  with m1 show ?thesis
    by (simp add: write_boot_params_def)
qed

text \<open>Everything \<open>load_kernel\<close> does when the image fits: it succeeds, and the memory holds the segments,
  the page tables, the command line and the boot parameters.\<close>

lemma load_kernel_writes:
  assumes "invar m" and "fs path = Inr buffer" and "parse buffer = Some elf"
    and "list_all (segment_ok buffer (view m)) (program_headers elf)"
    and "mapped (view m) 0x7000 (0x9001 + length cmdline)"
  shows "\<exists>m' g. load_kernel p info_enabled G parse fs path cmdline self m =
      ((if fst (read_slice G m' (replicate 16 0) (elf_entry elf)) = None then Ok () else Panic),
       \<lparr>entry_point = elf_entry elf, kl_cmdline = cmdline\<rparr>, m') \<and> invar m' \<and> dom (view m') = dom (view m) \<and>
    view m' = put_bytes (put_bytes g 0x10000 (string_bytes cmdline @ [0])) 0x7000 kernel_boot_params \<and>
    bytes_at g 0x9000 8 = u64_to_le_bytes pml4_entry \<and>
    (\<forall>j<4. bytes_at g (0xA000 + 8 * j) 8 = u64_to_le_bytes (pdpte_entry j)) \<and>
    (\<forall>j<2048. bytes_at g (0xB000 + 8 * j) 8 = u64_to_le_bytes (pde_entry j)) \<and>
    (\<forall>x. x < 0x9000 \<or> 0xF000 \<le> x \<longrightarrow> g x = foldl (apply_segment buffer) (view m) (program_headers elf) x)"
proof -
  obtain m1 where m1: "load_segments p info_enabled G buffer (program_headers elf) m = (Ok (), m1)" "invar m1"
    "view m1 = foldl (apply_segment buffer) (view m) (program_headers elf)" "dom (view m1) = dom (view m)"
    using load_segments_total [OF assms(1,4)] by blast
  have sub1: "mapped (view m1) a k" if "0x7000 \<le> a" "a + k \<le> 0x10001 + length cmdline" for a k
    using mapped_sub [OF assms(5), of a k] that mapped_cong [OF m1(4)] by simp
  have "mapped (view m1) 0x9000 0x6000"
    by (rule sub1) simp_all
  from write_page_tables_total [OF m1(2) this]
  obtain m2 where m2: "write_page_tables G m1 = (Ok (), m2)" "invar m2" "dom (view m2) = dom (view m1)"
    and pt: "bytes_at (view m2) 0x9000 8 = u64_to_le_bytes pml4_entry"
    "\<forall>j<4. bytes_at (view m2) (0xA000 + 8 * j) 8 = u64_to_le_bytes (pdpte_entry j)"
    "\<forall>j<2048. bytes_at (view m2) (0xB000 + 8 * j) 8 = u64_to_le_bytes (pde_entry j)"
    "\<forall>x. x < 0x9000 \<or> 0xF000 \<le> x \<longrightarrow> view m2 x = view m1 x"
    by blast
  have sub2: "mapped (view m2) 0x7000 0x1000" "mapped (view m2) 0x10000 (Suc (length cmdline))"
    using sub1 [of "0x7000" "0x1000"] sub1 [of "0x10000" "Suc (length cmdline)"] mapped_cong [OF m2(3)] by simp_all
  obtain m3 where m3: "write_boot_params G cmdline m2 = (Ok (), m3)" "invar m3" "dom (view m3) = dom (view m2)"
    "view m3 = put_bytes (put_bytes (view m2) 0x10000 (string_bytes cmdline @ [0])) 0x7000 kernel_boot_params"
    using write_boot_params_total [OF m2(2) sub2] by blast
  have d: "dom (view m3) = dom (view m)"
    by (simp add: m1(4) m2(3) m3(3))
  have "load_kernel p info_enabled G parse fs path cmdline self m =
      ((if fst (read_slice G m3 (replicate 16 0) (elf_entry elf)) = None then Ok () else Panic),
       \<lparr>entry_point = elf_entry elf, kl_cmdline = cmdline\<rparr>, m3)"
    by (simp add: load_kernel_def assms(2,3) m1(1) m2(1) m3(1) Let_def split: prod.split option.split)
  with m3(2,4) d pt(1-3) pt(4) [unfolded m1(3)] show ?thesis
    by blast
qed

lemma load_kernel_total:
  assumes "invar m" and "fs path = Inr buffer" and "parse buffer = Some elf"
    and "list_all (segment_ok buffer (view m)) (program_headers elf)"
    and "mapped (view m) 0x7000 (0x9001 + length cmdline)" and "mapped (view m) (unat (elf_entry elf)) 16"
  shows "\<exists>m' g. load_kernel p info_enabled G parse fs path cmdline self m =
      (Ok (), \<lparr>entry_point = elf_entry elf, kl_cmdline = cmdline\<rparr>, m') \<and> invar m' \<and> dom (view m') = dom (view m) \<and>
    view m' = put_bytes (put_bytes g 0x10000 (string_bytes cmdline @ [0])) 0x7000 kernel_boot_params \<and>
    bytes_at g 0x9000 8 = u64_to_le_bytes pml4_entry \<and>
    (\<forall>j<4. bytes_at g (0xA000 + 8 * j) 8 = u64_to_le_bytes (pdpte_entry j)) \<and>
    (\<forall>j<2048. bytes_at g (0xB000 + 8 * j) 8 = u64_to_le_bytes (pde_entry j)) \<and>
    (\<forall>x. x < 0x9000 \<or> 0xF000 \<le> x \<longrightarrow> g x = foldl (apply_segment buffer) (view m) (program_headers elf) x)"
proof -
  have "fst (read_slice G m' (replicate 16 0) (elf_entry elf)) = None" if "invar m'" "dom (view m') = dom (view m)" for m'
    using read_ok [OF that(1), of "replicate 16 0" "elf_entry elf"] assms(6) mapped_cong [OF that(2)] by simp
  moreover note load_kernel_writes [OF assms(1), of fs path buffer parse elf cmdline p info_enabled self]
  ultimately show ?thesis
    using assms(2-5) by (elim meta_impE exE conjE) (simp_all, metis)
qed

end

section \<open>Results\<close>

lemma view_page_tables:
  assumes "h = put_bytes (put_bytes g 0x10000 (string_bytes cmdline @ [0])) 0x7000 kernel_boot_params"
    and "0x8000 \<le> a" and "a + n \<le> 0x10000"
  shows "bytes_at h a n = bytes_at g a n"
  using assms by (simp add: bytes_at_put_disjoint)

lemma kernel_tables_walk:
  assumes h: "h = put_bytes (put_bytes g 0x10000 (string_bytes cmdline @ [0])) 0x7000 kernel_boot_params"
    and pt: "bytes_at g 0x9000 8 = u64_to_le_bytes pml4_entry"
      "\<forall>j<4. bytes_at g (0xA000 + 8 * j) 8 = u64_to_le_bytes (pdpte_entry j)"
      "\<forall>j<2048. bytes_at g (0xB000 + 8 * j) 8 = u64_to_le_bytes (pde_entry j)"
  shows "\<forall>va < 2 ^ 32. page_walk h 0x9000 va = Some va"
proof (intro allI impI)
  fix va :: nat
  assume "va < 2 ^ 32"
  show "page_walk h 0x9000 va = Some va"
  proof (rule identity_walk [OF _ _ _ \<open>va < 2 ^ 32\<close>])
    show "read_u64 h 0x9000 = 0xA003"
      using pt(1) by (simp add: view_page_tables [OF h] read_u64_le_bytes unat_pml4_entry)
    show "read_u64 h (0xA000 + 8 * i) = 0xB003 + 0x1000 * i" if "i < 4" for i
      using pt(2) that by (simp add: view_page_tables [OF h] read_u64_le_bytes unat_pdpte_entry)
    show "read_u64 h (0xB000 + 8 * i) = 0x200000 * i + 0x83" if "i < 2048" for i
      using pt(3) that by (simp add: view_page_tables [OF h] read_u64_le_bytes unat_pde_entry)
  qed
qed

text \<open>
  C6. The page tables that \<open>load_kernel\<close> builds map the first 4 GiB to themselves: four-level
  translation with the root at \<open>0x9000\<close> takes every address below 4 GiB to itself.  The image is
  only required to fit into the file and into RAM; \<open>load_kernel\<close> then succeeds in both profiles.
\<close>

theorem load_kernel_identity_map:
  assumes "guest_memory G invar view" and "invar m" and "fs path = Inr buffer" and "parse buffer = Some elf"
    and "list_all (segment_ok buffer (view m)) (program_headers elf)"
    and "mapped (view m) 0x7000 (0x9001 + length cmdline)" and "mapped (view m) (unat (elf_entry elf)) 16"
  shows "\<exists>m'. load_kernel p info_enabled G parse fs path cmdline self m =
      (Ok (), \<lparr>entry_point = elf_entry elf, kl_cmdline = cmdline\<rparr>, m') \<and>
    (\<forall>va < 2 ^ 32. page_walk (view m') 0x9000 va = Some va)"
proof -
  obtain m' g where k: "load_kernel p info_enabled G parse fs path cmdline self m =
      (Ok (), \<lparr>entry_point = elf_entry elf, kl_cmdline = cmdline\<rparr>, m')"
    and h: "view m' = put_bytes (put_bytes g 0x10000 (string_bytes cmdline @ [0])) 0x7000 kernel_boot_params"
    and pt: "bytes_at g 0x9000 8 = u64_to_le_bytes pml4_entry"
      "\<forall>j<4. bytes_at g (0xA000 + 8 * j) 8 = u64_to_le_bytes (pdpte_entry j)"
      "\<forall>j<2048. bytes_at g (0xB000 + 8 * j) 8 = u64_to_le_bytes (pde_entry j)"
    using guest_memory.load_kernel_total [OF assms(1), of m fs path buffer parse elf cmdline] assms(2-7) by metis
  from k kernel_tables_walk [OF h pt] show ?thesis by blast
qed

text \<open>An image with one loadable segment of two bytes for \<open>0x100000\<close>, used in the witnesses.\<close>

definition tiny_elf :: elf_image where
  "tiny_elf = \<lparr>elf_entry = 0x100000, program_headers =
     [\<lparr>p_type = PT_LOAD, p_offset = 1, p_paddr = 0x100000, p_filesz = 2, p_memsz = 2\<rparr>]\<rparr>"

definition tiny_image :: "u8 list" where
  "tiny_image = [0x7F, 0xEB, 0xFE]"

lemma tiny_elf_fits:
  "list_all (segment_ok tiny_image (flat_view flat_ram)) (program_headers tiny_elf)"
  "mapped (flat_view flat_ram) 0x7000 (0x9001 + length ''ro'')"
  "mapped (flat_view flat_ram) (unat (elf_entry tiny_elf)) 16"
  by (simp_all add: segment_ok_def tiny_elf_def tiny_image_def flat_ram_mapped)

theorem load_kernel_identity_map_witness:
  "let r = load_kernel Debug True flat_ops (\<lambda>_. Some tiny_elf) (\<lambda>_. Inr tiny_image) ''k'' ''ro'' KernelLoader_new flat_ram in
   fst r = Ok () \<and> page_walk (flat_view (snd (snd r))) 0x9000 0xFEE00123 = Some 0xFEE00123"
  using load_kernel_identity_map [OF fm.guest_memory_axioms flat_ram_invar _ _ tiny_elf_fits,
      of "\<lambda>_. Inr tiny_image" "''k''" "\<lambda>_. Some tiny_elf" Debug True KernelLoader_new] by auto

lemma boot_params_fields:
  "kernel_boot_params ! 0x1e8 = 1"
  "take 4 (drop 0x228 kernel_boot_params) = u32_to_le_bytes 0x10000"
  "take 8 (drop 0x2d0 kernel_boot_params) = u64_to_le_bytes 0"
  "take 8 (drop 0x2d8 kernel_boot_params) = u64_to_le_bytes 0x8000000"
  "take 4 (drop 0x2e0 kernel_boot_params) = u32_to_le_bytes 1"
  using splice_read_back [where ys = "u32_to_le_bytes x" for x] splice_read_back [where ys = "u64_to_le_bytes x" for x]
  by (simp_all add: kernel_boot_params_def Let_def cmdline_addr_def nth_splice take_drop_splice_other take_drop_update_other)



text \<open>
  C22. A loadable segment that no later segment overlaps and that stays clear of the areas the loader
  itself writes (boot parameters, page tables, command line) is in guest memory after \<open>load_kernel\<close>,
  byte for byte as in the file.
\<close>

theorem load_kernel_segment_intact:
  assumes "guest_memory G invar view" and "invar m" and "fs path = Inr buffer" and "parse buffer = Some elf"
    and "list_all (segment_ok buffer (view m)) (program_headers elf)"
    and "mapped (view m) 0x7000 (0x9001 + length cmdline)" and "mapped (view m) (unat (elf_entry elf)) 16"
    and "program_headers elf = before @ phdr # after" and "p_type phdr = PT_LOAD"
    and "list_all (\<lambda>q. p_type q = PT_LOAD \<longrightarrow>
      apart (unat (p_paddr phdr)) (unat (p_filesz phdr)) (unat (p_paddr q)) (unat (p_filesz q))) after"
    and "list_all (\<lambda>(start, len). apart (unat (p_paddr phdr)) (unat (p_filesz phdr)) start len)
      [(0x7000, 0x1000), (0x9000, 0x6000), (0x10000, Suc (length cmdline))]"
  shows "bytes_at (view (snd (snd (load_kernel p info_enabled G parse fs path cmdline self m))))
      (unat (p_paddr phdr)) (unat (p_filesz phdr)) =
    take (unat (p_filesz phdr)) (drop (unat (p_offset phdr)) buffer)"
proof -
  let ?a = "unat (p_paddr phdr)" and ?n = "unat (p_filesz phdr)"
  obtain m' g where k: "load_kernel p info_enabled G parse fs path cmdline self m =
      (Ok (), \<lparr>entry_point = elf_entry elf, kl_cmdline = cmdline\<rparr>, m')"
    and h: "view m' = put_bytes (put_bytes g 0x10000 (string_bytes cmdline @ [0])) 0x7000 kernel_boot_params"
    and g: "\<forall>x. x < 0x9000 \<or> 0xF000 \<le> x \<longrightarrow> g x = foldl (apply_segment buffer) (view m) (program_headers elf) x"
    using guest_memory.load_kernel_total [OF assms(1), of m fs path buffer parse elf cmdline] assms(2-7) by metis
  let ?f = "foldl (apply_segment buffer) (view m) before"
  have len: "length (segment_bytes buffer q) = unat (p_filesz q)" if "q \<in> set (phdr # after)" "p_type q = PT_LOAD" for q
    using assms(5,8) that length_segment_bytes [of buffer "view m" q] by (auto simp: list_all_iff)
  have "bytes_at (view m') ?a ?n = bytes_at g ?a ?n"
    using assms(11) by (simp add: h apart_def bytes_at_put_disjoint)
  also have "\<dots> = bytes_at (foldl (apply_segment buffer) (view m) (program_headers elf)) ?a ?n"
    using assms(11) g by (intro bytes_at_cong) (auto simp: apart_def)
  also have "\<dots> = bytes_at (put_bytes ?f ?a (segment_bytes buffer phdr)) ?a ?n"
    using assms(8-10) len by (simp add: apply_segment_def apply_segments_frame list_all_iff apart_def)
  also have "\<dots> = segment_bytes buffer phdr"
    using len [of phdr] assms(9) bytes_at_put_same [of ?f ?a "segment_bytes buffer phdr"] by simp
  finally show ?thesis
    by (simp add: k segment_bytes_def)
qed

theorem load_kernel_segment_intact_witness:
  "bytes_at (flat_view (snd (snd (load_kernel Debug True flat_ops (\<lambda>_. Some tiny_elf) (\<lambda>_. Inr tiny_image) ''k'' ''ro''
     KernelLoader_new flat_ram)))) 0x100000 2 = [0xEB, 0xFE]"
  using load_kernel_segment_intact [OF fm.guest_memory_axioms flat_ram_invar _ _ tiny_elf_fits,
      of "\<lambda>_. Inr tiny_image" "''k''" "\<lambda>_. Some tiny_elf" "[]" "hd (program_headers tiny_elf)" "[]" Debug True KernelLoader_new]
  by (simp add: tiny_elf_def tiny_image_def apart_def)

text \<open>
  A segment whose file range overflows 64 bits is never loaded, in either profile: the memory is
  unchanged and the result is a panic (always so in a debug build) or the error for a range past
  the end of the file.
\<close>

theorem load_segment_overflow:
  assumes "2 ^ 64 \<le> unat (p_offset phdr) + unat (p_filesz phdr)"
  shows "load_segment Debug info_enabled G buffer phdr m = (Panic, m) \<and>
    load_segment Release info_enabled G buffer phdr m \<in>
      {(Panic, m), (Err (MemoryError ''Invalid ELF segment: extends past end of file''), m)}"
proof -
  have "unat (p_offset phdr + p_filesz phdr) = unat (p_offset phdr) + unat (p_filesz phdr) - 2 ^ 64"
    using assms unat_bounds(4) [of "p_offset phdr"] unat_bounds(4) [of "p_filesz phdr"]
    by (simp add: unat_word_ariths mod_if le_mod_geq)
  then have "unat (p_offset phdr + p_filesz phdr) < unat (p_offset phdr)"
    using assms unat_bounds(4) [of "p_filesz phdr"] by simp
  with assms show ?thesis
    by (auto simp: load_segment_def add_u64_def slice_range_def)
qed

theorem load_segment_overflow_witness:
  "load_segment Debug True flat_ops tiny_image
     \<lparr>p_type = PT_LOAD, p_offset = 0xFFFFFFFFFFFFFFFF, p_paddr = 0x100000, p_filesz = 1, p_memsz = 1\<rparr> flat_ram = (Panic, flat_ram)"
  using load_segment_overflow
    [of "\<lparr>p_type = PT_LOAD, p_offset = 0xFFFFFFFFFFFFFFFF, p_paddr = 0x100000, p_filesz = 1, p_memsz = 1\<rparr>"
      True flat_ops tiny_image flat_ram] by simp

text \<open>
  C23. An image whose entry point is outside RAM makes \<open>load_kernel\<close> panic rather than return an
  error, since the read of the first instruction bytes is unwrapped.
\<close>

theorem load_kernel_entry_unmapped:
  assumes "guest_memory G invar view" and "invar m" and "fs path = Inr buffer" and "parse buffer = Some elf"
    and "list_all (segment_ok buffer (view m)) (program_headers elf)"
    and "mapped (view m) 0x7000 (0x9001 + length cmdline)" and "\<not> mapped (view m) (unat (elf_entry elf)) 16"
  shows "fst (load_kernel p info_enabled G parse fs path cmdline self m) = Panic"
proof -
  obtain m' where k: "load_kernel p info_enabled G parse fs path cmdline self m =
      ((if fst (read_slice G m' (replicate 16 0) (elf_entry elf)) = None then Ok () else Panic),
       \<lparr>entry_point = elf_entry elf, kl_cmdline = cmdline\<rparr>, m')"
    and m': "invar m'" "dom (view m') = dom (view m)"
    using guest_memory.load_kernel_writes [OF assms(1), of m fs path buffer parse elf cmdline] assms(2-6) by metis
  have "fst (read_slice G m' (replicate 16 0) (elf_entry elf)) \<noteq> None"
    using guest_memory.read_err [OF assms(1) m'(1), of "replicate 16 0" "elf_entry elf"]
      assms(7) mapped_cong [OF m'(2)] by simp
  with k show ?thesis by simp
qed

theorem load_kernel_entry_unmapped_witness:
  "fst (load_kernel Release True flat_ops (\<lambda>_. Some (tiny_elf\<lparr>elf_entry := 0x8000000\<rparr>)) (\<lambda>_. Inr tiny_image)
     ''k'' ''ro'' KernelLoader_new flat_ram) = Panic"
proof -
  have "\<not> mapped (flat_view flat_ram) 0x8000000 16"
    by (auto simp: mapped_iff flat_view_def flat_ram_def in_regions_def intro: exI [of _ "0x8000000"])
  with tiny_elf_fits(1,2) show ?thesis
    using load_kernel_entry_unmapped [OF fm.guest_memory_axioms flat_ram_invar,
        of "\<lambda>_. Inr tiny_image" "''k''" tiny_image "\<lambda>_. Some (tiny_elf\<lparr>elf_entry := 0x8000000\<rparr>)"
          "tiny_elf\<lparr>elf_entry := 0x8000000\<rparr>" "''ro''" Release True KernelLoader_new] by simp
qed

end
