(* ===== verification/Hv_Virtqueue.thy ===== *)
theory Hv_Virtqueue
  imports Hv_Platform
begin

text \<open>
  Virtqueues and event file descriptors as the devices use them (crates \<open>virtio-queue\<close> and
  \<open>vmm-sys-util\<close>, not part of the repository).  The operations are further fields of the record of
  memory operations.  Their contract is the split virtqueue of the virtio specification, stated over
  the contents of guest memory: the descriptor table, the available ring that the driver fills and
  the used ring that the device fills.

  Two loops occur in every device: over the chains that the driver has made available, and over the
  descriptors of one chain.  They are \<open>drain_queue\<close> and \<open>for_chain\<close>.  Both are partial functions:
  \<open>None\<close> means that the loop does not end, and that they do end is a lemma under the contract.
  \<open>split_queue\<close> is a reference queue that meets the contract over the reference memory.
\<close>

section \<open>Operations\<close>

type_synonym vq_error = string

record descriptor =
  desc_addr :: u64
  desc_len :: u32
  desc_write_only :: bool

text \<open>
  \<open>queue_next q m\<close> is \<open>queue.iter(mem)?.next()\<close>, \<open>chain_next c m\<close> is \<open>desc_chain.next()\<close>, which
  reads the descriptor from memory at the time of the call.
\<close>

record ('m, 'q, 'c, 'e) virtio_ops = "'m gmem_ops" +
  queue_new :: "u16 \<Rightarrow> vq_error + 'q"
  queue_max_size :: "'q \<Rightarrow> u16"
  queue_next :: "'q \<Rightarrow> 'm \<Rightarrow> (vq_error + 'c option) \<times> 'q"
  queue_add_used :: "'q \<Rightarrow> 'm \<Rightarrow> u16 \<Rightarrow> u32 \<Rightarrow> vq_error option \<times> 'q \<times> 'm"
  chain_head_index :: "'c \<Rightarrow> u16"
  chain_next :: "'c \<Rightarrow> 'm \<Rightarrow> descriptor option \<times> 'c"
  evt_new :: "int \<Rightarrow> io_error + 'e"
  evt_write :: "'e \<Rightarrow> u64 \<Rightarrow> io_error option \<times> 'e"

section \<open>The two loops\<close>

text \<open>
  The body of a loop ends with \<open>Ok True\<close> to go on, with \<open>Ok False\<close> for \<open>break\<close>, and with \<open>Err\<close> or
  \<open>Panic\<close> when it leaves the function.
\<close>

partial_function (option) for_chain ::
  "('m, 'q, 'c, 'e, 'z) virtio_ops_scheme \<Rightarrow> (descriptor \<Rightarrow> 'm \<Rightarrow> 's \<Rightarrow> ('x, bool) outcome \<times> 'm \<times> 's) \<Rightarrow>
   'c \<Rightarrow> 'm \<Rightarrow> 's \<Rightarrow> (('x, unit) outcome \<times> 'm \<times> 's) option" where
  "for_chain V body c m s =
     (case chain_next V c m of
        (None, _) \<Rightarrow> Some (Ok (), m, s)
      | (Some d, c') \<Rightarrow>
          (case body d m s of
             (Ok go_on, m', s') \<Rightarrow> if go_on then for_chain V body c' m' s' else Some (Ok (), m', s')
           | (Err e, m', s') \<Rightarrow> Some (Err e, m', s')
           | (Panic, m', s') \<Rightarrow> Some (Panic, m', s')))"

partial_function (option) drain_queue ::
  "('m, 'q, 'c, 'e, 'z) virtio_ops_scheme \<Rightarrow> (vq_error \<Rightarrow> 'x) \<Rightarrow>
   ('c \<Rightarrow> 'q \<Rightarrow> 'm \<Rightarrow> 's \<Rightarrow> (('x, bool) outcome \<times> 'q \<times> 'm \<times> 's) option) \<Rightarrow>
   'q \<Rightarrow> 'm \<Rightarrow> 's \<Rightarrow> (('x, unit) outcome \<times> 'q \<times> 'm \<times> 's) option" where
  "drain_queue V f body q m s =
     (case queue_next V q m of
        (Inl e, q') \<Rightarrow> Some (Err (f e), q', m, s)
      | (Inr None, q') \<Rightarrow> Some (Ok (), q', m, s)
      | (Inr (Some c), q') \<Rightarrow>
          Option.bind (body c q' m s) (\<lambda>r. case r of
             (Ok go_on, q2, m2, s2) \<Rightarrow> if go_on then drain_queue V f body q2 m2 s2 else Some (Ok (), q2, m2, s2)
           | (Err e, q2, m2, s2) \<Rightarrow> Some (Err e, q2, m2, s2)
           | (Panic, q2, m2, s2) \<Rightarrow> Some (Panic, q2, m2, s2)))"

section \<open>The split virtqueue of the specification\<close>

record vq_layout =
  vq_size :: nat
  vq_desc :: nat
  vq_avail :: nat
  vq_used :: nat

definition descriptor_at :: "bytemap \<Rightarrow> vq_layout \<Rightarrow> nat \<Rightarrow> descriptor" where
  "descriptor_at f L i =
     \<lparr>desc_addr = word_of_nat (le_nat (bytes_at f (vq_desc L + 16 * i) 8)),
      desc_len = word_of_nat (le_nat (bytes_at f (vq_desc L + 16 * i + 8) 4)),
      desc_write_only = odd (le_nat (bytes_at f (vq_desc L + 16 * i + 12) 2) div 2)\<rparr>"

definition desc_has_next :: "bytemap \<Rightarrow> vq_layout \<Rightarrow> nat \<Rightarrow> bool" where
  "desc_has_next f L i = odd (le_nat (bytes_at f (vq_desc L + 16 * i + 12) 2))"

definition desc_indirect :: "bytemap \<Rightarrow> vq_layout \<Rightarrow> nat \<Rightarrow> bool" where
  "desc_indirect f L i = odd (le_nat (bytes_at f (vq_desc L + 16 * i + 12) 2) div 4)"

definition desc_next_index :: "bytemap \<Rightarrow> vq_layout \<Rightarrow> nat \<Rightarrow> nat" where
  "desc_next_index f L i = le_nat (bytes_at f (vq_desc L + 16 * i + 14) 2)"

text \<open>The descriptors of the chain at an index, at most as many as the first argument; a chain ends
  early at an index outside the table.\<close>

fun chain_descs :: "nat \<Rightarrow> bytemap \<Rightarrow> vq_layout \<Rightarrow> nat \<Rightarrow> descriptor list" where
  "chain_descs 0 f L i = []"
| "chain_descs (Suc t) f L i =
     (if i < vq_size L
      then descriptor_at f L i # (if desc_has_next f L i then chain_descs t f L (desc_next_index f L i) else [])
      else [])"

fun chain_direct :: "nat \<Rightarrow> bytemap \<Rightarrow> vq_layout \<Rightarrow> nat \<Rightarrow> bool" where
  "chain_direct 0 f L i = True"
| "chain_direct (Suc t) f L i =
     (i < vq_size L \<longrightarrow> \<not> desc_indirect f L i \<and>
        (desc_has_next f L i \<longrightarrow> chain_direct t f L (desc_next_index f L i)))"

definition avail_idx :: "bytemap \<Rightarrow> vq_layout \<Rightarrow> nat" where
  "avail_idx f L = le_nat (bytes_at f (vq_avail L + 2) 2)"

definition avail_head :: "bytemap \<Rightarrow> vq_layout \<Rightarrow> nat \<Rightarrow> nat" where
  "avail_head f L n = le_nat (bytes_at f (vq_avail L + 4 + 2 * (n mod vq_size L)) 2)"

definition pending_count :: "bytemap \<Rightarrow> vq_layout \<Rightarrow> nat \<Rightarrow> nat" where
  "pending_count f L n = (avail_idx f L + 65536 - n mod 65536) mod 65536"

definition pending_heads :: "bytemap \<Rightarrow> vq_layout \<Rightarrow> nat \<Rightarrow> nat list" where
  "pending_heads f L n = map (\<lambda>k. avail_head f L (n + k)) [0..<pending_count f L n]"

text \<open>One completion: the element for the chain, then the index of the used ring.\<close>

definition put_used :: "bytemap \<Rightarrow> vq_layout \<Rightarrow> nat \<Rightarrow> nat \<Rightarrow> nat \<Rightarrow> bytemap" where
  "put_used f L n i len =
     put_bytes (put_bytes f (vq_used L + 4 + 8 * (n mod vq_size L)) (le_bytes_nat 4 i @ le_bytes_nat 4 len))
       (vq_used L + 2) (le_bytes_nat 2 (n + 1))"

definition used_elem :: "bytemap \<Rightarrow> vq_layout \<Rightarrow> nat \<Rightarrow> nat \<times> nat" where
  "used_elem f L n =
     (le_nat (bytes_at f (vq_used L + 4 + 8 * (n mod vq_size L)) 4),
      le_nat (bytes_at f (vq_used L + 8 + 8 * (n mod vq_size L)) 4))"

text \<open>A queue in RAM whose used ring is apart from what the driver owns.\<close>

definition layout_ok :: "bytemap \<Rightarrow> vq_layout \<Rightarrow> bool" where
  "layout_ok f L \<longleftrightarrow>
     0 < vq_size L \<and> vq_size L dvd 65536 \<and>
     mapped f (vq_desc L) (16 * vq_size L) \<and> mapped f (vq_avail L) (6 + 2 * vq_size L) \<and>
     mapped f (vq_used L) (6 + 8 * vq_size L) \<and>
     apart (vq_used L) (6 + 8 * vq_size L) (vq_desc L) (16 * vq_size L) \<and>
     apart (vq_used L) (6 + 8 * vq_size L) (vq_avail L) (6 + 2 * vq_size L)"

text \<open>A driver that follows the specification: no more chains than the queue has entries, every head
  in the table, and no indirect descriptors, which the devices do not offer.\<close>

definition driver_ok :: "bytemap \<Rightarrow> vq_layout \<Rightarrow> nat \<Rightarrow> bool" where
  "driver_ok f L n \<longleftrightarrow>
     pending_count f L n \<le> vq_size L \<and>
     list_all (\<lambda>h. h < vq_size L \<and> chain_direct (vq_size L) f L h) (pending_heads f L n)"

section \<open>Lemmas on the specification\<close>

lemma mod_dvd_mod: "(s :: nat) dvd k \<Longrightarrow> n mod k mod s = n mod s"
  by (simp add: mod_mod_cancel)

lemma pending_heads_mod:
  assumes "vq_size L dvd 65536"
  shows "pending_heads f L (n mod 65536) = pending_heads f L n"
proof -
  have "(n mod 65536 + k) mod vq_size L = (n + k) mod vq_size L" for k
    using mod_dvd_mod [OF assms, of n] by (metis mod_add_left_eq)
  then show ?thesis
    by (simp add: pending_heads_def pending_count_def avail_head_def)
qed

lemma mod_sub_Suc:
  assumes "(a + k - n mod k) mod k \<noteq> 0" and "a < k"
  shows "(a + k - n mod k) mod k = Suc ((a + k - Suc n mod k) mod (k :: nat))"
proof -
  have r: "n mod k < k" using assms(2) by simp
  define y where "y = a + k - Suc (n mod k)"
  have x: "a + k - n mod k = Suc y"
    using r by (simp add: y_def Suc_diff_Suc)
  have "y mod k = (a + k - Suc n mod k) mod k"
    by (cases "Suc (n mod k) = k") (simp_all add: y_def mod_Suc)
  with assms(1) show ?thesis
    by (auto simp: x mod_Suc split: if_splits)
qed

lemma pending_count_Suc: "pending_count f L n \<noteq> 0 \<Longrightarrow> pending_count f L n = Suc (pending_count f L (Suc n))"
  using le_nat_bound [of "bytes_at f (vq_avail L + 2) 2"] unfolding pending_count_def
  by (intro mod_sub_Suc) (simp_all add: avail_idx_def)

lemma pending_heads_Cons:
  assumes "pending_heads f L n = h # hs"
  shows "h = avail_head f L n" and "pending_heads f L (Suc n) = hs"
    and "pending_count f L n = Suc (pending_count f L (Suc n))"
proof -
  have "pending_count f L n \<noteq> 0"
    using assms by (cases "pending_count f L n") (simp_all add: pending_heads_def)
  from pending_count_Suc [OF this] show c: "pending_count f L n = Suc (pending_count f L (Suc n))" .
  have "pending_heads f L n = avail_head f L n # map (\<lambda>k. avail_head f L (n + k)) [Suc 0..<Suc (pending_count f L (Suc n))]"
    by (simp add: pending_heads_def c upt_conv_Cons del: upt_Suc)
  also have "\<dots> = avail_head f L n # pending_heads f L (Suc n)"
    by (simp add: pending_heads_def map_Suc_upt [symmetric] del: upt_Suc)
  finally show "h = avail_head f L n" "pending_heads f L (Suc n) = hs"
    using assms by simp_all
qed

text \<open>What the driver owns of the queue, and that a change elsewhere does not touch it.\<close>

definition same_rings :: "vq_layout \<Rightarrow> bytemap \<Rightarrow> bytemap \<Rightarrow> bool" where
  "same_rings L f g \<longleftrightarrow>
     (\<forall>x. vq_desc L \<le> x \<and> x < vq_desc L + 16 * vq_size L \<or> vq_avail L \<le> x \<and> x < vq_avail L + (6 + 2 * vq_size L)
        \<longrightarrow> f x = g x)"

lemma bytes_at_same_rings:
  assumes "same_rings L f g"
  shows "i < vq_size L \<Longrightarrow> k + n \<le> 16 \<Longrightarrow> bytes_at f (vq_desc L + 16 * i + k) n = bytes_at g (vq_desc L + 16 * i + k) n"
    and "k + n \<le> 6 + 2 * vq_size L \<Longrightarrow> bytes_at f (vq_avail L + k) n = bytes_at g (vq_avail L + k) n"
  using assms by (auto simp: same_rings_def intro!: bytes_at_cong)

lemma same_rings_descriptor:
  assumes "same_rings L f g" and "i < vq_size L"
  shows "descriptor_at f L i = descriptor_at g L i" and "desc_has_next f L i = desc_has_next g L i"
    and "desc_indirect f L i = desc_indirect g L i" and "desc_next_index f L i = desc_next_index g L i"
  using bytes_at_same_rings(1) [OF assms, of 0 8] bytes_at_same_rings(1) [OF assms, of 8 4]
    bytes_at_same_rings(1) [OF assms, of 12 2] bytes_at_same_rings(1) [OF assms, of 14 2]
  by (simp_all add: descriptor_at_def desc_has_next_def desc_indirect_def desc_next_index_def)

lemma same_rings_chain:
  assumes "same_rings L f g"
  shows "chain_descs t f L i = chain_descs t g L i" and "chain_direct t f L i = chain_direct t g L i"
  by (induction t arbitrary: i) (auto simp: same_rings_descriptor [OF assms])

lemma same_rings_pending:
  assumes "same_rings L f g" and "0 < vq_size L"
  shows "pending_heads f L n = pending_heads g L n" and "pending_count f L n = pending_count g L n"
proof -
  have "avail_head f L k = avail_head g L k" for k
  proof -
    have "k mod vq_size L < vq_size L" using assms(2) by simp
    with bytes_at_same_rings(2) [OF assms(1), of "4 + 2 * (k mod vq_size L)" 2] show ?thesis
      by (simp add: avail_head_def add.assoc)
  qed
  moreover show "pending_count f L n = pending_count g L n"
    using bytes_at_same_rings(2) [OF assms(1), of 2 2] by (simp add: pending_count_def avail_idx_def)
  ultimately show "pending_heads f L n = pending_heads g L n"
    by (simp add: pending_heads_def)
qed

lemma same_rings_driver_ok:
  "same_rings L f g \<Longrightarrow> 0 < vq_size L \<Longrightarrow> driver_ok f L n = driver_ok g L n"
  by (simp add: driver_ok_def same_rings_pending same_rings_chain)

lemma layout_ok_dom: "dom f = dom g \<Longrightarrow> layout_ok f L = layout_ok g L"
  by (simp add: layout_ok_def mapped_cong [of f g])

lemma put_used_other:
  assumes "layout_ok f L" and "x < vq_used L \<or> vq_used L + (6 + 8 * vq_size L) \<le> x"
  shows "put_used f L n i len x = f x"
proof -
  have "n mod vq_size L < vq_size L"
    using assms(1) by (simp add: layout_ok_def)
  then show ?thesis
    using assms(2) by (auto simp: put_used_def put_bytes_def)
qed

lemma put_used_same_rings: "layout_ok f L \<Longrightarrow> same_rings L (put_used f L n i len) f"
  unfolding same_rings_def by (auto simp: layout_ok_def apart_def intro!: put_used_other)

lemma dom_put_used:
  assumes "layout_ok f L"
  shows "dom (put_used f L n i len) = dom f"
proof -
  have b: "n mod vq_size L < vq_size L"
    using assms by (simp add: layout_ok_def)
  have m: "mapped f (vq_used L) (6 + 8 * vq_size L)"
    using assms by (simp add: layout_ok_def)
  have "mapped f (vq_used L + 4 + 8 * (n mod vq_size L)) 8" and m2: "mapped f (vq_used L + 2) 2"
    by (rule mapped_sub [OF m]; use b in simp)+
  then have d: "dom (put_bytes f (vq_used L + 4 + 8 * (n mod vq_size L)) (le_bytes_nat 4 i @ le_bytes_nat 4 len)) = dom f"
    by (simp add: dom_put_bytes)
  with m2 show ?thesis
    by (simp add: put_used_def dom_put_bytes mapped_cong [OF d])
qed

lemma driver_ok_Suc:
  assumes "driver_ok f L n" and "pending_heads f L n = h # hs" and "vq_size L dvd 65536"
  shows "driver_ok f L (Suc n mod 65536)" and "h < vq_size L" and "chain_direct (vq_size L) f L h"
    and "pending_heads f L (Suc n mod 65536) = hs"
proof -
  note c = pending_heads_Cons [OF assms(2)]
  show h: "pending_heads f L (Suc n mod 65536) = hs"
    using c(2) pending_heads_mod [OF assms(3), of f "Suc n"] by simp
  have "pending_count f L (Suc n mod 65536) = pending_count f L (Suc n)"
    by (simp add: pending_count_def)
  with assms(1,2) c(3) h show "driver_ok f L (Suc n mod 65536)" "h < vq_size L" "chain_direct (vq_size L) f L h"
    by (simp_all add: driver_ok_def)
qed

text \<open>Completions in a row, and what the driver then finds in the used ring.\<close>

fun put_useds :: "bytemap \<Rightarrow> vq_layout \<Rightarrow> nat \<Rightarrow> (nat \<times> nat) list \<Rightarrow> bytemap" where
  "put_useds f L n [] = f"
| "put_useds f L n ((i, len) # xs) = put_useds (put_used f L n i len) L (Suc n mod 65536) xs"

lemma put_used_layout_ok: "layout_ok f L \<Longrightarrow> layout_ok (put_used f L n i len) L"
  using layout_ok_dom [OF dom_put_used] by blast

lemma put_useds_frame:
  "layout_ok f L \<Longrightarrow> dom (put_useds f L n xs) = dom f \<and>
   (\<forall>x. x < vq_used L \<or> vq_used L + (6 + 8 * vq_size L) \<le> x \<longrightarrow> put_useds f L n xs x = f x)"
proof (induction f L n xs rule: put_useds.induct)
  case (1 f L n)
  then show ?case by simp
next
  case (2 f L n i len xs)
  with put_used_layout_ok [OF 2(2)] dom_put_used [OF 2(2)] put_used_other [OF 2(2)] show ?case
    by simp
qed

lemma put_useds_other:
  "layout_ok f L \<Longrightarrow> x < vq_used L \<or> vq_used L + (6 + 8 * vq_size L) \<le> x \<Longrightarrow> put_useds f L n xs x = f x"
  using put_useds_frame by blast

lemma used_elem_put_used:
  assumes "0 < vq_size L"
  shows "used_elem (put_used f L n i len) L k =
    (if k mod vq_size L = n mod vq_size L then (i mod 2 ^ 32, len mod 2 ^ 32) else used_elem f L k)"
proof -
  let ?u = "vq_used L" and ?a = "vq_used L + 4 + 8 * (n mod vq_size L)" and ?b = "vq_used L + 4 + 8 * (k mod vq_size L)"
  let ?bs = "le_bytes_nat 4 i @ le_bytes_nat 4 len"
  have skip: "bytes_at (put_used f L n i len) (?b + j) 4 = bytes_at (put_bytes f ?a ?bs) (?b + j) 4" for j
    by (simp add: put_used_def bytes_at_put_disjoint del: add_2_eq_Suc' add_2_eq_Suc)
  have e: "used_elem (put_used f L n i len) L k =
      (le_nat (bytes_at (put_bytes f ?a ?bs) ?b 4), le_nat (bytes_at (put_bytes f ?a ?bs) (?b + 4) 4))"
    using skip [of 0] skip [of 4] by (simp add: used_elem_def ac_simps)
  show ?thesis
  proof (cases "k mod vq_size L = n mod vq_size L")
    case True
    then show ?thesis
      by (simp add: e bytes_at_put_inside le_nat_le_bytes_nat)
  next
    case False
    then have "?b + 8 \<le> ?a \<or> ?a + 8 \<le> ?b"
      by linarith
    then have "bytes_at (put_bytes f ?a ?bs) ?b 4 = bytes_at f ?b 4"
      "bytes_at (put_bytes f ?a ?bs) (?b + 4) 4 = bytes_at f (?b + 4) 4"
      by (auto intro!: bytes_at_put_disjoint)
    moreover have "used_elem f L k = (le_nat (bytes_at f ?b 4), le_nat (bytes_at f (?b + 4) 4))"
      by (simp add: used_elem_def ac_simps)
    ultimately show ?thesis
      using False by (simp only: e if_False)
  qed
qed

lemma used_elem_mod: "vq_size L dvd 65536 \<Longrightarrow> used_elem f L (n mod 65536 + k) = used_elem f L (n + k)"
  by (metis mod_add_left_eq mod_dvd_mod used_elem_def)

lemma used_elem_put_useds_other:
  assumes "0 < vq_size L" and "vq_size L dvd 65536"
  shows "(\<And>j. j < length xs \<Longrightarrow> k mod vq_size L \<noteq> (n + j) mod vq_size L) \<Longrightarrow>
    used_elem (put_useds f L n xs) L k = used_elem f L k"
proof (induction xs arbitrary: f n)
  case Nil
  then show ?case by simp
next
  case (Cons x xs)
  obtain i len where x: "x = (i, len)" by (cases x)
  have "(Suc n mod 65536 + j) mod vq_size L = (n + Suc j) mod vq_size L" for j
    using mod_dvd_mod [OF assms(2), of "Suc n"] by (metis add_Suc_shift mod_add_left_eq)
  then have "used_elem (put_useds (put_used f L n i len) L (Suc n mod 65536) xs) L k = used_elem (put_used f L n i len) L k"
    using Cons.prems [of "Suc j" for j] by (intro Cons.IH) simp
  with Cons.prems [of 0] assms(1) show ?case
    by (simp add: x used_elem_put_used)
qed

lemma used_elem_put_useds:
  assumes "0 < vq_size L" and "vq_size L dvd 65536"
  shows "j < length xs \<Longrightarrow> length xs \<le> vq_size L \<Longrightarrow>
    used_elem (put_useds f L n xs) L (n + j) = (fst (xs ! j) mod 2 ^ 32, snd (xs ! j) mod 2 ^ 32)"
proof (induction xs arbitrary: f n j)
  case Nil
  then show ?case by simp
next
  case (Cons x xs)
  obtain i len where x: "x = (i, len)" by (cases x)
  let ?g = "put_used f L n i len"
  show ?case
  proof (cases j)
    case 0
    have "n mod vq_size L \<noteq> (Suc n mod 65536 + k) mod vq_size L" if "k < length xs" for k
    proof -
      have "(Suc n mod 65536 + k) mod vq_size L = (n + Suc k) mod vq_size L"
        using mod_dvd_mod [OF assms(2), of "Suc n"] by (metis add_Suc_shift mod_add_left_eq)
      moreover have "n mod vq_size L \<noteq> (n + Suc k) mod vq_size L"
        using that Cons.prems(2) mod_eq_dvd_iff_nat [of n "n + Suc k" "vq_size L"] by (auto dest: dvd_imp_le)
      ultimately show ?thesis by simp
    qed
    then have "used_elem (put_useds ?g L (Suc n mod 65536) xs) L n = used_elem ?g L n"
      by (rule used_elem_put_useds_other [OF assms])
    with 0 assms(1) show ?thesis
      by (simp add: x used_elem_put_used)
  next
    case (Suc k)
    with Cons.IH [of k ?g "Suc n mod 65536"] Cons.prems used_elem_mod [OF assms(2), of _ "Suc n" k] show ?thesis
      by (simp add: x)
  qed
qed

lemma served_used_elem:
  assumes "layout_ok f L" and "driver_ok f L n" and "hs = pending_heads f L n" and "k < length hs"
  shows "used_elem (put_useds f L u (map (\<lambda>h. (h, len h mod 2 ^ 32)) hs)) L (u + k) = (hs ! k, len (hs ! k) mod 2 ^ 32)"
proof -
  have sz: "0 < vq_size L" "vq_size L dvd 65536" "length hs \<le> vq_size L"
    using assms(1-3) by (simp_all add: layout_ok_def driver_ok_def pending_heads_def)
  have "hs ! k < vq_size L"
    using assms(2-4) by (simp add: driver_ok_def list_all_length)
  moreover have "vq_size L \<le> 65536"
    using sz(2) by (rule dvd_imp_le) simp
  ultimately show ?thesis
    using used_elem_put_useds [OF sz(1,2), of k "map (\<lambda>h. (h, len h mod 2 ^ 32)) hs"] assms(4) sz(3) by simp
qed

section \<open>Lemmas on the loops\<close>

text \<open>What every turn of a loop keeps, the loop keeps.\<close>

lemma for_chain_inv:
  assumes "for_chain V body c m s = Some res" and "P m s"
    and "\<And>d m s. P m s \<Longrightarrow> P (fst (snd (body d m s))) (snd (snd (body d m s)))"
  shows "P (fst (snd res)) (snd (snd res))"
  using assms
proof (induction V body c m s res rule: for_chain.raw_induct [rotated, consumes 1])
  case (1 fc V body c m s res)
  note P = "1.prems"
  obtain d c' where n: "chain_next V c m = (d, c')" by (cases "chain_next V c m")
  show ?case
  proof (cases d)
    case None
    then show ?thesis using "1.hyps" n P(1) by auto
  next
    case (Some d')
    obtain r m1 s1 where b: "body d' m s = (r, m1, s1)" by (cases "body d' m s")
    show ?thesis
      using "1.hyps" n P(2) [OF P(1), of d'] b Some P(2) "1.IH" [of V body c' m1 s1 res]
      by (cases r) (auto split: if_splits)
  qed
qed

lemma drain_queue_inv:
  assumes "drain_queue V f body q m s = Some res" and "P q m s"
    and "\<And>q m s. P q m s \<Longrightarrow> P (snd (queue_next V q m)) m s"
    and "\<And>c q m s r q' m' s'. P q m s \<Longrightarrow> body c q m s = Some (r, q', m', s') \<Longrightarrow> P q' m' s'"
  shows "P (fst (snd res)) (fst (snd (snd res))) (snd (snd (snd res)))"
  using assms
proof (induction V f body q m s res rule: drain_queue.raw_induct [rotated, consumes 1])
  case (1 dq V f body q m s res)
  note P = "1.prems"
  obtain x q1 where n: "queue_next V q m = (x, q1)" by (cases "queue_next V q m")
  have P1: "P q1 m s" using P(2) [OF P(1)] n by simp
  show ?case
  proof (cases "\<exists>c. x = Inr (Some c)")
    case False
    then show ?thesis using "1.hyps" n P1 by (cases x) (auto split: option.splits)
  next
    case True
    then obtain c where c: "x = Inr (Some c)" by blast
    then obtain r q2 m2 s2 where b: "body c q1 m s = Some (r, q2, m2, s2)"
      using "1.hyps" n by (cases "body c q1 m s") auto
    have "P q2 m2 s2" using P(3) [OF P1 b] .
    then show ?thesis
      using "1.hyps" n b c "1.IH" [of V f body q2 m2 s2 res] P(2,3)
      by (cases r) (auto split: if_splits)
  qed
qed

text \<open>
  A loop over the queue ends when an invariant over the list of chains still to come is kept by
  every turn; the invariant of the empty list then holds at the end.
\<close>

lemma drain_queue_total:
  assumes "I hs q m s"
    and "\<And>h hs q m s. I (h # hs) q m s \<Longrightarrow> \<exists>c q1 q' m' s'. queue_next V q m = (Inr (Some c), q1) \<and>
      body c q1 m s = Some (Ok True, q', m', s') \<and> I hs q' m' s'"
    and "\<And>q m s. I [] q m s \<Longrightarrow> \<exists>q'. queue_next V q m = (Inr None, q') \<and> J q' m s"
  shows "\<exists>q' m' s'. drain_queue V f body q m s = Some (Ok (), q', m', s') \<and> J q' m' s'"
  using assms(1)
proof (induction hs arbitrary: q m s)
  case Nil
  from assms(3) [OF Nil] show ?case
    by (subst drain_queue.simps) auto
next
  case (Cons h hs)
  from assms(2) [OF Cons.prems] obtain c q1 q' m' s' where
    "queue_next V q m = (Inr (Some c), q1)" "body c q1 m s = Some (Ok True, q', m', s')" "I hs q' m' s'"
    by blast
  with Cons.IH [of q' m' s'] show ?case
    by (subst drain_queue.simps) simp
qed

text \<open>A loop over the queue returns, with whatever outcome, when its turns do.\<close>

lemma drain_queue_returns:
  assumes "I hs q m s"
    and "\<And>h hs q m s. I (h # hs) q m s \<Longrightarrow> \<exists>c q1 r q' m' s'. queue_next V q m = (Inr (Some c), q1) \<and>
      body c q1 m s = Some (r, q', m', s') \<and> (r = Ok True \<longrightarrow> I hs q' m' s')"
    and "\<And>q m s. I [] q m s \<Longrightarrow> fst (queue_next V q m) = Inr None"
  shows "\<exists>res. drain_queue V f body q m s = Some res"
  using assms(1)
proof (induction hs arbitrary: q m s)
  case Nil
  from assms(3) [OF Nil] show ?case
    by (subst drain_queue.simps) (auto split: prod.split)
next
  case (Cons h hs)
  from assms(2) [OF Cons.prems] obtain c q1 r q' m' s' where
    b: "queue_next V q m = (Inr (Some c), q1)" "body c q1 m s = Some (r, q', m', s')" "r = Ok True \<longrightarrow> I hs q' m' s'"
    by blast
  then show ?case
    using Cons.IH [of q' m' s'] by (subst drain_queue.simps) (cases r; auto)
qed

text \<open>A body that does the same where another one reports no error makes the same loop.\<close>

lemma for_chain_refines:
  assumes "for_chain V body c m s = Some res" and "fst res = Ok ()"
    and "\<And>d m s go m' s'. body d m s = (Ok go, m', s') \<Longrightarrow> body' d m s = (Ok go, m', s')"
  shows "for_chain V body' c m s = Some res"
  using assms
proof (induction V body c m s res rule: for_chain.raw_induct [rotated, consumes 1])
  case (1 fc V body c m s res)
  obtain d c' where n: "chain_next V c m = (d, c')" by (cases "chain_next V c m")
  show ?case
  proof (cases d)
    case None
    then show ?thesis using "1.hyps" n by (subst for_chain.simps) simp
  next
    case (Some d')
    obtain r m1 s1 where b: "body d' m s = (r, m1, s1)" by (cases "body d' m s")
    with "1.hyps" "1.prems"(1) n Some obtain go where r: "r = Ok go"
      by (cases r) auto
    then have "body' d' m s = (Ok go, m1, s1)"
      using b "1.prems"(2) by simp
    then show ?thesis
      using "1.hyps" "1.prems" n Some b r "1.IH" [of V body c' m1 s1 res]
      by (subst for_chain.simps) (auto split: if_splits)
  qed
qed

section \<open>The contract\<close>

record vq_state =
  st_ready :: bool
  st_layout :: vq_layout
  st_next_avail :: nat
  st_next_used :: nat

locale virtqueue = guest_memory V invar view
  for V :: "('m, 'q, 'c, 'e, 'z) virtio_ops_scheme" and invar :: "'m \<Rightarrow> bool" and view :: "'m \<Rightarrow> bytemap" +
  fixes q_state :: "'q \<Rightarrow> vq_state"
    and chain_at :: "'c \<Rightarrow> vq_layout \<times> nat \<times> nat"
    and chain_fuel :: "'c \<Rightarrow> nat"
  assumes queue_new_state: "queue_new V n = Inr q \<Longrightarrow> \<not> st_ready (q_state q) \<and> queue_max_size V q = n"
    and not_ready: "\<not> st_ready (q_state q) \<Longrightarrow> \<exists>e. queue_next V q m = (Inl e, q)"
    and next_max_size: "queue_max_size V (snd (queue_next V q m)) = queue_max_size V q"
    and add_used_max_size: "queue_max_size V (fst (snd (queue_add_used V q m k len))) = queue_max_size V q"
    and next_none: "invar m \<Longrightarrow> st_ready (q_state q) \<Longrightarrow> layout_ok (view m) (st_layout (q_state q)) \<Longrightarrow>
      pending_heads (view m) (st_layout (q_state q)) (st_next_avail (q_state q)) = [] \<Longrightarrow>
      \<exists>q'. queue_next V q m = (Inr None, q') \<and> q_state q' = q_state q"
    and next_some: "invar m \<Longrightarrow> st_ready (q_state q) \<Longrightarrow> layout_ok (view m) (st_layout (q_state q)) \<Longrightarrow>
      pending_heads (view m) (st_layout (q_state q)) (st_next_avail (q_state q)) = h # hs \<Longrightarrow>
      pending_count (view m) (st_layout (q_state q)) (st_next_avail (q_state q)) \<le> vq_size (st_layout (q_state q)) \<Longrightarrow>
      \<exists>c q'. queue_next V q m = (Inr (Some c), q') \<and>
        q_state q' = (q_state q)\<lparr>st_next_avail := Suc (st_next_avail (q_state q)) mod 65536\<rparr> \<and>
        chain_head_index V c = word_of_nat h \<and>
        chain_at c = (st_layout (q_state q), h, vq_size (st_layout (q_state q)))"
    and chain_some: "invar m \<Longrightarrow> chain_at c = (L, i, Suc t) \<Longrightarrow> i < vq_size L \<Longrightarrow>
      mapped (view m) (vq_desc L) (16 * vq_size L) \<Longrightarrow> \<not> desc_indirect (view m) L i \<Longrightarrow>
      \<exists>c'. chain_next V c m = (Some (descriptor_at (view m) L i), c') \<and>
        chain_at c' = (if desc_has_next (view m) L i then (L, desc_next_index (view m) L i, t) else (L, i, 0))"
    and chain_none: "chain_at c = (L, i, t) \<Longrightarrow> t = 0 \<or> vq_size L \<le> i \<Longrightarrow> fst (chain_next V c m) = None"
    and chain_ends: "chain_next V c m = (Some d, c') \<Longrightarrow> chain_fuel c' < chain_fuel c"
    and add_used_ok: "invar m \<Longrightarrow> st_ready (q_state q) \<Longrightarrow> layout_ok (view m) (st_layout (q_state q)) \<Longrightarrow>
      unat k < vq_size (st_layout (q_state q)) \<Longrightarrow>
      \<exists>q' m'. queue_add_used V q m k len = (None, q', m') \<and> invar m' \<and>
        q_state q' = (q_state q)\<lparr>st_next_used := Suc (st_next_used (q_state q)) mod 65536\<rparr> \<and>
        view m' = put_used (view m) (st_layout (q_state q)) (st_next_used (q_state q)) (unat k) (unat len)"
begin

text \<open>The loop over one chain ends whatever the guest has put into memory.\<close>

lemma for_chain_total: "\<exists>r. for_chain V body c m s = Some r"
proof (induction "chain_fuel c" arbitrary: c m s rule: less_induct)
  case less
  have "\<exists>r. for_chain V body c' m' s' = Some r" if "chain_next V c m = (Some d, c')" for d c' m' s'
    by (rule less [OF chain_ends [OF that]])
  then show ?case
    by (subst for_chain.simps) (fastforce split: prod.splits option.splits outcome.splits)
qed

lemma for_chain_pure:
  assumes "invar m" and "\<And>d s. body d m s = (Ok True, m, g d s)"
  shows "chain_at c = (L, i, t) \<Longrightarrow> mapped (view m) (vq_desc L) (16 * vq_size L) \<Longrightarrow> chain_direct t (view m) L i \<Longrightarrow>
    for_chain V body c m s = Some (Ok (), m, fold g (chain_descs t (view m) L i) s)"
proof (induction t arbitrary: c i s)
  case 0
  have "fst (chain_next V c m) = None" using chain_none [OF 0(1)] by simp
  then show ?case by (subst for_chain.simps) (auto split: prod.split)
next
  case (Suc t)
  show ?case
  proof (cases "i < vq_size L")
    case False
    then have "fst (chain_next V c m) = None" using chain_none [OF Suc.prems(1)] by simp
    with False show ?thesis by (subst for_chain.simps) (auto split: prod.split)
  next
    case True
    from chain_some [OF assms(1) Suc.prems(1) True Suc.prems(2)] True Suc.prems(3)
    obtain c' where c': "chain_next V c m = (Some (descriptor_at (view m) L i), c')"
      "chain_at c' = (if desc_has_next (view m) L i then (L, desc_next_index (view m) L i, t) else (L, i, 0))"
      by auto
    have "for_chain V body c' m (g (descriptor_at (view m) L i) s) =
        Some (Ok (), m, fold g (tl (chain_descs (Suc t) (view m) L i)) (g (descriptor_at (view m) L i) s))"
    proof (cases "desc_has_next (view m) L i")
      case False
      then have "fst (chain_next V c' m) = None"
        using chain_none [of c' L i 0 m] c'(2) by simp
      with False True show ?thesis by (subst for_chain.simps) (auto split: prod.split)
    next
      case has_next: True
      with Suc.IH [of c' "desc_next_index (view m) L i"] Suc.prems(2,3) c'(2) True show ?thesis by simp
    qed
    with c' True assms(2) show ?thesis by (subst for_chain.simps) simp
  qed
qed

text \<open>A loop whose body keeps what the driver owns sees the descriptors that were there at the start.\<close>

lemma for_chain_frame:
  assumes "\<And>m s. P m s \<Longrightarrow> invar m \<and> dom (view m) = dom f0 \<and> same_rings L (view m) f0"
    and "mapped f0 (vq_desc L) (16 * vq_size L)"
  shows "chain_at c = (L, i, t) \<Longrightarrow> chain_direct t f0 L i \<Longrightarrow> P m s \<Longrightarrow>
    (\<And>d m s. d \<in> set (chain_descs t f0 L i) \<Longrightarrow> P m s \<Longrightarrow> P (fst (snd (body d m s))) (snd (snd (body d m s)))) \<Longrightarrow>
    \<exists>r m' s'. for_chain V body c m s = Some (r, m', s') \<and> P m' s'"
proof (induction t arbitrary: c i m s)
  case 0
  have "fst (chain_next V c m) = None" using chain_none [OF 0(1)] by simp
  with 0(3) show ?case by (subst for_chain.simps) (auto split: prod.split)
next
  case (Suc t)
  note inv = assms(1) [OF Suc.prems(3)]
  show ?case
  proof (cases "i < vq_size L")
    case False
    then have "fst (chain_next V c m) = None" using chain_none [OF Suc.prems(1)] by simp
    with Suc.prems(3) show ?thesis by (subst for_chain.simps) (auto split: prod.split)
  next
    case True
    let ?d = "descriptor_at f0 L i"
    note same = same_rings_descriptor [OF inv [THEN conjunct2, THEN conjunct2] True]
    have "mapped (view m) (vq_desc L) (16 * vq_size L)"
      using assms(2) inv mapped_cong [of "view m" f0] by simp
    from chain_some [OF _ Suc.prems(1) True this] True Suc.prems(2) inv same
    obtain c' where c': "chain_next V c m = (Some ?d, c')"
      "chain_at c' = (if desc_has_next f0 L i then (L, desc_next_index f0 L i, t) else (L, i, 0))"
      by auto
    obtain r m1 s1 where b: "body ?d m s = (r, m1, s1)" by (cases "body ?d m s")
    have P1: "P m1 s1" using Suc.prems(4) [of ?d m s] Suc.prems(3) True b by simp
    have "\<exists>r m' s'. for_chain V body c' m1 s1 = Some (r, m', s') \<and> P m' s'"
    proof (cases "desc_has_next f0 L i")
      case False
      then have "fst (chain_next V c' m1) = None"
        using chain_none [of c' L i 0 m1] c'(2) by simp
      with P1 show ?thesis by (subst for_chain.simps) (auto split: prod.split)
    next
      case has_next: True
      show ?thesis
        by (rule Suc.IH [of c' "desc_next_index f0 L i" m1 s1]) (use Suc.prems(2,4) c'(2) P1 True has_next in auto)
    qed
    with c'(1) b P1 show ?thesis by (subst for_chain.simps) (cases r; auto)
  qed
qed

text \<open>
  A queue served to the end: every turn completes the chain it takes, with a length and an effect
  on the device that depend on the chain only.
\<close>

lemma drain_service:
  assumes "layout_ok f0 L"
    and body: "\<And>c q m s h. h \<in> set hs \<Longrightarrow> invar m \<Longrightarrow> chain_at c = (L, h, vq_size L) \<Longrightarrow>
      chain_head_index V c = word_of_nat h \<Longrightarrow> dom (view m) = dom f0 \<Longrightarrow>
      (\<And>x. x < vq_used L \<or> vq_used L + (6 + 8 * vq_size L) \<le> x \<Longrightarrow> view m x = f0 x) \<Longrightarrow> S s \<Longrightarrow>
      body c q m s = (case queue_add_used V q m (word_of_nat h) (word_of_nat (len h)) of
        (_, q', m') \<Rightarrow> Some (Ok True, q', m', upd h s)) \<and> S (upd h s)"
    and "invar m" and "q_state q = \<lparr>st_ready = True, st_layout = L, st_next_avail = n, st_next_used = u\<rparr>"
    and "n < 65536" and "u < 65536" and "driver_ok (view m) L n" and "pending_heads (view m) L n = hs"
    and "dom (view m) = dom f0" and "\<And>x. x < vq_used L \<or> vq_used L + (6 + 8 * vq_size L) \<le> x \<Longrightarrow> view m x = f0 x"
    and "S s"
  shows "\<exists>q' m'. drain_queue V e body q m s = Some (Ok (), q', m', fold upd hs s) \<and> invar m' \<and> S (fold upd hs s) \<and>
    q_state q' = \<lparr>st_ready = True, st_layout = L, st_next_avail = (n + length hs) mod 65536,
      st_next_used = (u + length hs) mod 65536\<rparr> \<and>
    view m' = put_useds (view m) L u (map (\<lambda>h. (h, len h mod 2 ^ 32)) hs)"
  using body assms(3-)
proof (induction hs arbitrary: m q n u s)
  case Nil
  have "layout_ok (view m) L"
    using assms(1) layout_ok_dom [OF Nil(8)] by simp
  then obtain q' where "queue_next V q m = (Inr None, q')" "q_state q' = q_state q"
    using next_none [OF Nil(2), of q] Nil(3,7) by auto
  with Nil show ?case by (subst drain_queue.simps) simp
next
  case (Cons h hs)
  note st = Cons.prems(3) and dr = Cons.prems(6) and pend = Cons.prems(7)
  have lo: "layout_ok (view m) L"
    using assms(1) layout_ok_dom [OF Cons.prems(8)] by simp
  then have dv: "vq_size L dvd 65536" and s0: "0 < vq_size L" and sz: "vq_size L \<le> 65536"
    using dvd_imp_le [of "vq_size L" 65536] by (simp_all add: layout_ok_def)
  note nx = driver_ok_Suc [OF dr pend dv]
  obtain c q1 where c: "queue_next V q m = (Inr (Some c), q1)"
    "q_state q1 = (q_state q)\<lparr>st_next_avail := Suc n mod 65536\<rparr>"
    "chain_head_index V c = word_of_nat h" "chain_at c = (L, h, vq_size L)"
    using next_some [OF Cons.prems(2), of q h hs] st lo pend dr by (auto simp: driver_ok_def)
  have h: "h mod 65536 = h"
    using nx(2) sz by simp
  obtain q2 m2 where a: "queue_add_used V q1 m (word_of_nat h) (word_of_nat (len h)) = (None, q2, m2)" "invar m2"
    "q_state q2 = (q_state q1)\<lparr>st_next_used := Suc u mod 65536\<rparr>"
    "view m2 = put_used (view m) L u h (len h mod 2 ^ 32)"
    using add_used_ok [OF Cons.prems(2), of q1 "word_of_nat h" "word_of_nat (len h)"] c(2) st lo nx(2)
    by (auto simp: h unat_of_nat)
  have b: "body c q1 m s = Some (Ok True, q2, m2, upd h s)" and S: "S (upd h s)"
    using Cons.prems(1) [of h m c s q1] Cons.prems(2,8-10) c(3,4) a(1) by simp_all
  have sr: "same_rings L (view m2) (view m)"
    using put_used_same_rings [OF lo] by (simp add: a(4))
  have "\<exists>q' m'. drain_queue V e body q2 m2 (upd h s) = Some (Ok (), q', m', fold upd hs (upd h s)) \<and> invar m' \<and>
      S (fold upd hs (upd h s)) \<and>
      q_state q' = \<lparr>st_ready = True, st_layout = L, st_next_avail = (Suc n mod 65536 + length hs) mod 65536,
        st_next_used = (Suc u mod 65536 + length hs) mod 65536\<rparr> \<and>
      view m' = put_useds (view m2) L (Suc u mod 65536) (map (\<lambda>h. (h, len h mod 2 ^ 32)) hs)"
  proof (rule Cons.IH)
    show "q_state q2 = \<lparr>st_ready = True, st_layout = L, st_next_avail = Suc n mod 65536, st_next_used = Suc u mod 65536\<rparr>"
      by (simp add: a(3) c(2) st)
    show "driver_ok (view m2) L (Suc n mod 65536)" "pending_heads (view m2) L (Suc n mod 65536) = hs"
      using nx(1,4) same_rings_driver_ok [OF sr s0] same_rings_pending(1) [OF sr s0] by simp_all
    show "dom (view m2) = dom f0"
      using dom_put_used [OF lo] Cons.prems(8) by (simp add: a(4))
    show "view m2 x = f0 x" if "x < vq_used L \<or> vq_used L + (6 + 8 * vq_size L) \<le> x" for x
      using put_used_other [OF lo that] Cons.prems(9) [OF that] by (simp add: a(4))
  qed (use Cons.prems(1) a(2) S in auto)
  then show ?case
    using c(1) b by (subst drain_queue.simps) (simp add: a(4) mod_add_left_eq)
qed

end

section \<open>The reference queue\<close>

record split_queue =
  sq_max :: u16
  sq_state :: vq_state

type_synonym split_chain = "vq_layout \<times> nat \<times> nat"

definition split_new :: "u16 \<Rightarrow> vq_error + split_queue" where
  "split_new n =
     (if n = 0 then Inl ''invalid max size''
      else Inr \<lparr>sq_max = n, sq_state = \<lparr>st_ready = False, st_layout = \<lparr>vq_size = unat n, vq_desc = 0, vq_avail = 0, vq_used = 0\<rparr>,
                 st_next_avail = 0, st_next_used = 0\<rparr>\<rparr>)"

definition split_next :: "split_queue \<Rightarrow> flat_mem \<Rightarrow> (vq_error + split_chain option) \<times> split_queue" where
  "split_next q m =
     (let st = sq_state q; L = st_layout st; f = flat_view m in
      if \<not> st_ready st then (Inl ''queue not ready'', q)
      else if vq_size L < pending_count f L (st_next_avail st) then (Inl ''invalid available ring index'', q)
      else case pending_heads f L (st_next_avail st) of
        [] \<Rightarrow> (Inr None, q)
      | h # _ \<Rightarrow> (Inr (Some (L, h, vq_size L)), q\<lparr>sq_state := st\<lparr>st_next_avail := Suc (st_next_avail st) mod 65536\<rparr>\<rparr>))"

definition split_chain_next :: "split_chain \<Rightarrow> flat_mem \<Rightarrow> descriptor option \<times> split_chain" where
  "split_chain_next c m =
     (case c of (L, i, t) \<Rightarrow>
        if t = 0 \<or> vq_size L \<le> i \<or> desc_indirect (flat_view m) L i then (None, c)
        else (Some (descriptor_at (flat_view m) L i),
              if desc_has_next (flat_view m) L i then (L, desc_next_index (flat_view m) L i, t - 1) else (L, i, 0)))"

definition split_add_used :: "split_queue \<Rightarrow> flat_mem \<Rightarrow> u16 \<Rightarrow> u32 \<Rightarrow> vq_error option \<times> split_queue \<times> flat_mem" where
  "split_add_used q m i len =
     (let st = sq_state q; L = st_layout st; n = st_next_used st in
      if vq_size L \<le> unat i \<or> \<not> layout_ok (flat_view m) L then (Some ''invalid descriptor index'', q, m)
      else (None, q\<lparr>sq_state := st\<lparr>st_next_used := Suc n mod 65536\<rparr>\<rparr>,
            flat_put (flat_put m (vq_used L + 4 + 8 * (n mod vq_size L)) (le_bytes_nat 4 (unat i) @ le_bytes_nat 4 (unat len)))
              (vq_used L + 2) (le_bytes_nat 2 (n + 1))))"

text \<open>An event file descriptor is its counter; a write that would overflow the counter is refused.\<close>

definition counter_write :: "u64 \<Rightarrow> u64 \<Rightarrow> io_error option \<times> u64" where
  "counter_write e v =
     (if unat e + unat v < 2 ^ 64 - 1 then (None, e + v) else (Some (IoErr WouldBlock ''try again''), e))"

definition flat_virtio :: "(flat_mem, split_queue, split_chain, u64) virtio_ops" where
  "flat_virtio = gmem_ops.extend flat_ops
     \<lparr>queue_new = split_new, queue_max_size = sq_max, queue_next = split_next, queue_add_used = split_add_used,
      chain_head_index = (\<lambda>(L, i, t). word_of_nat i), chain_next = split_chain_next,
      evt_new = (\<lambda>flags. Inr 0), evt_write = counter_write\<rparr>"

lemma flat_virtio_simps [simp]:
  "read_slice flat_virtio = flat_read" "write_slice flat_virtio = flat_write"
  "queue_new flat_virtio = split_new" "queue_max_size flat_virtio = sq_max"
  "queue_next flat_virtio = split_next" "queue_add_used flat_virtio = split_add_used"
  "chain_head_index flat_virtio = (\<lambda>(L, i, t). word_of_nat i)" "chain_next flat_virtio = split_chain_next"
  "evt_new flat_virtio = (\<lambda>flags. Inr 0)" "evt_write flat_virtio = counter_write"
  by (simp_all add: flat_virtio_def gmem_ops.defs flat_ops_def)

lemma flat_view_put_used:
  assumes "layout_ok (flat_view m) L"
  shows "flat_view (flat_put (flat_put m (vq_used L + 4 + 8 * (n mod vq_size L)) (le_bytes_nat 4 i @ le_bytes_nat 4 len))
      (vq_used L + 2) (le_bytes_nat 2 (n + 1))) = put_used (flat_view m) L n i len"
proof -
  have b: "n mod vq_size L < vq_size L" and m: "mapped (flat_view m) (vq_used L) (6 + 8 * vq_size L)"
    using assms by (simp_all add: layout_ok_def)
  let ?a = "vq_used L + 4 + 8 * (n mod vq_size L)" and ?bs = "le_bytes_nat 4 i @ le_bytes_nat 4 len"
  have 1: "mapped (flat_view m) ?a (length ?bs)" and 2: "mapped (flat_view m) (vq_used L + 2) 2"
    by (rule mapped_sub [OF m]; use b in simp)+
  have "mapped (flat_view (flat_put m ?a ?bs)) (vq_used L + 2) (length (le_bytes_nat 2 (n + 1)))"
    using 2 mapped_cong [OF dom_put_bytes [OF 1]] by (simp add: flat_view_put_mapped [OF 1])
  from flat_view_put_mapped [OF this] show ?thesis
    by (simp add: put_used_def flat_view_put_mapped [OF 1])
qed

interpretation fq: virtqueue flat_virtio flat_invar flat_view sq_state id "\<lambda>(L, i, t). t"
proof (unfold_locales, goal_cases)
  case (1 m buf a)
  show ?case by (simp add: flat_read_def)
next
  case (2 m buf a)
  then show ?case by (simp add: flat_read_def)
next
  case (3 m buf a)
  then show ?case by (simp add: flat_read_def)
next
  case (4 m bs a)
  then show ?case by (simp add: flat_write_def flat_view_put_mapped)
next
  case (5 m bs a)
  then show ?case by (simp add: flat_write_def)
next
  case (6 m x a bs)
  then show ?case by (auto simp: flat_write_def flat_view_put)
next
  case (7 m bs a)
  then show ?case by (simp add: flat_write_def flat_view_put_mapped dom_put_bytes)
next
  case (8 m bs a)
  then show ?case by (simp add: flat_write_def flat_invar_def)
next
  case (9 n q)
  then show ?case by (auto simp: split_new_def split: if_splits)
next
  case (10 q m)
  then show ?case by (simp add: split_next_def Let_def)
next
  case (11 q m)
  show ?case by (simp add: split_next_def Let_def split: list.split)
next
  case (12 q m k len)
  show ?case by (simp add: split_add_used_def Let_def)
next
  case (13 m q)
  then have "pending_count (flat_view m) (st_layout (sq_state q)) (st_next_avail (sq_state q)) = 0"
    by (simp add: pending_heads_def)
  with 13 show ?case by (simp add: split_next_def Let_def)
next
  case (14 m q h hs)
  then show ?case by (simp add: split_next_def Let_def)
next
  case (15 m c L i t)
  then show ?case by (simp add: split_chain_next_def)
next
  case (16 c L i t m)
  then show ?case by (auto simp: split_chain_next_def)
next
  case (17 c m d c')
  then show ?case by (auto simp: split_chain_next_def split: prod.splits if_splits)
next
  case (18 m q k len)
  then show ?case
    using flat_view_put_used [of m "st_layout (sq_state q)" "st_next_used (sq_state q)" "unat k" "unat len"]
    by (simp add: split_add_used_def Let_def flat_invar_def)
qed

text \<open>
  A queue with one entry in the reference memory, used in the witnesses: the driver has made one
  chain available, a single descriptor for the two bytes at \<open>0x4000\<close>.
\<close>

definition demo_layout :: vq_layout where
  "demo_layout = \<lparr>vq_size = 1, vq_desc = 0x1000, vq_avail = 0x2000, vq_used = 0x3000\<rparr>"

definition demo_byte :: "nat \<Rightarrow> u8" where
  "demo_byte x = (if x = 0x1001 then 0x40 else if x = 0x1008 then 2 else if x = 0x2002 then 1
     else if x = 0x4000 then 104 else if x = 0x4001 then 105 else 0)"

definition demo_ram :: flat_mem where
  "demo_ram = \<lparr>fm_regions = [(0, 134217728)], fm_byte = demo_byte\<rparr>"

definition demo_queue :: split_queue where
  "demo_queue = \<lparr>sq_max = 1024, sq_state = \<lparr>st_ready = True, st_layout = demo_layout, st_next_avail = 0, st_next_used = 0\<rparr>\<rparr>"

lemma demo_invar [simp]: "flat_invar demo_ram"
  by (simp add: flat_invar_def demo_ram_def)

lemma demo_mapped: "a + k \<le> 134217728 \<Longrightarrow> mapped (flat_view demo_ram) a k"
  by (rule flat_mapped_single [of _ 0 134217728]) (simp_all add: demo_ram_def)

lemma demo_view: "x < 134217728 \<Longrightarrow> flat_view demo_ram x = Some (demo_byte x)"
  by (simp add: flat_view_def demo_ram_def in_regions_def)

lemma demo_bytes_at: "a + k \<le> 134217728 \<Longrightarrow> bytes_at (flat_view demo_ram) a k = map demo_byte [a..<a + k]"
  by (simp add: bytes_at_def demo_view)

lemma demo_layout_ok: "layout_ok (flat_view demo_ram) demo_layout"
  by (simp add: layout_ok_def demo_layout_def demo_mapped apart_def)

lemma demo_pending: "pending_heads (flat_view demo_ram) demo_layout 0 = [0]"
  by (simp add: pending_heads_def pending_count_def avail_idx_def avail_head_def demo_layout_def demo_bytes_at demo_byte_def)

lemma demo_descs:
  "chain_descs (vq_size demo_layout) (flat_view demo_ram) demo_layout 0 = [\<lparr>desc_addr = 0x4000, desc_len = 2, desc_write_only = False\<rparr>]"
  "\<not> desc_indirect (flat_view demo_ram) demo_layout 0"
  by (simp_all add: descriptor_at_def desc_has_next_def desc_indirect_def demo_layout_def demo_bytes_at demo_byte_def)

lemma demo_driver_ok: "driver_ok (flat_view demo_ram) demo_layout 0"
proof -
  have "pending_count (flat_view demo_ram) demo_layout 0 = 1"
    using arg_cong [OF demo_pending, of length] by (simp add: pending_heads_def)
  moreover have "vq_size demo_layout = Suc 0"
    by (simp add: demo_layout_def)
  ultimately show ?thesis
    using demo_descs(2) by (simp add: driver_ok_def demo_pending)
qed

text \<open>The memory of the reference platform is the one of \<open>flat_ops\<close>.\<close>

lemma flat_virtio_memory [simp]:
  "from_ranges flat_virtio = from_ranges flat_ops" "mem_iter flat_virtio = mem_iter flat_ops"
  "region_as_ptr flat_virtio = region_as_ptr flat_ops" "find_region flat_virtio = find_region flat_ops"
  "region_read_slice flat_virtio = region_read_slice flat_ops" "region_write_slice flat_virtio = region_write_slice flat_ops"
  by (simp_all add: flat_virtio_def gmem_ops.defs flat_ops_def)

lemma flat_ops_accesses: "read_slice flat_ops = flat_read" "write_slice flat_ops = flat_write"
  by (simp_all add: flat_ops_def)

interpretation fr: guest_regions flat_virtio flat_invar flat_view
  using fm.guest_regions_axioms
  by (simp add: guest_regions_def guest_memory_def guest_regions_axioms_def flat_ops_accesses)

end
