(* ===== verification/Hv_Virtio.thy ===== *)
theory Hv_Virtio
  imports Hv_Virtqueue Hv_Host
begin

text \<open>
  The device abstraction of \<open>src/virtio/mod.rs\<close>.  The trait \<open>VirtioDevice\<close> is a record of operations
  over the type of a device; a device model gives one such record.  Guest memory is shared by all
  devices and the processor, so it is not part of a device but passed to \<open>process_queue\<close> and
  returned by it; \<open>None\<close> stands for a call that does not return.

  The locale \<open>virtio_device\<close> is what the transport relies on: configuration reads keep the length of
  the buffer, and no operation changes what the device says about itself.
\<close>

record ('d, 'm) VirtioDevice =
  device_type :: "'d \<Rightarrow> u32"
  get_features :: "'d \<Rightarrow> u64"
  set_acked_features :: "'d \<Rightarrow> u64 \<Rightarrow> unit Result \<times> 'd"
  read_config :: "'d \<Rightarrow> u64 \<Rightarrow> u8 list \<Rightarrow> unit Result \<times> u8 list"
  write_config :: "'d \<Rightarrow> u64 \<Rightarrow> u8 list \<Rightarrow> unit Result \<times> 'd"
  process_queue :: "'d \<Rightarrow> u32 \<Rightarrow> 'm \<Rightarrow> (unit Result \<times> 'd \<times> 'm) option"
  get_queues :: "'d \<Rightarrow> u16 list"
  get_interrupt_status :: "'d \<Rightarrow> u32"
  shutdown :: "'d \<Rightarrow> unit Result \<times> 'd"
  dev_mmio_read :: "'d \<Rightarrow> u64 \<Rightarrow> u8 list \<Rightarrow> unit Result \<times> u8 list"
  dev_mmio_write :: "'d \<Rightarrow> u64 \<Rightarrow> u8 list \<Rightarrow> unit Result \<times> 'd"
  get_mmio_region :: "'d \<Rightarrow> (u64 \<times> u64) option"

text \<open>The provided methods of the trait.\<close>

definition default_shutdown :: "'d \<Rightarrow> unit Result \<times> 'd" where
  "default_shutdown d = (Ok (), d)"

definition default_mmio_read :: "'d \<Rightarrow> u64 \<Rightarrow> u8 list \<Rightarrow> unit Result \<times> u8 list" where
  "default_mmio_read d offset data = (Ok (), data)"

definition default_mmio_write :: "'d \<Rightarrow> u64 \<Rightarrow> u8 list \<Rightarrow> unit Result \<times> 'd" where
  "default_mmio_write d offset data = (Ok (), d)"

definition default_mmio_region :: "'d \<Rightarrow> (u64 \<times> u64) option" where
  "default_mmio_region d = None"

section \<open>Shared state of a device\<close>

record ('q, 'e) VirtioDeviceConfig =
  cfg_guest_mem :: u64
  cfg_irq :: u32
  cfg_queues :: "'q list"
  cfg_interrupt_evt :: "'e option"

definition EFD_NONBLOCK :: int where
  "EFD_NONBLOCK = 2048"

text \<open>\<open>Queue::new(1024).unwrap()\<close>, the given number of times.\<close>

fun new_queues :: "('m, 'q, 'c, 'e, 'z) virtio_ops_scheme \<Rightarrow> nat \<Rightarrow> (string, 'q list) outcome" where
  "new_queues V 0 = Ok []"
| "new_queues V (Suc k) =
     (case queue_new V 1024 of
        Inl e \<Rightarrow> Panic
      | Inr q \<Rightarrow> bind_outcome (new_queues V k) (\<lambda>qs. Ok (q # qs)))"

definition VirtioDeviceConfig_new ::
  "('m, 'q, 'c, 'e, 'z) virtio_ops_scheme \<Rightarrow> u64 \<Rightarrow> u32 \<Rightarrow> nat \<Rightarrow> (string, ('q, 'e) VirtioDeviceConfig) outcome" where
  "VirtioDeviceConfig_new V guest_mem irq num_queues =
     bind_outcome (new_queues V num_queues) (\<lambda>queues.
     let interrupt_evt = (case evt_new V EFD_NONBLOCK of Inl e \<Rightarrow> None | Inr e \<Rightarrow> Some e) in
     Ok \<lparr>cfg_guest_mem = guest_mem, cfg_irq = irq, cfg_queues = queues, cfg_interrupt_evt = interrupt_evt\<rparr>)"

text \<open>\<open>self.config.queues().iter().map(|q| q.max_size()).collect()\<close>.\<close>

definition config_queue_sizes ::
  "('m, 'q, 'c, 'e, 'z) virtio_ops_scheme \<Rightarrow> ('q, 'e) VirtioDeviceConfig \<Rightarrow> u16 list" where
  "config_queue_sizes V c = map (queue_max_size V) (cfg_queues c)"

text \<open>The common end of \<open>read_config\<close> in the block, console and network devices: the bytes of the
  packed configuration structure from an offset on.\<close>

definition read_config_space :: "u8 list \<Rightarrow> u64 \<Rightarrow> u8 list \<Rightarrow> unit Result \<times> u8 list" where
  "read_config_space config_slice offset data =
     (if length config_slice \<le> unat offset
      then (Err (MemoryError ''Invalid config space offset''), data)
      else (Ok (), copy_prefix (drop (unat offset) config_slice) data))"

text \<open>\<open>if let Some(evt) = &self.config.interrupt_evt { evt.write(1).map_err(..)? }\<close>.\<close>

definition signal_interrupt ::
  "('m, 'q, 'c, 'e, 'z) virtio_ops_scheme \<Rightarrow> ('q, 'e) VirtioDeviceConfig \<Rightarrow> unit Result \<times> ('q, 'e) VirtioDeviceConfig" where
  "signal_interrupt V c =
     (case cfg_interrupt_evt c of
        None \<Rightarrow> (Ok (), c)
      | Some evt \<Rightarrow>
          (case evt_write V evt 1 of
             (None, evt) \<Rightarrow> (Ok (), c\<lparr>cfg_interrupt_evt := Some evt\<rparr>)
           | (Some e, evt) \<Rightarrow>
               (Err (IoError (IoErr Other (''Failed to signal interrupt: '' @ io_error_to_string e))),
                c\<lparr>cfg_interrupt_evt := Some evt\<rparr>)))"

definition queue_iter_error :: "vq_error \<Rightarrow> HypervisorError" where
  "queue_iter_error e = MemoryError (''Failed to iterate queue: '' @ e)"

section \<open>What a device reads\<close>

text \<open>The data of a descriptor as the driver put it into memory.\<close>

definition desc_bytes :: "bytemap \<Rightarrow> descriptor \<Rightarrow> u8 list" where
  "desc_bytes f d = bytes_at f (unat (desc_addr d)) (unat (desc_len d))"

text \<open>The data that a device reads is in RAM and apart from the used ring that it writes.\<close>

definition desc_in_ram :: "bytemap \<Rightarrow> vq_layout \<Rightarrow> descriptor \<Rightarrow> bool" where
  "desc_in_ram f L d \<longleftrightarrow>
     mapped f (unat (desc_addr d)) (unat (desc_len d)) \<and>
     apart (unat (desc_addr d)) (unat (desc_len d)) (vq_used L) (6 + 8 * vq_size L)"

definition chains_in_ram :: "bytemap \<Rightarrow> vq_layout \<Rightarrow> nat list \<Rightarrow> bool" where
  "chains_in_ram f L hs \<longleftrightarrow> list_all (\<lambda>h. list_all (desc_in_ram f L) (chain_descs (vq_size L) f L h)) hs"

section \<open>The contract of a device\<close>

definition same_identity :: "('d, 'm, 'z) VirtioDevice_scheme \<Rightarrow> 'd \<Rightarrow> 'd \<Rightarrow> bool" where
  "same_identity T d d' \<longleftrightarrow>
     device_type T d' = device_type T d \<and> get_features T d' = get_features T d \<and>
     get_queues T d' = get_queues T d \<and> get_interrupt_status T d' = get_interrupt_status T d"

locale virtio_device =
  fixes T :: "('d, 'm, 'z) VirtioDevice_scheme"
  assumes read_config_length: "length (snd (read_config T d off data)) = length data"
    and set_acked_identity: "same_identity T d (snd (set_acked_features T d f))"
    and write_config_identity: "same_identity T d (snd (write_config T d off data))"
    and process_queue_identity: "process_queue T d i m = Some (r, d', m') \<Longrightarrow> same_identity T d d'"

lemma same_identity_refl [simp]: "same_identity T d d"
  by (simp add: same_identity_def)

lemma same_identity_trans: "same_identity T a b \<Longrightarrow> same_identity T b c \<Longrightarrow> same_identity T a c"
  by (simp add: same_identity_def)

lemma read_config_space_length [simp]: "length (snd (read_config_space cfg off data)) = length data"
  by (simp add: read_config_space_def)

lemma read_config_space_inside:
  "unat off + length data \<le> length cfg \<Longrightarrow> data \<noteq> [] \<Longrightarrow>
   read_config_space cfg off data = (Ok (), take (length data) (drop (unat off) cfg))"
  by (cases data) (auto simp: read_config_space_def copy_prefix_def)

lemma read_config_space_not_panic [simp]: "fst (read_config_space cfg off data) \<noteq> Panic"
  by (simp add: read_config_space_def)

lemma signal_interrupt_simps [simp]:
  "cfg_queues (snd (signal_interrupt V c)) = cfg_queues c" "cfg_irq (snd (signal_interrupt V c)) = cfg_irq c"
  "fst (signal_interrupt V c) \<noteq> Panic"
  by (simp_all add: signal_interrupt_def split: option.split prod.split)

lemma new_queues_ok: "new_queues V n = Ok qs \<Longrightarrow> length qs = n \<and> list_all (\<lambda>q. queue_new V 1024 = Inr q) qs"
proof (induction n arbitrary: qs)
  case 0
  then show ?case by simp
next
  case (Suc n)
  then show ?case
    by (cases "new_queues V n") (auto split: sum.splits)
qed

lemma VirtioDeviceConfig_new_ok:
  "VirtioDeviceConfig_new V g i n = Ok c \<Longrightarrow>
   length (cfg_queues c) = n \<and> list_all (\<lambda>q. queue_new V 1024 = Inr q) (cfg_queues c) \<and> cfg_irq c = i \<and> cfg_guest_mem c = g"
  using new_queues_ok [of V n "cfg_queues c"]
  by (cases "new_queues V n") (auto simp: VirtioDeviceConfig_new_def Let_def)

lemma desc_in_ram_dom: "dom f = dom g \<Longrightarrow> desc_in_ram f L d = desc_in_ram g L d"
  by (simp add: desc_in_ram_def mapped_cong [of f g])

context virtqueue
begin

lemma read_desc_bytes:
  assumes "invar m" and "desc_in_ram f L d" and "dom (view m) = dom f"
    and "\<And>x. x < vq_used L \<or> vq_used L + (6 + 8 * vq_size L) \<le> x \<Longrightarrow> view m x = f x"
  shows "snd (read_slice V m (replicate (unat (desc_len d)) 0) (desc_addr d)) = desc_bytes f d"
proof (cases "unat (desc_len d) = 0")
  case True
  then show ?thesis
    using read_length [of m "[]" "desc_addr d"] by (simp add: desc_bytes_def bytes_at_def)
next
  case False
  have "mapped (view m) (unat (desc_addr d)) (unat (desc_len d))"
    using assms(2) mapped_cong [OF assms(3)] by (simp add: desc_in_ram_def)
  moreover have "bytes_at (view m) (unat (desc_addr d)) (unat (desc_len d)) = desc_bytes f d"
    unfolding desc_bytes_def using assms(2,4) by (intro bytes_at_cong) (auto simp: desc_in_ram_def apart_def)
  ultimately show ?thesis
    using read_ok [OF assms(1), of "replicate (unat (desc_len d)) 0" "desc_addr d"] False by simp
qed

lemma drain_max_size:
  assumes "drain_queue V e body q m s = Some (r, q', m', s')"
    and "\<And>c q m s r q' m' s'. body c q m s = Some (r, q', m', s') \<Longrightarrow> queue_max_size V q' = queue_max_size V q"
  shows "queue_max_size V q' = queue_max_size V q"
proof -
  have "queue_max_size V (fst (snd (r, q', m', s'))) = queue_max_size V q"
    by (rule drain_queue_inv [OF assms(1), of "\<lambda>q1 m s. queue_max_size V q1 = queue_max_size V q"])
      (simp_all add: next_max_size assms(2))
  then show ?thesis by simp
qed

end

lemma config_queue_sizes_update:
  "i < length (cfg_queues c) \<Longrightarrow> queue_max_size V q = queue_max_size V (cfg_queues c ! i) \<Longrightarrow>
   config_queue_sizes V (c\<lparr>cfg_queues := (cfg_queues c)[i := q]\<rparr>) = config_queue_sizes V c"
  using list_update_id [of "map (queue_max_size V) (cfg_queues c)" i] by (simp add: config_queue_sizes_def map_update)

lemma config_queue_sizes_signal [simp]: "config_queue_sizes V (snd (signal_interrupt W c)) = config_queue_sizes V c"
  by (simp add: config_queue_sizes_def)

end
