(* ===== verification/Hv_Mmio.thy ===== *)
theory Hv_Mmio
  imports Hv_Virtio
begin

text \<open>
  The MMIO transport (\<open>src/virtio/mmio.rs\<close>): the register window in front of a device.  Offsets from
  \<open>0x100\<close> on are the device's configuration space.  The device is behind a \<open>Mutex\<close>; a panic inside
  a device operation poisons it, and every later access then panics.
\<close>

unbundle bit_operations_syntax

record 'd VirtioMmioDevice =
  mmio_device :: "'d mutex"
  mmio_base_addr :: u64
  mmio_size :: u64
  mmio_queue_sel :: u32

definition VirtioMmioDevice_new :: "'d \<Rightarrow> u64 \<Rightarrow> 'd VirtioMmioDevice" where
  "VirtioMmioDevice_new device base_addr =
     \<lparr>mmio_device = mutex_new device, mmio_base_addr = base_addr, mmio_size = 0x1000, mmio_queue_sel = 0\<rparr>"

text \<open>The value of a register below \<open>0x100\<close>.\<close>

definition mmio_register :: "('d, 'm, 'z) VirtioDevice_scheme \<Rightarrow> 'd \<Rightarrow> u32 \<Rightarrow> u64 \<Rightarrow> u32" where
  "mmio_register T dev queue_sel offset =
     (if offset = 0x00 then 0x74726976
      else if offset = 0x04 then 1
      else if offset = 0x08 then device_type T dev
      else if offset = 0x0c then 0x4d564f4d
      else if offset = 0x10 then ucast (get_features T dev AND 0xffffffff)
      else if offset = 0x14 then ucast (drop_bit 32 (get_features T dev))
      else if offset = 0x34 then
        (if unat queue_sel < length (get_queues T dev) then ucast (get_queues T dev ! unat queue_sel) else 0)
      else if offset = 0x44 then 1
      else if offset = 0x60 then get_interrupt_status T dev
      else 0)"

definition mmio_read ::
  "('d, 'm, 'z) VirtioDevice_scheme \<Rightarrow> 'd VirtioMmioDevice \<Rightarrow> u64 \<Rightarrow> u8 list \<Rightarrow> unit Result \<times> u8 list \<times> 'd VirtioMmioDevice" where
  "mmio_read T self offset data =
     (if mx_poisoned (mmio_device self) then (Panic, data, self)
      else let dev = mx_data (mmio_device self) in
      if 0x100 \<le> offset then
        (case read_config T dev (offset - 0x100) data of
           (r, data') \<Rightarrow> (r, data', self\<lparr>mmio_device := mutex_release r dev\<rparr>))
      else (Ok (), copy_prefix (u32_to_le_bytes (mmio_register T dev (mmio_queue_sel self) offset)) data, self))"

text \<open>The value of a write: up to four bytes, padded with zeros.\<close>

definition mmio_value :: "u8 list \<Rightarrow> u32" where
  "mmio_value data = u32_from_le_bytes (copy_prefix data [0, 0, 0, 0])"

text \<open>\<open>let _ = dev.f(..)\<close> drops an error, but not a panic.\<close>

definition ignore_error :: "unit Result \<Rightarrow> unit Result" where
  "ignore_error r = (case r of Panic \<Rightarrow> Panic | _ \<Rightarrow> Ok ())"

definition mmio_write ::
  "('d, 'm, 'z) VirtioDevice_scheme \<Rightarrow> 'd VirtioMmioDevice \<Rightarrow> u64 \<Rightarrow> u8 list \<Rightarrow> 'm \<Rightarrow>
   (unit Result \<times> 'd VirtioMmioDevice \<times> 'm) option" where
  "mmio_write T self offset data m =
     (if mx_poisoned (mmio_device self) then Some (Panic, self, m)
      else let dev = mx_data (mmio_device self); val = mmio_value data in
      if 0x100 \<le> offset then
        (case write_config T dev (offset - 0x100) data of
           (r, dev') \<Rightarrow> Some (r, self\<lparr>mmio_device := mutex_release r dev'\<rparr>, m))
      else if offset = 0x20 then
        (case set_acked_features T dev (ucast val) of
           (r, dev') \<Rightarrow> Some (ignore_error r, self\<lparr>mmio_device := mutex_release r dev'\<rparr>, m))
      else if offset = 0x30 then Some (Ok (), self\<lparr>mmio_queue_sel := val\<rparr>, m)
      else if offset = 0x50 then
        (case process_queue T dev val m of
           None \<Rightarrow> None
         | Some (r, dev', m') \<Rightarrow> Some (ignore_error r, self\<lparr>mmio_device := mutex_release r dev'\<rparr>, m'))
      else Some (Ok (), self, m))"

text \<open>A sequence of writes of a driver, up to the first one that panics or does not return.\<close>

fun mmio_writes ::
  "('d, 'm, 'z) VirtioDevice_scheme \<Rightarrow> (u64 \<times> u8 list) list \<Rightarrow> 'd VirtioMmioDevice \<Rightarrow> 'm \<Rightarrow>
   (unit Result \<times> 'd VirtioMmioDevice \<times> 'm) option" where
  "mmio_writes T [] self m = Some (Ok (), self, m)"
| "mmio_writes T ((offset, data) # ws) self m =
     (case mmio_write T self offset data m of
        None \<Rightarrow> None
      | Some (Panic, self', m') \<Rightarrow> Some (Panic, self', m')
      | Some (_, self', m') \<Rightarrow> mmio_writes T ws self' m')"

section \<open>Lemmas\<close>

lemma mmio_value_le [simp]: "mmio_value (u32_to_le_bytes v) = v"
  by (simp add: mmio_value_def copy_prefix_same_length)

lemma ignore_error_panic: "ignore_error r = Panic \<longleftrightarrow> r = Panic"
  by (cases r) (simp_all add: ignore_error_def)

lemma mmio_read_register:
  "\<not> mx_poisoned (mmio_device self) \<Longrightarrow> offset < 0x100 \<Longrightarrow>
   mmio_read T self offset data =
     (Ok (), copy_prefix (u32_to_le_bytes (mmio_register T (mx_data (mmio_device self)) (mmio_queue_sel self) offset)) data, self)"
  by (auto simp: mmio_read_def Let_def dest: leD)

lemma mmio_write_panics_iff:
  assumes "\<not> mx_poisoned (mmio_device self)" and "mmio_write T self offset data m = Some (r, self', m')"
  shows "mx_poisoned (mmio_device self') \<longleftrightarrow> r = Panic"
  using assms
  by (auto simp: mmio_write_def Let_def ignore_error_panic mutex_release_poisoned
      split: if_splits prod.splits option.splits)

context virtio_device
begin

lemma mmio_write_identity:
  assumes "mmio_write T self offset data m = Some (r, self', m')"
  shows "same_identity T (mx_data (mmio_device self)) (mx_data (mmio_device self'))"
proof -
  have "same_identity T d d'" if "set_acked_features T d f = (x, d')" for d d' f x
    using that set_acked_identity [of d f] by simp
  moreover have "same_identity T d d'" if "write_config T d off bs = (x, d')" for d d' off bs x
    using that write_config_identity [of d off bs] by simp
  ultimately show ?thesis
    using assms process_queue_identity
    by (auto simp: mmio_write_def Let_def split: if_splits prod.splits option.splits)
qed

lemma mmio_writes_identity:
  "mmio_writes T ws self m = Some (r, self', m') \<Longrightarrow> \<not> mx_poisoned (mmio_device self) \<Longrightarrow>
   same_identity T (mx_data (mmio_device self)) (mx_data (mmio_device self')) \<and>
   (mx_poisoned (mmio_device self') \<longleftrightarrow> r = Panic)"
proof (induction ws arbitrary: self m)
  case Nil
  then show ?case by auto
next
  case (Cons w ws)
  obtain offset data where w: "w = (offset, data)" by (cases w)
  obtain r1 self1 m1 where w1: "mmio_write T self offset data m = Some (r1, self1, m1)"
    using Cons.prems(1) by (cases "mmio_write T self offset data m") (auto simp: w)
  note i1 = mmio_write_identity [OF w1] and p1 = mmio_write_panics_iff [OF Cons.prems(2) w1]
  show ?case
  proof (cases "r1 = Panic")
    case True
    with Cons.prems(1) w1 i1 p1 show ?thesis by (simp add: w)
  next
    case False
    then have "mmio_writes T ws self1 m1 = Some (r, self', m')"
      using Cons.prems(1) w1 by (cases r1) (simp_all add: w)
    from Cons.IH [OF this] False p1 i1 show ?thesis
      by (meson same_identity_trans)
  qed
qed

end

section \<open>Results\<close>

text \<open>
  C27. Whatever a driver writes, in whatever order, every register but the queue size reads the same
  before and after: the identification, the offered features, the interrupt status, and the fixed
  values.
\<close>

theorem mmio_registers_stable:
  assumes "virtio_device T" and "\<not> mx_poisoned (mmio_device self)"
    and "mmio_writes T ws self m = Some (Ok (), self', m')" and "offset < 0x100" and "offset \<noteq> 0x34"
  shows "\<exists>bytes. mmio_read T self offset data = (Ok (), bytes, self) \<and> mmio_read T self' offset data = (Ok (), bytes, self') \<and>
    length bytes = length data"
proof -
  have "same_identity T (mx_data (mmio_device self)) (mx_data (mmio_device self'))" "\<not> mx_poisoned (mmio_device self')"
    using virtio_device.mmio_writes_identity [OF assms(1,3,2)] by simp_all
  with assms(2,4,5) show ?thesis
    by (simp add: mmio_read_register mmio_register_def same_identity_def)
qed

text \<open>
  Selecting a queue and reading its size: the size of that queue, or 0 when the device has no
  such queue, for every selector value.
\<close>

theorem mmio_queue_select:
  assumes "\<not> mx_poisoned (mmio_device self)"
  shows "\<exists>self'. mmio_write T self 0x30 (u32_to_le_bytes k) m = Some (Ok (), self', m) \<and>
    mmio_read T self' 0x34 [0, 0, 0, 0] =
      (Ok (), u32_to_le_bytes (let qs = get_queues T (mx_data (mmio_device self)) in
         if unat k < length qs then ucast (qs ! unat k) else 0), self')"
proof -
  let ?self = "self\<lparr>mmio_queue_sel := k\<rparr>"
  have "mmio_write T self 0x30 (u32_to_le_bytes k) m = Some (Ok (), ?self, m)"
    using assms by (simp add: mmio_write_def Let_def)
  moreover have "copy_prefix (u32_to_le_bytes v) [0, 0, 0, 0] = u32_to_le_bytes v" for v
    by (simp add: copy_prefix_same_length)
  ultimately show ?thesis
    using assms by (simp add: mmio_read_register mmio_register_def Let_def)
qed

text \<open>
  C28. A device that panics while it processes a queue takes its whole register window down: the
  notification panics, and so does every later access.
\<close>

theorem mmio_poisoned_by_panic:
  assumes "\<not> mx_poisoned (mmio_device self)"
    and "process_queue T (mx_data (mmio_device self)) (mmio_value val) m = Some (Panic, dev', m')"
  shows "\<exists>self'. mmio_write T self 0x50 val m = Some (Panic, self', m') \<and>
    (\<forall>offset data m. fst (mmio_read T self' offset data) = Panic \<and>
       mmio_write T self' offset data m = Some (Panic, self', m))"
  using assms by (simp add: mmio_write_def mmio_read_def Let_def ignore_error_def)

end
