(* ===== verification/Hv_Console.thy ===== *)
theory Hv_Console
  imports Hv_Mmio
begin

text \<open>
  The console device (\<open>src/virtio/console.rs\<close>): the transmit queue is written to the host, the
  receive queue is not served.  A failed read of a descriptor leaves its part of the buffer as the
  memory crate left it, and a failed write to the host is dropped, as in the source.
\<close>

definition VIRTIO_ID_CONSOLE :: u32 where
  "VIRTIO_ID_CONSOLE = 3"

definition VIRTIO_CONSOLE_F_SIZE :: nat where
  "VIRTIO_CONSOLE_F_SIZE = 0"

record ConsoleConfig =
  cc_cols :: u16
  cc_rows :: u16
  cc_max_nr_ports :: u32
  cc_emerg_wr :: u32

record ('q, 'e) VirtioConsole =
  con_config :: "('q, 'e) VirtioDeviceConfig"
  con_output :: "writer mutex"
  con_space :: ConsoleConfig

definition VirtioConsole_new ::
  "('m, 'q, 'c, 'e, 'z) virtio_ops_scheme \<Rightarrow> u64 \<Rightarrow> u32 \<Rightarrow> writer mutex \<Rightarrow> ('q, 'e) VirtioConsole Result" where
  "VirtioConsole_new V guest_addr irq output =
     bind_outcome (map_err MemoryError (VirtioDeviceConfig_new V guest_addr irq 2)) (\<lambda>config.
     Ok \<lparr>con_config = config, con_output = output,
         con_space = \<lparr>cc_cols = 80, cc_rows = 24, cc_max_nr_ports = 1, cc_emerg_wr = 0\<rparr>\<rparr>)"

section \<open>Queues\<close>

definition console_rx_queue :: "('q, 'e) VirtioConsole \<Rightarrow> 'm \<Rightarrow> (unit Result \<times> ('q, 'e) VirtioConsole \<times> 'm) option" where
  "console_rx_queue self m = Some (Ok (), self, m)"

text \<open>One descriptor of a chain: its data is appended to the buffer unless it is for the device to
  write.\<close>

definition console_collect ::
  "('m, 'q, 'c, 'e, 'z) virtio_ops_scheme \<Rightarrow> descriptor \<Rightarrow> 'm \<Rightarrow> u8 list \<Rightarrow> bool Result \<times> 'm \<times> u8 list" where
  "console_collect V d m buf =
     (Ok True, m,
      if desc_write_only d then buf
      else buf @ snd (read_slice V m (replicate (unat (desc_len d)) 0) (desc_addr d)))"

text \<open>One chain; the state of the loop is \<open>used_any\<close> and the writer.\<close>

definition console_tx_chain ::
  "('m, 'q, 'c, 'e, 'z) virtio_ops_scheme \<Rightarrow> 'c \<Rightarrow> 'q \<Rightarrow> 'm \<Rightarrow> bool \<times> writer \<Rightarrow>
   (bool Result \<times> 'q \<times> 'm \<times> bool \<times> writer) option" where
  "console_tx_chain V desc_chain queue m s =
     (case s of (used_any, output) \<Rightarrow>
      let head_index = chain_head_index V desc_chain in
      Option.bind (for_chain V (console_collect V) desc_chain m []) (\<lambda>(r, m, buf).
      case r of
        Err e \<Rightarrow> Some (Err e, queue, m, True, output)
      | Panic \<Rightarrow> Some (Panic, queue, m, True, output)
      | Ok _ \<Rightarrow>
          let output = (if buf \<noteq> [] then snd (writer_write_all output buf) else output) in
          case queue_add_used V queue m head_index (word_of_nat (length buf)) of
            (_, queue, m) \<Rightarrow> Some (Ok True, queue, m, True, output)))"

definition console_tx_queue ::
  "('m, 'q, 'c, 'e, 'z) virtio_ops_scheme \<Rightarrow> ('q, 'e) VirtioConsole \<Rightarrow> 'm \<Rightarrow>
   (unit Result \<times> ('q, 'e) VirtioConsole \<times> 'm) option" where
  "console_tx_queue V self m =
     (if length (cfg_queues (con_config self)) \<le> 1 then Some (Panic, self, m)
      else if mx_poisoned (con_output self) then Some (Panic, self, m)
      else
      Option.bind (drain_queue V queue_iter_error (console_tx_chain V) (cfg_queues (con_config self) ! 1) m
          (False, mx_data (con_output self))) (\<lambda>(r, queue, m, used_any, output).
      let config = (con_config self)\<lparr>cfg_queues := (cfg_queues (con_config self))[1 := queue]\<rparr>;
          self = self\<lparr>con_config := config, con_output := mutex_release r output\<rparr> in
      case r of
        Ok _ \<Rightarrow>
          if used_any
          then (case signal_interrupt V config of (r, config) \<Rightarrow> Some (r, self\<lparr>con_config := config\<rparr>, m))
          else Some (Ok (), self, m)
      | _ \<Rightarrow> Some (r, self, m)))"

definition console_process_queue ::
  "('m, 'q, 'c, 'e, 'z) virtio_ops_scheme \<Rightarrow> ('q, 'e) VirtioConsole \<Rightarrow> u32 \<Rightarrow> 'm \<Rightarrow>
   (unit Result \<times> ('q, 'e) VirtioConsole \<times> 'm) option" where
  "console_process_queue V self queue_idx m =
     (if queue_idx = 0 then console_rx_queue self m
      else if queue_idx = 1 then console_tx_queue V self m
      else Some (Err (MemoryError ''Invalid queue index''), self, m))"

section \<open>The device\<close>

definition console_config_bytes :: "ConsoleConfig \<Rightarrow> u8 list" where
  "console_config_bytes c =
     u16_to_le_bytes (cc_cols c) @ u16_to_le_bytes (cc_rows c) @ u32_to_le_bytes (cc_max_nr_ports c) @
     u32_to_le_bytes (cc_emerg_wr c)"

definition console_device ::
  "('m, 'q, 'c, 'e, 'z) virtio_ops_scheme \<Rightarrow> (('q, 'e) VirtioConsole, 'm) VirtioDevice" where
  "console_device V =
     \<lparr>device_type = (\<lambda>self. VIRTIO_ID_CONSOLE),
      get_features = (\<lambda>self. push_bit VIRTIO_CONSOLE_F_SIZE 1),
      set_acked_features = (\<lambda>self features. (Ok (), self)),
      read_config = (\<lambda>self. read_config_space (console_config_bytes (con_space self))),
      write_config = (\<lambda>self offset data. (Ok (), self)),
      process_queue = console_process_queue V,
      get_queues = (\<lambda>self. config_queue_sizes V (con_config self)),
      get_interrupt_status = (\<lambda>self. 0),
      shutdown = default_shutdown,
      dev_mmio_read = default_mmio_read,
      dev_mmio_write = default_mmio_write,
      get_mmio_region = default_mmio_region\<rparr>"

section \<open>What is written\<close>

text \<open>The output of a chain, as the driver put it into memory.\<close>

definition console_chain_output :: "bytemap \<Rightarrow> vq_layout \<Rightarrow> nat \<Rightarrow> u8 list" where
  "console_chain_output f L h =
     concat (map (\<lambda>d. if desc_write_only d then [] else desc_bytes f d) (chain_descs (vq_size L) f L h))"

lemma fold_collect:
  "fold (\<lambda>d buf. if P d then buf else buf @ g d) ds buf = buf @ concat (map (\<lambda>d. if P d then [] else g d) ds)"
  by (induction ds arbitrary: buf) auto

context virtqueue
begin

lemma console_tx_chain_ok:
  assumes "layout_ok f L" and "chain_direct (vq_size L) f L h" and "list_all (desc_in_ram f L) (chain_descs (vq_size L) f L h)"
    and "invar m" and "chain_at c = (L, h, vq_size L)" and "chain_head_index V c = word_of_nat h"
    and "dom (view m) = dom f" and "\<And>x. x < vq_used L \<or> vq_used L + (6 + 8 * vq_size L) \<le> x \<Longrightarrow> view m x = f x"
    and "wr_faults out = []"
  shows "console_tx_chain V c q m (b, out) =
    (case queue_add_used V q m (word_of_nat h) (word_of_nat (length (console_chain_output f L h))) of
       (_, q', m') \<Rightarrow> Some (Ok True, q', m', True, out\<lparr>written := written out @ console_chain_output f L h\<rparr>))"
proof -
  let ?ds = "chain_descs (vq_size L) f L h"
  have sr: "same_rings L (view m) f"
    using assms(1,8) by (auto simp: same_rings_def layout_ok_def apart_def)
  have "for_chain V (console_collect V) c m [] =
      Some (Ok (), m, fold (\<lambda>d buf. if desc_write_only d then buf
        else buf @ snd (read_slice V m (replicate (unat (desc_len d)) 0) (desc_addr d))) ?ds [])"
    using for_chain_pure [OF assms(4), of "console_collect V" _ c L h "vq_size L" "[]"] assms(1,2,5)
      mapped_cong [OF assms(7)] same_rings_chain [OF sr]
    by (simp add: console_collect_def layout_ok_def)
  also have "\<dots> = Some (Ok (), m, console_chain_output f L h)"
  proof -
    have "snd (read_slice V m (replicate (unat (desc_len d)) 0) (desc_addr d)) = desc_bytes f d" if "d \<in> set ?ds" for d
      using read_desc_bytes [OF assms(4), of f L d] assms(3,7,8) that by (auto simp: list_all_iff)
    then show ?thesis
      by (auto simp: fold_collect console_chain_output_def intro!: arg_cong [of _ _ concat] map_cong)
  qed
  finally show ?thesis
    using assms(6,9) by (auto simp: console_tx_chain_def writer_write_all_quiet)
qed

lemma console_chain_max_size:
  assumes "console_tx_chain V c q m s = Some (r, q', m', s')"
  shows "queue_max_size V q' = queue_max_size V q"
proof -
  have "queue_max_size V q2 = queue_max_size V q1" if "queue_add_used V q1 m1 k len = (x, q2, m2)" for q1 m1 k len x q2 m2
    using add_used_max_size [of q1 m1 k len] that by simp
  then show ?thesis
    using assms by (auto simp: console_tx_chain_def Let_def split: prod.splits outcome.splits Option.bind_splits)
qed

lemma console_queue_sizes:
  assumes "console_process_queue V d i m = Some (r, d', m')"
  shows "config_queue_sizes V (con_config d') = config_queue_sizes V (con_config d)"
proof -
  let ?c = "con_config d"
  have u: "config_queue_sizes V (?c\<lparr>cfg_queues := (cfg_queues ?c)[1 := q]\<rparr>) = config_queue_sizes V ?c"
    if "\<not> length (cfg_queues ?c) \<le> 1"
      "drain_queue V queue_iter_error (console_tx_chain V) (cfg_queues ?c ! 1) m s = Some (x, q, m2, s2)" for q m2 s x s2
    using that drain_max_size [OF that(2) console_chain_max_size] by (intro config_queue_sizes_update) simp_all
  have g: "config_queue_sizes V c2 = config_queue_sizes V c1" if "signal_interrupt V c1 = (x, c2)" for c1 c2 x
    using config_queue_sizes_signal [of V V c1] that by simp
  show ?thesis
    using assms u g
    by (auto simp: console_process_queue_def console_rx_queue_def console_tx_queue_def Let_def
        split: if_splits prod.splits outcome.splits Option.bind_splits)
qed

end

sublocale virtqueue \<subseteq> con: virtio_device "console_device V"
proof (unfold_locales, goal_cases)
  case (4 d i m r d' m')
  then show ?case
    by (simp add: same_identity_def console_device_def console_queue_sizes)
qed (simp_all add: console_device_def)

section \<open>Results\<close>

text \<open>
  C11. The transmit queue under the virtqueue contract: the call returns, everything the driver made
  available is written to the host in order and nothing else, every chain is completed in the used
  ring with the number of its bytes, memory outside the used ring is untouched, and the interrupt
  is signalled exactly when there was a chain.
\<close>

theorem console_tx_correct:
  assumes "virtqueue V invar view q_state chain_at chain_fuel" and "invar m"
    and "1 < length (cfg_queues (con_config self))"
    and "q_state (cfg_queues (con_config self) ! 1) = \<lparr>st_ready = True, st_layout = L, st_next_avail = n, st_next_used = u\<rparr>"
    and "n < 65536" and "u < 65536" and "layout_ok (view m) L" and "driver_ok (view m) L n"
    and "hs = pending_heads (view m) L n" and "chains_in_ram (view m) L hs"
    and "\<not> mx_poisoned (con_output self)" and "wr_faults (mx_data (con_output self)) = []"
    and "cfg_interrupt_evt (con_config self) = Some e" and "evt_write V e 1 = (None, e')"
  shows "\<exists>self' m'. console_process_queue V self 1 m = Some (Ok (), self', m') \<and>
    written (mx_data (con_output self')) = written (mx_data (con_output self)) @ concat (map (console_chain_output (view m) L) hs) \<and>
    (\<forall>k < length hs. used_elem (view m') L (u + k) = (hs ! k, length (console_chain_output (view m) L (hs ! k)) mod 2 ^ 32)) \<and>
    (\<forall>x. x < vq_used L \<or> vq_used L + (6 + 8 * vq_size L) \<le> x \<longrightarrow> view m' x = view m x) \<and>
    cfg_interrupt_evt (con_config self') = (if hs = [] then Some e else Some e')"
proof -
  note vq = assms(1) and lo = assms(7) and dr = assms(8)
  let ?q = "cfg_queues (con_config self) ! 1" and ?out = "mx_data (con_output self)"
  let ?o = "console_chain_output (view m) L"
  let ?upd = "\<lambda>h (b :: bool, out). (True, out\<lparr>written := written out @ ?o h\<rparr>)"
  have direct: "h < vq_size L \<and> chain_direct (vq_size L) (view m) L h" "list_all (desc_in_ram (view m) L) (chain_descs (vq_size L) (view m) L h)"
    if "h \<in> set hs" for h
    using that dr assms(9,10) by (auto simp: driver_ok_def chains_in_ram_def list_all_iff)
  have body: "console_tx_chain V c q ma s = (case queue_add_used V q ma (word_of_nat h) (word_of_nat (length (?o h))) of
        (_, q', m') \<Rightarrow> Some (Ok True, q', m', ?upd h s)) \<and> wr_faults (snd (?upd h s)) = []"
    if "h \<in> set hs" "invar ma" "chain_at c = (L, h, vq_size L)" "chain_head_index V c = word_of_nat h" "dom (view ma) = dom (view m)"
      "\<And>x. x < vq_used L \<or> vq_used L + (6 + 8 * vq_size L) \<le> x \<Longrightarrow> view ma x = view m x" "wr_faults (snd s) = []"
    for c q ma s h
    using virtqueue.console_tx_chain_ok [OF vq lo _ direct(2) that(2-6), of "snd s" q "fst s"] direct(1) that(1,7)
    by (simp add: split_beta)
  have "\<exists>q' m'. drain_queue V queue_iter_error (console_tx_chain V) ?q m (False, ?out) =
      Some (Ok (), q', m', fold ?upd hs (False, ?out)) \<and> invar m' \<and> wr_faults (snd (fold ?upd hs (False, ?out))) = [] \<and>
      q_state q' = \<lparr>st_ready = True, st_layout = L, st_next_avail = (n + length hs) mod 65536,
        st_next_used = (u + length hs) mod 65536\<rparr> \<and>
      view m' = put_useds (view m) L u (map (\<lambda>h. (h, length (?o h) mod 2 ^ 32)) hs)"
    by (rule virtqueue.drain_service [OF vq lo, where S = "\<lambda>s. wr_faults (snd s) = []"], rule body)
      (use assms in auto)
  then obtain q' m' where d: "drain_queue V queue_iter_error (console_tx_chain V) ?q m (False, ?out) =
      Some (Ok (), q', m', fold ?upd hs (False, ?out))"
    and v: "view m' = put_useds (view m) L u (map (\<lambda>h. (h, length (?o h) mod 2 ^ 32)) hs)"
    by blast
  have f: "fold ?upd hs (b, out) = (b \<or> hs \<noteq> [], out\<lparr>written := written out @ concat (map ?o hs)\<rparr>)" for b out
    by (induction hs arbitrary: b out) auto
  have "used_elem (view m') L (u + k) = (hs ! k, length (?o (hs ! k)) mod 2 ^ 32)" if "k < length hs" for k
    using served_used_elem [OF lo dr assms(9) that] by (simp add: v)
  moreover have "view m' x = view m x" if "x < vq_used L \<or> vq_used L + (6 + 8 * vq_size L) \<le> x" for x
    using put_useds_other [OF lo that] by (simp add: v)
  ultimately show ?thesis
    using assms(3,11,13,14)
    by (auto simp: console_process_queue_def console_tx_queue_def d [unfolded One_nat_def] f signal_interrupt_def Let_def)
qed

definition demo_console :: "(split_queue, u64) VirtioConsole" where
  "demo_console =
     \<lparr>con_config = \<lparr>cfg_guest_mem = 0, cfg_irq = 6, cfg_queues = [demo_queue, demo_queue], cfg_interrupt_evt = Some 0\<rparr>,
      con_output = mutex_new \<lparr>written = [], wr_faults = []\<rparr>,
      con_space = \<lparr>cc_cols = 80, cc_rows = 24, cc_max_nr_ports = 1, cc_emerg_wr = 0\<rparr>\<rparr>"

lemma demo_chains_in_ram: "chains_in_ram (flat_view demo_ram) demo_layout (pending_heads (flat_view demo_ram) demo_layout 0)"
  by (simp add: chains_in_ram_def demo_pending demo_descs desc_in_ram_def demo_mapped)
    (simp add: apart_def demo_layout_def)

theorem console_tx_correct_witness:
  "\<exists>self' m'. console_process_queue flat_virtio demo_console 1 demo_ram = Some (Ok (), self', m') \<and>
     written (mx_data (con_output self')) = [104, 105] \<and> used_elem (flat_view m') demo_layout 0 = (0, 2) \<and>
     cfg_interrupt_evt (con_config self') = Some 1"
proof -
  have o: "console_chain_output (flat_view demo_ram) demo_layout 0 = [104, 105]"
    by (simp add: console_chain_output_def demo_descs desc_bytes_def demo_bytes_at demo_byte_def)
  have w: "evt_write flat_virtio 0 1 = (None, 1)"
    by (simp add: counter_write_def)
  show ?thesis
    using console_tx_correct [OF fq.virtqueue_axioms demo_invar _ _ _ _ demo_layout_ok demo_driver_ok refl demo_chains_in_ram _ _ _ w,
        of demo_console 0]
    by (auto simp: demo_console_def demo_queue_def demo_pending o)
qed

text \<open>The transport in front of the console, for the results on registers.\<close>

definition demo_window :: "(split_queue, u64) VirtioConsole VirtioMmioDevice" where
  "demo_window = VirtioMmioDevice_new demo_console 0x2000"

theorem mmio_registers_stable_witness:
  "\<exists>self' m'. mmio_writes (console_device flat_virtio) [(0x30, [1, 0, 0, 0]), (0x20, [1])] demo_window demo_ram = Some (Ok (), self', m') \<and>
     fst (snd (mmio_read (console_device flat_virtio) self' 0x08 [9, 9, 9, 9])) =
     fst (snd (mmio_read (console_device flat_virtio) demo_window 0x08 [9, 9, 9, 9]))"
proof -
  obtain self' m' where w: "mmio_writes (console_device flat_virtio) [(0x30, [1, 0, 0, 0]), (0x20, [1])] demo_window demo_ram = Some (Ok (), self', m')"
    by (simp add: demo_window_def VirtioMmioDevice_new_def mmio_write_def console_device_def Let_def ignore_error_def)
  show ?thesis
    using mmio_registers_stable [OF fq.con.virtio_device_axioms _ w, of "0x08" "[9, 9, 9, 9]"] w
    by (auto simp: demo_window_def VirtioMmioDevice_new_def)
qed

theorem mmio_queue_select_witness:
  "\<exists>self'. mmio_write (console_device flat_virtio) demo_window 0x30 (u32_to_le_bytes 2) demo_ram = Some (Ok (), self', demo_ram) \<and>
     fst (snd (mmio_read (console_device flat_virtio) self' 0x34 [0, 0, 0, 0])) = u32_to_le_bytes 0"
  using mmio_queue_select [of demo_window "console_device flat_virtio" 2 demo_ram]
  by (auto simp: demo_window_def VirtioMmioDevice_new_def demo_console_def console_device_def config_queue_sizes_def)

theorem mmio_poisoned_by_panic_witness:
  "let w = VirtioMmioDevice_new (demo_console\<lparr>con_output := mutex_release (Panic :: unit Result) \<lparr>written = [], wr_faults = []\<rparr>\<rparr>) 0x2000 in
   \<exists>self'. mmio_write (console_device flat_virtio) w 0x50 [1] demo_ram = Some (Panic, self', demo_ram) \<and>
     fst (mmio_read (console_device flat_virtio) self' 0 [0]) = Panic"
proof -
  let ?d = "demo_console\<lparr>con_output := mutex_release (Panic :: unit Result) \<lparr>written = [], wr_faults = []\<rparr>\<rparr>"
  have v: "mmio_value [1] = 1"
    by (simp add: mmio_value_def copy_prefix_def u32_from_le_bytes_def)
  have "process_queue (console_device flat_virtio) (mx_data (mmio_device (VirtioMmioDevice_new ?d 0x2000))) (mmio_value [1]) demo_ram =
      Some (Panic, ?d, demo_ram)"
    by (simp add: v VirtioMmioDevice_new_def console_device_def console_process_queue_def console_tx_queue_def demo_console_def)
  from mmio_poisoned_by_panic [OF _ this] show ?thesis
    by (auto simp: Let_def VirtioMmioDevice_new_def)
qed

end
