(* ===== verification/Hv_Block.thy ===== *)
theory Hv_Block
  imports Hv_Mmio
begin

text \<open>
  The block device (\<open>src/virtio/block.rs\<close>): a disk image behind a \<open>Mutex\<close>, requests taken from one
  queue.  The source has the request handling twice: as the methods \<open>process_request\<close>,
  \<open>handle_read\<close> and \<open>handle_write\<close>, which report errors, and inlined in \<open>process_queue\<close>, where
  errors of the disk and of the data transfer are dropped.  Both are modelled; they agree whenever
  the methods report no error.
\<close>

unbundle bit_operations_syntax

definition VIRTIO_ID_BLOCK :: u32 where "VIRTIO_ID_BLOCK = 2"

definition VIRTIO_BLK_F_RO :: u64 where "VIRTIO_BLK_F_RO = push_bit 5 1"
definition VIRTIO_BLK_F_BLK_SIZE :: u64 where "VIRTIO_BLK_F_BLK_SIZE = push_bit 6 1"
definition VIRTIO_BLK_F_FLUSH :: u64 where "VIRTIO_BLK_F_FLUSH = push_bit 9 1"
definition VIRTIO_BLK_F_TOPOLOGY :: u64 where "VIRTIO_BLK_F_TOPOLOGY = push_bit 10 1"
definition VIRTIO_F_VERSION_1 :: u64 where "VIRTIO_F_VERSION_1 = push_bit 32 1"

definition VIRTIO_BLK_T_IN :: u32 where "VIRTIO_BLK_T_IN = 0"
definition VIRTIO_BLK_T_OUT :: u32 where "VIRTIO_BLK_T_OUT = 1"
definition VIRTIO_BLK_T_FLUSH :: u32 where "VIRTIO_BLK_T_FLUSH = 4"

definition VIRTIO_BLK_S_OK :: u8 where "VIRTIO_BLK_S_OK = 0"
definition VIRTIO_BLK_S_IOERR :: u8 where "VIRTIO_BLK_S_IOERR = 1"
definition VIRTIO_BLK_S_UNSUPP :: u8 where "VIRTIO_BLK_S_UNSUPP = 2"

record ('q, 'e) VirtioBlock =
  blk_config :: "('q, 'e) VirtioDeviceConfig"
  blk_disk :: "host_file mutex"
  blk_disk_size :: u64
  blk_block_size :: u32
  blk_read_only :: bool

definition VirtioBlock_new ::
  "('m, 'q, 'c, 'e, 'z) virtio_ops_scheme \<Rightarrow> host_disks \<Rightarrow> u64 \<Rightarrow> u32 \<Rightarrow> string \<Rightarrow> bool \<Rightarrow> ('q, 'e) VirtioBlock Result" where
  "VirtioBlock_new V disks guest_addr irq disk_path read_only =
     (case file_open disks disk_path (\<not> read_only) of
        Inl e \<Rightarrow> Err (IoError (IoErr Other (''Failed to open disk image: '' @ io_error_to_string e)))
      | Inr file \<Rightarrow>
     (case file_len file of
        (Inl e, _) \<Rightarrow> Err (IoError e)
      | (Inr disk_size, file) \<Rightarrow>
     bind_outcome (map_err (\<lambda>e. MemoryError (''Failed to create virtio config: '' @ e))
         (VirtioDeviceConfig_new V guest_addr irq 1)) (\<lambda>config.
     Ok \<lparr>blk_config = config, blk_disk = mutex_new file, blk_disk_size = disk_size, blk_block_size = 512,
         blk_read_only = read_only\<rparr>)))"

section \<open>Requests that report errors\<close>

text \<open>The state of a request is the disk and guest memory.\<close>

definition read_slice_or ::
  "('m, 'z) gmem_ops_scheme \<Rightarrow> (gm_error \<Rightarrow> HypervisorError) \<Rightarrow> 'm \<Rightarrow> u8 list \<Rightarrow> u64 \<Rightarrow> u8 list Result" where
  "read_slice_or V f m buf a = (case read_slice V m buf a of (None, b) \<Rightarrow> Ok b | (Some e, b) \<Rightarrow> Err (f e))"

definition disk_seek :: "u64 \<Rightarrow> host_file \<times> 'm \<Rightarrow> unit Result \<times> host_file \<times> 'm" where
  "disk_seek offset s =
     (case file_seek (fst s) offset of (None, disk) \<Rightarrow> (Ok (), disk, snd s) | (Some e, disk) \<Rightarrow> (Err (IoError e), disk, snd s))"

definition disk_read_exact :: "nat \<Rightarrow> host_file \<times> 'm \<Rightarrow> u8 list Result \<times> host_file \<times> 'm" where
  "disk_read_exact len s =
     (case file_read_exact (fst s) (replicate len 0) of
        (None, buf, disk) \<Rightarrow> (Ok buf, disk, snd s)
      | (Some e, buf, disk) \<Rightarrow> (Err (IoError e), disk, snd s))"

definition disk_write_all :: "u8 list \<Rightarrow> host_file \<times> 'm \<Rightarrow> unit Result \<times> host_file \<times> 'm" where
  "disk_write_all buf s =
     (case file_write_all (fst s) buf of
        (None, disk) \<Rightarrow> (Ok (), disk, snd s)
      | (Some e, disk) \<Rightarrow> (Err (IoError e), disk, snd s))"

definition guest_write :: "('m, 'z) gmem_ops_scheme \<Rightarrow> u8 list \<Rightarrow> u64 \<Rightarrow> host_file \<times> 'm \<Rightarrow> unit Result \<times> host_file \<times> 'm" where
  "guest_write V buf a s = (case write_slice_or V from_guest_memory_error (snd s) buf a of (r, m) \<Rightarrow> (r, fst s, m))"

definition block_handle_read ::
  "profile \<Rightarrow> ('m, 'z) gmem_ops_scheme \<Rightarrow> u32 \<Rightarrow> descriptor \<Rightarrow> host_file \<times> 'm \<Rightarrow> unit Result \<times> host_file \<times> 'm" where
  "block_handle_read p V block_size d s =
     and_then (read_slice_or V (\<lambda>_. MemoryError ''Failed to read sector'') (snd s) (replicate 8 0) (desc_addr d), s) (\<lambda>sector_buf s.
     and_then (mul_u64 p (u64_from_le_bytes sector_buf) (ucast block_size), s) (\<lambda>offset s.
     and_then (disk_seek offset s) (\<lambda>_ s.
     and_then (disk_read_exact (unat (desc_len d) - 16) s) (\<lambda>buf s.
     case checked_add_u64 (desc_addr d) 16 of
       None \<Rightarrow> (Err (MemoryError ''Invalid descriptor address''), s)
     | Some write_addr \<Rightarrow> guest_write V buf write_addr s))))"

definition block_handle_write ::
  "profile \<Rightarrow> ('m, 'z) gmem_ops_scheme \<Rightarrow> u32 \<Rightarrow> descriptor \<Rightarrow> host_file \<times> 'm \<Rightarrow> unit Result \<times> host_file \<times> 'm" where
  "block_handle_write p V block_size d s =
     and_then (read_slice_or V (\<lambda>_. MemoryError ''Failed to read sector'') (snd s) (replicate 8 0) (desc_addr d), s) (\<lambda>sector_buf s.
     and_then (mul_u64 p (u64_from_le_bytes sector_buf) (ucast block_size), s) (\<lambda>offset s.
     and_then (disk_seek offset s) (\<lambda>_ s.
     case checked_add_u64 (desc_addr d) 16 of
       None \<Rightarrow> (Err (MemoryError ''Invalid descriptor address''), s)
     | Some read_addr \<Rightarrow>
         and_then (read_slice_or V from_guest_memory_error (snd s) (replicate (unat (desc_len d) - 16) 0) read_addr, s) (\<lambda>buf s.
         disk_write_all buf s))))"

text \<open>A descriptor of a request that goes on after it unless an error leaves the function.\<close>

definition go_on :: "unit Result \<times> host_file \<times> 'm \<Rightarrow> u8 \<Rightarrow> bool Result \<times> 'm \<times> host_file \<times> u8" where
  "go_on x status = (case x of (r, disk, m) \<Rightarrow> (bind_outcome r (\<lambda>_. Ok True), m, disk, status))"

definition block_request_step ::
  "profile \<Rightarrow> ('m, 'z) gmem_ops_scheme \<Rightarrow> u32 \<Rightarrow> bool \<Rightarrow> descriptor \<Rightarrow> 'm \<Rightarrow> host_file \<times> u8 \<Rightarrow>
   bool Result \<times> 'm \<times> host_file \<times> u8" where
  "block_request_step p V block_size read_only d m s =
     (case s of (disk, status) \<Rightarrow>
      case read_slice V m (replicate 4 0) (desc_addr d) of
        (Some e, _) \<Rightarrow> (Err (MemoryError ''Failed to read request type''), m, disk, status)
      | (None, req_type_buf) \<Rightarrow>
          let req_type = u32_from_le_bytes req_type_buf in
          if req_type = VIRTIO_BLK_T_IN then go_on (block_handle_read p V block_size d (disk, m)) status
          else if req_type = VIRTIO_BLK_T_OUT then
            if read_only then (Ok False, m, disk, VIRTIO_BLK_S_IOERR)
            else go_on (block_handle_write p V block_size d (disk, m)) status
          else if req_type = VIRTIO_BLK_T_FLUSH then
            (case file_flush disk of
               (None, disk) \<Rightarrow> (Ok True, m, disk, status)
             | (Some e, disk) \<Rightarrow>
                 (Err (IoError (IoErr Other (''Failed to flush disk: '' @ io_error_to_string e))), m, disk, status))
          else (Ok False, m, disk, VIRTIO_BLK_S_UNSUPP))"

definition block_process_request ::
  "profile \<Rightarrow> ('m, 'q, 'c, 'e, 'z) virtio_ops_scheme \<Rightarrow> ('q, 'e) VirtioBlock \<Rightarrow> 'c \<Rightarrow> 'm \<Rightarrow>
   (u8 Result \<times> host_file mutex \<times> 'm) option" where
  "block_process_request p V self desc_chain m =
     (if mx_poisoned (blk_disk self) then Some (Panic, blk_disk self, m)
      else Option.bind (for_chain V (block_request_step p V (blk_block_size self) (blk_read_only self)) desc_chain m
          (mx_data (blk_disk self), VIRTIO_BLK_S_OK)) (\<lambda>(r, m, disk, status).
      Some (bind_outcome r (\<lambda>_. Ok status), mutex_release r disk, m)))"

section \<open>Requests as the queue handles them\<close>

definition block_queue_step ::
  "profile \<Rightarrow> ('m, 'z) gmem_ops_scheme \<Rightarrow> u32 \<Rightarrow> bool \<Rightarrow> descriptor \<Rightarrow> 'm \<Rightarrow> host_file \<times> u8 \<Rightarrow>
   bool Result \<times> 'm \<times> host_file \<times> u8" where
  "block_queue_step p V block_size read_only d m s =
     (case s of (disk, status) \<Rightarrow>
      case read_slice V m (replicate 4 0) (desc_addr d) of
        (Some e, _) \<Rightarrow> (Err (MemoryError ''Failed to read request type''), m, disk, status)
      | (None, req_type_buf) \<Rightarrow>
          let req_type = u32_from_le_bytes req_type_buf;
              sector = u64_from_le_bytes (snd (read_slice V m (replicate 8 0) (desc_addr d)));
              buf_len = unat (desc_len d) - 16 in
          if req_type = VIRTIO_BLK_T_IN then
            and_then (mul_u64 p sector (ucast block_size), m, disk, status) (\<lambda>offset _.
            let disk = snd (file_seek disk offset) in
            case file_read_exact disk (replicate buf_len 0) of (_, buf, disk) \<Rightarrow>
              (case checked_add_u64 (desc_addr d) 16 of
                 Some write_addr \<Rightarrow> (Ok True, snd (write_slice V m buf write_addr), disk, status)
               | None \<Rightarrow> (Ok True, m, disk, status)))
          else if req_type = VIRTIO_BLK_T_OUT then
            if read_only then (Ok False, m, disk, VIRTIO_BLK_S_IOERR)
            else and_then (mul_u64 p sector (ucast block_size), m, disk, status) (\<lambda>offset _.
            let disk = snd (file_seek disk offset);
                buf = (case checked_add_u64 (desc_addr d) 16 of
                         Some read_addr \<Rightarrow> snd (read_slice V m (replicate buf_len 0) read_addr)
                       | None \<Rightarrow> replicate buf_len 0) in
            (Ok True, m, snd (file_write_all disk buf), status))
          else if req_type = VIRTIO_BLK_T_FLUSH then (Ok True, m, snd (file_flush disk), status)
          else (Ok False, m, disk, VIRTIO_BLK_S_UNSUPP))"

text \<open>One chain; the state of the loop is the locked disk.\<close>

definition block_queue_chain ::
  "profile \<Rightarrow> ('m, 'q, 'c, 'e, 'z) virtio_ops_scheme \<Rightarrow> u32 \<Rightarrow> bool \<Rightarrow> 'c \<Rightarrow> 'q \<Rightarrow> 'm \<Rightarrow> host_file mutex \<Rightarrow>
   (bool Result \<times> 'q \<times> 'm \<times> host_file mutex) option" where
  "block_queue_chain p V block_size read_only desc_chain queue m disk =
     (if mx_poisoned disk then Some (Panic, queue, m, disk)
      else Option.bind (for_chain V (block_queue_step p V block_size read_only) desc_chain m
          (mx_data disk, VIRTIO_BLK_S_OK)) (\<lambda>(r, m, file, status).
      case r of
        Ok _ \<Rightarrow>
          (case queue_add_used V queue m (chain_head_index V desc_chain) (ucast status) of
             (None, queue, m) \<Rightarrow> Some (Ok True, queue, m, mutex_release r file)
           | (Some e, queue, m) \<Rightarrow>
               Some (Err (MemoryError (''Failed to add used descriptor: '' @ e)), queue, m, mutex_release r file))
      | Err e \<Rightarrow> Some (Err e, queue, m, mutex_release r file)
      | Panic \<Rightarrow> Some (Panic, queue, m, mutex_release r file)))"

definition block_process_queue ::
  "profile \<Rightarrow> ('m, 'q, 'c, 'e, 'z) virtio_ops_scheme \<Rightarrow> ('q, 'e) VirtioBlock \<Rightarrow> u32 \<Rightarrow> 'm \<Rightarrow>
   (unit Result \<times> ('q, 'e) VirtioBlock \<times> 'm) option" where
  "block_process_queue p V self queue_idx m =
     (if queue_idx \<noteq> 0 then Some (Err (MemoryError ''Invalid queue index for block device''), self, m)
      else if cfg_queues (blk_config self) = [] then Some (Err (MemoryError ''Queue not found''), self, m)
      else
      Option.bind (drain_queue V queue_iter_error (block_queue_chain p V (blk_block_size self) (blk_read_only self))
          (cfg_queues (blk_config self) ! 0) m (blk_disk self)) (\<lambda>(r, queue, m, disk).
      let config = (blk_config self)\<lparr>cfg_queues := (cfg_queues (blk_config self))[0 := queue]\<rparr>;
          self = self\<lparr>blk_config := config, blk_disk := disk\<rparr> in
      case r of
        Ok _ \<Rightarrow> (case signal_interrupt V config of (r, config) \<Rightarrow> Some (r, self\<lparr>blk_config := config\<rparr>, m))
      | _ \<Rightarrow> Some (r, self, m)))"

section \<open>The device\<close>

definition block_features :: "('q, 'e) VirtioBlock \<Rightarrow> u64" where
  "block_features self =
     (let features = VIRTIO_F_VERSION_1 OR VIRTIO_BLK_F_BLK_SIZE OR VIRTIO_BLK_F_FLUSH OR VIRTIO_BLK_F_TOPOLOGY in
      if blk_read_only self then features OR VIRTIO_BLK_F_RO else features)"

text \<open>The packed structure \<open>BlockConfig\<close>, field by field.\<close>

record BlockGeometry =
  bg_cylinders :: u16
  bg_heads :: u8
  bg_sectors :: u8

record BlockTopology =
  bt_physical_block_exp :: u8
  bt_alignment_offset :: u8
  bt_min_io_size :: u16
  bt_opt_io_size :: u32

record BlockConfig =
  bc_capacity :: u64
  bc_size_max :: u32
  bc_seg_max :: u32
  bc_geometry :: BlockGeometry
  bc_block_size :: u32
  bc_topology :: BlockTopology
  bc_writeback :: u8
  bc_unused :: "u8 list"
  bc_max_discard_sectors :: u32
  bc_max_discard_seg :: u32
  bc_discard_sector_alignment :: u32
  bc_max_write_zeroes_sectors :: u32
  bc_max_write_zeroes_seg :: u32
  bc_write_zeroes_may_unmap :: u8
  bc_unused2 :: "u8 list"

definition block_config_of :: "('q, 'e) VirtioBlock \<Rightarrow> BlockConfig" where
  "block_config_of self =
     \<lparr>bc_capacity = blk_disk_size self div ucast (blk_block_size self), bc_size_max = 131072, bc_seg_max = 32,
      bc_geometry = \<lparr>bg_cylinders = 0, bg_heads = 16, bg_sectors = 63\<rparr>, bc_block_size = blk_block_size self,
      bc_topology = \<lparr>bt_physical_block_exp = 0, bt_alignment_offset = 0, bt_min_io_size = 512, bt_opt_io_size = 0\<rparr>,
      bc_writeback = 0, bc_unused = [0, 0, 0], bc_max_discard_sectors = 0, bc_max_discard_seg = 0,
      bc_discard_sector_alignment = 0, bc_max_write_zeroes_sectors = 0, bc_max_write_zeroes_seg = 0,
      bc_write_zeroes_may_unmap = 0, bc_unused2 = [0, 0, 0]\<rparr>"

text \<open>The bytes of the packed structures on a little-endian host.\<close>

definition BlockGeometry_bytes :: "BlockGeometry \<Rightarrow> u8 list" where
  "BlockGeometry_bytes g = u16_to_le_bytes (bg_cylinders g) @ [bg_heads g, bg_sectors g]"

definition BlockTopology_bytes :: "BlockTopology \<Rightarrow> u8 list" where
  "BlockTopology_bytes t =
     [bt_physical_block_exp t, bt_alignment_offset t] @ u16_to_le_bytes (bt_min_io_size t) @ u32_to_le_bytes (bt_opt_io_size t)"

definition BlockConfig_bytes :: "BlockConfig \<Rightarrow> u8 list" where
  "BlockConfig_bytes c =
     u64_to_le_bytes (bc_capacity c) @ u32_to_le_bytes (bc_size_max c) @ u32_to_le_bytes (bc_seg_max c) @
     BlockGeometry_bytes (bc_geometry c) @ u32_to_le_bytes (bc_block_size c) @ BlockTopology_bytes (bc_topology c) @
     [bc_writeback c] @ bc_unused c @ u32_to_le_bytes (bc_max_discard_sectors c) @ u32_to_le_bytes (bc_max_discard_seg c) @
     u32_to_le_bytes (bc_discard_sector_alignment c) @ u32_to_le_bytes (bc_max_write_zeroes_sectors c) @
     u32_to_le_bytes (bc_max_write_zeroes_seg c) @ [bc_write_zeroes_may_unmap c] @ bc_unused2 c"

definition block_config_bytes :: "('q, 'e) VirtioBlock \<Rightarrow> u8 list" where
  "block_config_bytes self = BlockConfig_bytes (block_config_of self)"

definition block_read_config :: "('q, 'e) VirtioBlock \<Rightarrow> u64 \<Rightarrow> u8 list \<Rightarrow> unit Result \<times> u8 list" where
  "block_read_config self offset data =
     (if blk_block_size self = 0 then (Panic, data) else read_config_space (block_config_bytes self) offset data)"

definition block_device ::
  "profile \<Rightarrow> ('m, 'q, 'c, 'e, 'z) virtio_ops_scheme \<Rightarrow> (('q, 'e) VirtioBlock, 'm) VirtioDevice" where
  "block_device p V =
     \<lparr>device_type = (\<lambda>self. VIRTIO_ID_BLOCK),
      get_features = block_features,
      set_acked_features = (\<lambda>self features. (Ok (), self)),
      read_config = block_read_config,
      write_config = (\<lambda>self offset data. (Ok (), self)),
      process_queue = block_process_queue p V,
      get_queues = (\<lambda>self. config_queue_sizes V (blk_config self)),
      get_interrupt_status = (\<lambda>self. 0),
      shutdown = default_shutdown,
      dev_mmio_read = default_mmio_read,
      dev_mmio_write = default_mmio_write,
      get_mmio_region = default_mmio_region\<rparr>"

section \<open>Lemmas\<close>

lemma mul_u64_cases: "mul_u64 p a b = Ok (a * b) \<or> mul_u64 p a b = Panic"
  by (simp add: mul_u64_def)

lemma block_handle_read_Ok:
  assumes "block_handle_read p V bs d (disk, m) = (Ok (), disk', m')"
  obtains sector_buf offset buf a where "read_slice V m (replicate 8 0) (desc_addr d) = (None, sector_buf)"
    and "mul_u64 p (u64_from_le_bytes sector_buf) (ucast bs) = (Ok offset :: u64 Result)"
    and "file_seek disk offset = (None, snd (file_seek disk offset))"
    and "file_read_exact (snd (file_seek disk offset)) (replicate (unat (desc_len d) - 16) 0) = (None, buf, disk')"
    and "checked_add_u64 (desc_addr d) 16 = Some a" and "write_slice V m buf a = (None, m')"
proof -
  note run = assms [unfolded block_handle_read_def]
  obtain x sector_buf where r: "read_slice V m (replicate 8 0) (desc_addr d) = (x, sector_buf)"
    by (cases "read_slice V m (replicate 8 0) (desc_addr d)")
  then have x: "x = None"
    using run by (cases x) (simp_all add: read_slice_or_def)
  let ?mul = "mul_u64 p (u64_from_le_bytes sector_buf) (ucast bs) :: u64 Result"
  obtain offset where o: "?mul = Ok offset"
    using run r x by (cases ?mul) (simp_all add: read_slice_or_def)
  obtain y dk where sk: "file_seek disk offset = (y, dk)"
    by (cases "file_seek disk offset")
  then have y: "y = None"
    using run r x o by (cases y) (simp_all add: read_slice_or_def disk_seek_def)
  obtain z buf dk' where re: "file_read_exact dk (replicate (unat (desc_len d) - 16) 0) = (z, buf, dk')"
    by (cases "file_read_exact dk (replicate (unat (desc_len d) - 16) 0)")
  then have z: "z = None"
    using run r x o sk y by (cases z) (simp_all add: read_slice_or_def disk_seek_def disk_read_exact_def)
  obtain a where a: "checked_add_u64 (desc_addr d) 16 = Some a"
    using run r x o sk y re z
    by (cases "checked_add_u64 (desc_addr d) 16") (simp_all add: read_slice_or_def disk_seek_def disk_read_exact_def)
  obtain v m1 where w: "write_slice V m buf a = (v, m1)"
    by (cases "write_slice V m buf a")
  then have v: "v = None \<and> m1 = m' \<and> dk' = disk'"
    using run r x o sk y re z a
    by (cases v) (simp_all add: read_slice_or_def disk_seek_def disk_read_exact_def guest_write_def write_slice_or_def)
  show thesis
    by (rule that [of sector_buf offset buf a]) (use r x o sk y re z a w v in simp_all)
qed

lemma block_handle_write_Ok:
  assumes "block_handle_write p V bs d (disk, m) = (Ok (), disk', m')"
  obtains sector_buf offset buf a where "read_slice V m (replicate 8 0) (desc_addr d) = (None, sector_buf)"
    and "mul_u64 p (u64_from_le_bytes sector_buf) (ucast bs) = (Ok offset :: u64 Result)"
    and "file_seek disk offset = (None, snd (file_seek disk offset))"
    and "checked_add_u64 (desc_addr d) 16 = Some a"
    and "read_slice V m (replicate (unat (desc_len d) - 16) 0) a = (None, buf)"
    and "file_write_all (snd (file_seek disk offset)) buf = (None, disk')" and "m' = m"
proof -
  note run = assms [unfolded block_handle_write_def]
  obtain x sector_buf where r: "read_slice V m (replicate 8 0) (desc_addr d) = (x, sector_buf)"
    by (cases "read_slice V m (replicate 8 0) (desc_addr d)")
  then have x: "x = None"
    using run by (cases x) (simp_all add: read_slice_or_def)
  let ?mul = "mul_u64 p (u64_from_le_bytes sector_buf) (ucast bs) :: u64 Result"
  obtain offset where o: "?mul = Ok offset"
    using run r x by (cases ?mul) (simp_all add: read_slice_or_def)
  obtain y dk where sk: "file_seek disk offset = (y, dk)"
    by (cases "file_seek disk offset")
  then have y: "y = None"
    using run r x o by (cases y) (simp_all add: read_slice_or_def disk_seek_def)
  obtain a where a: "checked_add_u64 (desc_addr d) 16 = Some a"
    using run r x o sk y
    by (cases "checked_add_u64 (desc_addr d) 16") (simp_all add: read_slice_or_def disk_seek_def)
  obtain z buf where re: "read_slice V m (replicate (unat (desc_len d) - 16) 0) a = (z, buf)"
    by (cases "read_slice V m (replicate (unat (desc_len d) - 16) 0) a")
  then have z: "z = None"
    using run r x o sk y a by (cases z) (simp_all add: read_slice_or_def disk_seek_def)
  obtain v dk' where w: "file_write_all dk buf = (v, dk')"
    by (cases "file_write_all dk buf")
  then have v: "v = None \<and> dk' = disk' \<and> m' = m"
    using run r x o sk y re z a
    by (cases v) (simp_all add: read_slice_or_def disk_seek_def disk_write_all_def)
  show thesis
    by (rule that [of sector_buf offset a buf]) (use r x o sk y re z a w v in simp_all)
qed

lemma block_step_refines:
  assumes "block_request_step p V bs ro d m s = (Ok go, m', s')"
  shows "block_queue_step p V bs ro d m s = (Ok go, m', s')"
proof -
  obtain disk status where s: "s = (disk, status)" by (cases s)
  obtain b where b: "read_slice V m (replicate 4 0) (desc_addr d) = (None, b)"
    using assms by (auto simp: block_request_step_def s split: prod.splits option.splits)
  note req = assms [unfolded block_request_step_def s, simplified b, simplified, unfolded Let_def]
  note queue = block_queue_step_def s b Let_def
  consider "u32_from_le_bytes b = VIRTIO_BLK_T_IN" | "u32_from_le_bytes b = VIRTIO_BLK_T_OUT" "\<not> ro"
    | "u32_from_le_bytes b \<noteq> VIRTIO_BLK_T_IN" "u32_from_le_bytes b = VIRTIO_BLK_T_OUT \<longrightarrow> ro"
    by blast
  then show ?thesis
  proof cases
    case 1
    obtain r disk' m1 where h: "block_handle_read p V bs d (disk, m) = (r, disk', m1)"
      by (cases "block_handle_read p V bs d (disk, m)")
    with req 1 have ok: "r = Ok ()" "m1 = m'" "s' = (disk', status)" "go"
      by (cases r; simp add: go_on_def)+
    show ?thesis
      by (rule block_handle_read_Ok [OF h [unfolded ok(1,2)]]) (use 1 ok(3,4) in \<open>simp add: queue\<close>)
  next
    case 2
    have no: "VIRTIO_BLK_T_OUT \<noteq> VIRTIO_BLK_T_IN"
      by (simp add: VIRTIO_BLK_T_OUT_def VIRTIO_BLK_T_IN_def)
    obtain r disk' m1 where h: "block_handle_write p V bs d (disk, m) = (r, disk', m1)"
      by (cases "block_handle_write p V bs d (disk, m)")
    with req 2 no have ok: "r = Ok ()" "m1 = m'" "s' = (disk', status)" "go"
      by (cases r; simp add: go_on_def)+
    show ?thesis
      by (rule block_handle_write_Ok [OF h [unfolded ok(1,2)]]) (use 2 no ok(3,4) in \<open>simp add: queue\<close>)
  next
    case 3
    with req show ?thesis
      by (auto simp: queue file_flush_def split: if_splits)
  qed
qed

lemma block_step_read_only:
  "contents (fst (snd (snd (block_queue_step p V bs True d m s)))) = contents (fst s)"
  by (cases s; cases "mul_u64 p (u64_from_le_bytes (snd (read_slice V m (replicate 8 0) (desc_addr d)))) (ucast bs) :: u64 Result")
    (simp_all add: block_queue_step_def Let_def split_beta split: option.split prod.split)

lemma block_chain_read_only:
  assumes "block_queue_chain p V bs True c q m disk = Some (r, q', m', disk')"
  shows "contents (mx_data disk') = contents (mx_data disk)"
proof (cases "mx_poisoned disk")
  case True
  with assms show ?thesis by (simp add: block_queue_chain_def)
next
  case False
  then obtain r1 m1 f1 st1 where fc: "for_chain V (block_queue_step p V bs True) c m (mx_data disk, VIRTIO_BLK_S_OK) = Some (r1, m1, f1, st1)"
    using assms by (auto simp: block_queue_chain_def split: Option.bind_splits)
  have "contents (fst (snd (snd (r1, m1, f1, st1)))) = contents (mx_data disk)"
    by (rule for_chain_inv [OF fc, of "\<lambda>m s. contents (fst s) = contents (mx_data disk)"]) (simp_all add: block_step_read_only)
  then show ?thesis
    using assms fc False
    by (auto simp: block_queue_chain_def split: outcome.splits prod.splits option.splits)
qed

text \<open>A data buffer that does not overlap what the driver owns of the queue.\<close>

definition block_buffer_apart :: "vq_layout \<Rightarrow> descriptor \<Rightarrow> bool" where
  "block_buffer_apart L d \<longleftrightarrow>
     apart (unat (desc_addr d) + 16) (unat (desc_len d) - 16) (vq_desc L) (16 * vq_size L) \<and>
     apart (unat (desc_addr d) + 16) (unat (desc_len d) - 16) (vq_avail L) (6 + 2 * vq_size L)"

lemma same_rings_refl [simp]: "same_rings L f f"
  by (simp add: same_rings_def)

lemma same_rings_trans: "same_rings L f g \<Longrightarrow> same_rings L g h \<Longrightarrow> same_rings L f h"
  by (simp add: same_rings_def)

lemma unat_checked_add_16: "checked_add_u64 a 16 = Some b \<Longrightarrow> unat b = unat a + 16"
  by (auto simp: checked_add_u64_def unat_word_ariths split: if_splits)

context virtqueue
begin

lemma block_step_frame:
  assumes "invar m" and "block_buffer_apart L d"
  shows "let m' = fst (snd (block_queue_step p V bs ro d m s)) in
    invar m' \<and> dom (view m') = dom (view m) \<and> same_rings L (view m') (view m)"
proof -
  have w: "invar m' \<and> dom (view m') = dom (view m) \<and> same_rings L (view m') (view m)"
    if "m' = snd (write_slice V m buf a)" "checked_add_u64 (desc_addr d) 16 = Some a" "length buf = unat (desc_len d) - 16" for m' buf a
    using write_invar [OF assms(1), of buf a] write_dom [OF assms(1), of buf a] write_frame [OF assms(1), of _ a buf]
      assms(2) that unat_checked_add_16 [OF that(2)]
    by (auto simp: same_rings_def block_buffer_apart_def apart_def)
  obtain disk status where s: "s = (disk, status)" by (cases s)
  have r: "length (fst (snd (file_read_exact f (replicate k 0)))) = k" for f k
    by simp
  show ?thesis
    using assms(1) w [OF refl _ r]
    by (cases "mul_u64 p (u64_from_le_bytes (snd (read_slice V m (replicate 8 0) (desc_addr d)))) (ucast bs) :: u64 Result")
      (auto simp: block_queue_step_def s Let_def split_beta split: option.split prod.split)
qed

lemma block_chain_returns:
  assumes "layout_ok f0 L" and "chain_direct (vq_size L) f0 L h" and "h < vq_size L"
    and "list_all (block_buffer_apart L) (chain_descs (vq_size L) f0 L h)"
    and "invar m" and "dom (view m) = dom f0" and "same_rings L (view m) f0"
    and "chain_at c = (L, h, vq_size L)" and "chain_head_index V c = word_of_nat h"
    and "q_state q = \<lparr>st_ready = True, st_layout = L, st_next_avail = n, st_next_used = u\<rparr>"
  shows "\<exists>r q' m' disk' u'. block_queue_chain p V bs ro c q m disk = Some (r, q', m', disk') \<and>
    invar m' \<and> dom (view m') = dom f0 \<and> same_rings L (view m') f0 \<and>
    q_state q' = \<lparr>st_ready = True, st_layout = L, st_next_avail = n, st_next_used = u'\<rparr>"
proof (cases "mx_poisoned disk")
  case True
  with assms(5-7,10) show ?thesis by (simp add: block_queue_chain_def)
next
  case False
  let ?P = "\<lambda>m (s :: host_file \<times> u8). invar m \<and> dom (view m) = dom f0 \<and> same_rings L (view m) f0"
  have step: "?P (fst (snd (block_queue_step p V bs ro d m s))) (snd (snd (block_queue_step p V bs ro d m s)))"
    if "d \<in> set (chain_descs (vq_size L) f0 L h)" "?P m s" for d m s
    using block_step_frame [of m L d p bs ro s] assms(4) that
    by (auto simp: Let_def list_all_iff intro: same_rings_trans)
  have "\<exists>r m' s'. for_chain V (block_queue_step p V bs ro) c m (mx_data disk, VIRTIO_BLK_S_OK) = Some (r, m', s') \<and> ?P m' s'"
    by (rule for_chain_frame [where P = ?P, OF _ _ assms(8,2)]) (use assms step in \<open>auto simp: layout_ok_def\<close>)
  then obtain r m1 f1 status where fc: "for_chain V (block_queue_step p V bs ro) c m (mx_data disk, VIRTIO_BLK_S_OK) = Some (r, m1, f1, status)"
    and m1: "invar m1" "dom (view m1) = dom f0" "same_rings L (view m1) f0"
    by auto
  have lo: "layout_ok (view m1) L"
    using assms(1) layout_ok_dom [OF m1(2)] by simp
  have "vq_size L \<le> 65536"
    using assms(1) by (auto simp: layout_ok_def intro: dvd_imp_le)
  then obtain q2 m2 where a: "queue_add_used V q m1 (word_of_nat h) (ucast status) = (None, q2, m2)" "invar m2"
    "q_state q2 = (q_state q)\<lparr>st_next_used := Suc u mod 65536\<rparr>" "view m2 = put_used (view m1) L u h (unat (ucast status :: u32))"
    using add_used_ok [OF m1(1), of q "word_of_nat h" "ucast status"] assms(3,10) lo by (auto simp: unat_of_nat)
  have "dom (view m2) = dom f0" "same_rings L (view m2) f0"
    using dom_put_used [OF lo] same_rings_trans [OF put_used_same_rings [OF lo] m1(3)] m1(2) by (simp_all add: a(4))
  with fc False m1 a(1-3) assms(9,10) show ?thesis
    by (cases r) (auto simp: block_queue_chain_def)
qed

lemma block_drain_returns:
  assumes "invar m" and "q_state q = \<lparr>st_ready = True, st_layout = L, st_next_avail = n, st_next_used = u\<rparr>"
    and "layout_ok (view m) L" and "driver_ok (view m) L n"
    and "list_all (\<lambda>h. list_all (block_buffer_apart L) (chain_descs (vq_size L) (view m) L h)) (pending_heads (view m) L n)"
  shows "\<exists>res. drain_queue V e (block_queue_chain p V bs ro) q m disk = Some res"
proof -
  define f0 where "f0 = view m"
  define I where "I hs q m (s :: host_file mutex) \<longleftrightarrow> invar m \<and> dom (view m) = dom f0 \<and> same_rings L (view m) f0 \<and>
    list_all (\<lambda>h. list_all (block_buffer_apart L) (chain_descs (vq_size L) f0 L h)) hs \<and>
    (\<exists>n u. q_state q = \<lparr>st_ready = True, st_layout = L, st_next_avail = n, st_next_used = u\<rparr> \<and> driver_ok f0 L n \<and>
       pending_heads f0 L n = hs)" for hs q m s
  have lo: "layout_ok f0 L" and dv: "vq_size L dvd 65536" and s0: "0 < vq_size L"
    using assms(3) by (simp_all add: f0_def layout_ok_def)
  show ?thesis
  proof (rule drain_queue_returns [where I = I])
    show "I (pending_heads f0 L n) q m disk"
      using assms by (auto simp: I_def f0_def)
  next
    fix h hs q m s
    assume i: "I (h # hs) q m s"
    then obtain n u where q: "q_state q = \<lparr>st_ready = True, st_layout = L, st_next_avail = n, st_next_used = u\<rparr>"
      and dr: "driver_ok f0 L n" and pend: "pending_heads f0 L n = h # hs"
      by (auto simp: I_def)
    have m: "invar m" "dom (view m) = dom f0" "same_rings L (view m) f0" using i by (simp_all add: I_def)
    note nx = driver_ok_Suc [OF dr pend dv]
    have lom: "layout_ok (view m) L" using lo layout_ok_dom [OF m(2)] by simp
    obtain c q1 where c: "queue_next V q m = (Inr (Some c), q1)" "q_state q1 = (q_state q)\<lparr>st_next_avail := Suc n mod 65536\<rparr>"
      "chain_head_index V c = word_of_nat h" "chain_at c = (L, h, vq_size L)"
      using next_some [OF m(1), of q h hs] q lom pend dr same_rings_pending [OF m(3) s0] by (auto simp: driver_ok_def)
    have "\<exists>r q' m' s' u'. block_queue_chain p V bs ro c q1 m s = Some (r, q', m', s') \<and>
        invar m' \<and> dom (view m') = dom f0 \<and> same_rings L (view m') f0 \<and>
        q_state q' = \<lparr>st_ready = True, st_layout = L, st_next_avail = Suc n mod 65536, st_next_used = u'\<rparr>"
      by (rule block_chain_returns [OF lo nx(3,2) _ m c(4,3), where u = u]) (use i c(2) q in \<open>auto simp: I_def\<close>)
    with c(1) nx(1,4) i show "\<exists>c q1 r q' m' s'. queue_next V q m = (Inr (Some c), q1) \<and>
        block_queue_chain p V bs ro c q1 m s = Some (r, q', m', s') \<and> (r = Ok True \<longrightarrow> I hs q' m' s')"
      by (fastforce simp: I_def)
  next
    fix q m s
    assume i: "I [] q m s"
    then have m: "invar m" "dom (view m) = dom f0" "same_rings L (view m) f0" by (simp_all add: I_def)
    have "layout_ok (view m) L" using lo layout_ok_dom [OF m(2)] by simp
    with i next_none [OF m(1), of q] same_rings_pending [OF m(3) s0] show "fst (queue_next V q m) = Inr None"
      by (auto simp: I_def)
  qed
qed

lemma block_chain_max_size:
  assumes "block_queue_chain p V bs ro c q m disk = Some (r, q', m', disk')"
  shows "queue_max_size V q' = queue_max_size V q"
proof -
  have "queue_max_size V q2 = queue_max_size V q1" if "queue_add_used V q1 m1 k len = (x, q2, m2)" for q1 m1 k len x q2 m2
    using add_used_max_size [of q1 m1 k len] that by simp
  then show ?thesis
    using assms by (auto simp: block_queue_chain_def split: if_splits prod.splits option.splits outcome.splits Option.bind_splits)
qed

lemma block_queue_sizes:
  assumes "block_process_queue p V d i m = Some (r, d', m')"
  shows "config_queue_sizes V (blk_config d') = config_queue_sizes V (blk_config d) \<and> blk_read_only d' = blk_read_only d"
proof -
  let ?c = "blk_config d"
  have u: "config_queue_sizes V (?c\<lparr>cfg_queues := (cfg_queues ?c)[0 := q]\<rparr>) = config_queue_sizes V ?c"
    if "cfg_queues ?c \<noteq> []"
      "drain_queue V queue_iter_error (block_queue_chain p V bs ro) (cfg_queues ?c ! 0) m s = Some (x, q, m2, s2)" for q m2 s x s2 bs ro
    using that drain_max_size [OF that(2) block_chain_max_size] by (intro config_queue_sizes_update) simp_all
  have g: "config_queue_sizes V c2 = config_queue_sizes V c1" if "signal_interrupt V c1 = (x, c2)" for c1 c2 x
    using config_queue_sizes_signal [of V V c1] that by simp
  show ?thesis
    using assms u g
    by (auto simp: block_process_queue_def Let_def split: if_splits prod.splits outcome.splits Option.bind_splits)
qed

end

sublocale virtqueue \<subseteq> blk: virtio_device "block_device p V" for p
proof (unfold_locales, goal_cases)
  case (1 d off data)
  show ?case by (simp add: block_device_def block_read_config_def)
next
  case (4 d i m r d' m')
  then show ?case
    by (simp add: same_identity_def block_device_def block_queue_sizes block_features_def)
qed (simp_all add: block_device_def)

section \<open>Results\<close>

text \<open>
  C4. A device opened read-only never changes the disk image, whatever the guest has put into the
  queue and into memory, and whatever the queue and the memory do.
\<close>

theorem block_read_only_safe:
  assumes "blk_read_only self" and "block_process_queue p V self i m = Some (r, self', m')"
  shows "contents (mx_data (blk_disk self')) = contents (mx_data (blk_disk self))"
proof -
  have "contents (mx_data disk') = contents (mx_data (blk_disk self))"
    if "drain_queue V queue_iter_error (block_queue_chain p V bs True) q m (blk_disk self) = Some (x, q', m1, disk')" for bs q x q' m1 disk'
    using drain_queue_inv [OF that, of "\<lambda>q m disk. contents (mx_data disk) = contents (mx_data (blk_disk self))"]
      block_chain_read_only by (metis fst_conv snd_conv)
  with assms show ?thesis
    by (auto simp: block_process_queue_def Let_def split: if_splits prod.splits outcome.splits Option.bind_splits)
qed

text \<open>
  C12. The two versions of the request handling agree: when \<open>process_request\<close> reports no error, the
  loop of \<open>process_queue\<close> leaves disk and memory in the same state and completes the chain with the
  status that \<open>process_request\<close> returns.
\<close>

theorem block_queue_refines_request:
  assumes "block_process_request p V self c m = Some (Ok status, disk', m')"
  shows "block_queue_chain p V (blk_block_size self) (blk_read_only self) c q m (blk_disk self) =
    (case queue_add_used V q m' (chain_head_index V c) (ucast status) of
       (None, q', m2) \<Rightarrow> Some (Ok True, q', m2, disk')
     | (Some e, q', m2) \<Rightarrow> Some (Err (MemoryError (''Failed to add used descriptor: '' @ e)), q', m2, disk'))"
proof -
  have np: "\<not> mx_poisoned (blk_disk self)"
    using assms by (auto simp: block_process_request_def)
  with assms obtain r f where
    fc: "for_chain V (block_request_step p V (blk_block_size self) (blk_read_only self)) c m (mx_data (blk_disk self), VIRTIO_BLK_S_OK) =
      Some (r, m', f, status)" "r = Ok ()" "disk' = mutex_release r f"
    by (auto simp: block_process_request_def bind_outcome_def split: Option.bind_splits outcome.splits)
  have "for_chain V (block_queue_step p V (blk_block_size self) (blk_read_only self)) c m (mx_data (blk_disk self), VIRTIO_BLK_S_OK) =
      Some (r, m', f, status)"
    by (rule for_chain_refines [OF fc(1)]) (simp_all add: fc(2) block_step_refines)
  with np show ?thesis
    unfolding fc(2,3) by (simp add: block_queue_chain_def)
qed

text \<open>
  C13. Serving the queue ends, in both build profiles and with whatever outcome, when the driver
  follows the specification and its data buffers do not overlap its own rings.  (A read into the
  available ring can make the loop run forever.)
\<close>

theorem block_process_queue_returns:
  assumes "virtqueue V invar view q_state chain_at chain_fuel" and "invar m"
    and "cfg_queues (blk_config self) = [q]"
    and "q_state q = \<lparr>st_ready = True, st_layout = L, st_next_avail = n, st_next_used = u\<rparr>"
    and "layout_ok (view m) L" and "driver_ok (view m) L n"
    and "list_all (\<lambda>h. list_all (block_buffer_apart L) (chain_descs (vq_size L) (view m) L h)) (pending_heads (view m) L n)"
  shows "\<exists>r self' m'. block_process_queue p V self 0 m = Some (r, self', m')"
proof -
  obtain r q' m' disk' where "drain_queue V queue_iter_error (block_queue_chain p V (blk_block_size self) (blk_read_only self)) q m (blk_disk self) =
      Some (r, q', m', disk')"
    using virtqueue.block_drain_returns [OF assms(1,2,4-7)] by fast
  then show ?thesis
    using assms(3) by (cases r) (simp_all add: block_process_queue_def Let_def split_beta)
qed

definition demo_block :: "bool \<Rightarrow> (split_queue, u64) VirtioBlock" where
  "demo_block read_only =
     \<lparr>blk_config = \<lparr>cfg_guest_mem = 0, cfg_irq = 5, cfg_queues = [demo_queue], cfg_interrupt_evt = Some 0\<rparr>,
      blk_disk = mutex_new \<lparr>contents = [1, 2, 3], file_pos = 0, writable = \<not> read_only, io_faults = []\<rparr>,
      blk_disk_size = 3, blk_block_size = 512, blk_read_only = read_only\<rparr>"

lemma demo_buffers_apart:
  "list_all (\<lambda>h. list_all (block_buffer_apart demo_layout) (chain_descs (vq_size demo_layout) (flat_view demo_ram) demo_layout h))
     (pending_heads (flat_view demo_ram) demo_layout 0)"
  by (simp add: demo_pending demo_descs) (simp add: block_buffer_apart_def apart_def demo_layout_def)

theorem block_process_queue_returns_witness:
  "\<exists>r self' m'. block_process_queue Debug flat_virtio (demo_block False) 0 demo_ram = Some (r, self', m')"
  using block_process_queue_returns [OF fq.virtqueue_axioms demo_invar _ _ demo_layout_ok demo_driver_ok demo_buffers_apart,
      of "demo_block False" demo_queue 0 Debug]
  by (simp add: demo_block_def demo_queue_def)

theorem block_read_only_safe_witness:
  "\<exists>r self' m'. block_process_queue Release flat_virtio (demo_block True) 0 demo_ram = Some (r, self', m') \<and>
     contents (mx_data (blk_disk self')) = [1, 2, 3]"
proof -
  have st: "sq_state demo_queue = \<lparr>st_ready = True, st_layout = demo_layout, st_next_avail = 0, st_next_used = 0\<rparr>"
    by (simp add: demo_queue_def)
  obtain res where "drain_queue flat_virtio queue_iter_error (block_queue_chain Release flat_virtio 512 True) demo_queue demo_ram
      (blk_disk (demo_block True)) = Some res"
    using fq.block_drain_returns [OF demo_invar st demo_layout_ok demo_driver_ok demo_buffers_apart] by blast
  then have "\<exists>r self' m'. block_process_queue Release flat_virtio (demo_block True) 0 demo_ram = Some (r, self', m')"
    by (cases res; cases "fst res") (simp_all add: demo_block_def block_process_queue_def Let_def split_beta)
  then obtain r self' m' where run: "block_process_queue Release flat_virtio (demo_block True) 0 demo_ram = Some (r, self', m')"
    by blast
  from block_read_only_safe [OF _ this] run show ?thesis
    by (simp add: demo_block_def)
qed

text \<open>The chain of the reference queue is a request of a type that the device does not know.\<close>

lemma demo_request:
  "for_chain flat_virtio (block_request_step p flat_virtio bs ro) (demo_layout, 0, vq_size demo_layout) demo_ram (disk, st) =
     Some (Ok (), demo_ram, disk, VIRTIO_BLK_S_UNSUPP)"
proof -
  have d: "descriptor_at (flat_view demo_ram) demo_layout 0 = \<lparr>desc_addr = 0x4000, desc_len = 2, desc_write_only = False\<rparr>"
    using demo_descs(1) by (simp add: demo_layout_def)
  have n: "fst (split_chain_next (demo_layout, 0, vq_size demo_layout) demo_ram) = Some \<lparr>desc_addr = 0x4000, desc_len = 2, desc_write_only = False\<rparr>"
    using demo_descs(2) d by (simp add: split_chain_next_def) (simp add: demo_layout_def)
  have "flat_read demo_ram (replicate 4 0) 0x4000 = (None, [104, 105, 0, 0])"
    by (simp add: flat_read_def demo_mapped demo_bytes_at demo_byte_def)
  then have "block_request_step p flat_virtio bs ro \<lparr>desc_addr = 0x4000, desc_len = 2, desc_write_only = False\<rparr> demo_ram (disk, st) =
      (Ok False, demo_ram, disk, VIRTIO_BLK_S_UNSUPP)"
    by (simp add: block_request_step_def u32_from_le_bytes_def VIRTIO_BLK_T_IN_def VIRTIO_BLK_T_OUT_def VIRTIO_BLK_T_FLUSH_def)
  with n show ?thesis
    by (subst for_chain.simps) (auto split: prod.split)
qed

theorem block_queue_refines_request_witness:
  "\<exists>q' m' disk'. block_queue_chain Debug flat_virtio 512 False (demo_layout, 0, vq_size demo_layout) demo_queue demo_ram
     (blk_disk (demo_block False)) = Some (Ok True, q', m', disk') \<and> contents (mx_data disk') = [1, 2, 3]"
proof -
  have r: "block_process_request Debug flat_virtio (demo_block False) (demo_layout, 0, vq_size demo_layout) demo_ram =
      Some (Ok VIRTIO_BLK_S_UNSUPP, blk_disk (demo_block False), demo_ram)"
    by (simp add: block_process_request_def demo_request) (simp add: demo_block_def mutex_new_def mutex_release_def)
  from block_queue_refines_request [OF this, of demo_queue] show ?thesis
    using demo_layout_ok by (simp add: split_add_used_def demo_queue_def demo_block_def Let_def) (simp add: demo_layout_def)
qed

section \<open>Sectors and data\<close>

lemma le_nat_take: "le_nat (take k bs) = le_nat bs mod 256 ^ k"
proof (induction k arbitrary: bs)
  case 0
  then show ?case by simp
next
  case (Suc k)
  show ?case
  proof (cases bs)
    case (Cons b cs)
    have "(unat b + 256 * le_nat cs) mod (256 * 256 ^ k) = unat b + 256 * (le_nat cs mod 256 ^ k)"
      using unat_bounds(1) [of b] by (simp add: mod_mult2_eq)
    with Cons Suc.IH show ?thesis by simp
  qed simp
qed

lemma file_seek_pos: "file_seek f off = (None, f') \<Longrightarrow> file_pos f' = unat off"
  by (auto simp: file_seek_def split: if_splits)

lemma file_read_exact_None:
  assumes "file_read_exact f (replicate k 0) = (None, buf, f')"
  shows "file_pos f' = file_pos f + k \<and> contents f' = contents f \<and> (0 < k \<longrightarrow> buf = take k (drop (file_pos f) (contents f)))"
  using assms
  by (cases k) (auto simp: file_read_exact_def Let_def split: option.splits if_splits)

lemma file_write_all_None:
  assumes "file_write_all f buf = (None, f')"
  shows "file_pos f' = file_pos f + length buf \<and> contents f' = overwrite_at (contents f) (file_pos f) buf"
  using assms by (auto simp: file_write_all_def overwrite_at_def split: option.splits if_splits)

lemma sector_of_request:
  assumes "guest_memory V invar view" and "invar m" and "read_slice V m (replicate 4 0) a = (None, type_buf)"
    and "read_slice V m (replicate 8 0) a = (None, sector_buf)"
  shows "unat (u64_from_le_bytes sector_buf) mod 2 ^ 32 = unat (u32_from_le_bytes type_buf)"
proof -
  have r: "mapped (view m) (unat a) k \<and> b = bytes_at (view m) (unat a) k"
    if "read_slice V m (replicate k 0) a = (None, b)" "0 < k" for k b
    using guest_memory.read_err [OF assms(1,2), of "replicate k 0" a] guest_memory.read_ok [OF assms(1,2), of "replicate k 0" a] that
    by (cases "mapped (view m) (unat a) k") auto
  have "type_buf = take 4 sector_buf"
    using r [OF assms(3)] r [OF assms(4)] by (simp add: bytes_at_def take_map)
  moreover have "length sector_buf = 8"
    using r [OF assms(4)] by simp
  ultimately show ?thesis
    using le_nat_bound [of sector_buf] le_nat_bound [of type_buf]
    by (simp add: u64_from_le_bytes_def u32_from_le_bytes_def unat_of_nat le_nat_take)
qed

lemma sector_offset:
  assumes "mul_u64 p s (ucast (512 :: u32)) = (Ok off :: u64 Result)"
  shows "unat off mod 2 ^ 41 = 512 * (unat s mod 2 ^ 32)"
proof -
  have "off = s * 512"
    using assms by (auto simp: mul_u64_def split: if_splits)
  then have "unat off = (512 * unat s) mod 2 ^ 64"
    by (simp add: unat_word_ariths mult.commute)
  then have "unat off mod 2 ^ 41 = (512 * unat s) mod 2 ^ 41"
    by (simp add: mod_mod_cancel)
  then show ?thesis
    by (simp add: mult_mod_right)
qed

text \<open>
  C30. The request type and the sector number are read from the same address, so a request that is
  handled as a read starts at a multiple of 2 TiB, and one that is handled as a write 512 bytes
  after one: of a smaller disk only sector 0 can be read and only sector 1 be written.
\<close>

theorem block_reachable_sectors:
  assumes "guest_memory V invar view" and "invar m"
    and "read_slice V m (replicate 4 0) (desc_addr d) = (None, type_buf)"
  shows "(u32_from_le_bytes type_buf = VIRTIO_BLK_T_IN \<and> block_handle_read p V 512 d (disk, m) = (Ok (), disk', m') \<longrightarrow>
      (file_pos disk' - (unat (desc_len d) - 16)) mod 2 ^ 41 = 0) \<and>
    (u32_from_le_bytes type_buf = VIRTIO_BLK_T_OUT \<and> block_handle_write p V 512 d (disk, m) = (Ok (), disk', m') \<longrightarrow>
      (file_pos disk' - (unat (desc_len d) - 16)) mod 2 ^ 41 = 512)"
proof (intro conjI impI; elim conjE)
  assume t: "u32_from_le_bytes type_buf = VIRTIO_BLK_T_IN" and h: "block_handle_read p V 512 d (disk, m) = (Ok (), disk', m')"
  show "(file_pos disk' - (unat (desc_len d) - 16)) mod 2 ^ 41 = 0"
  proof (rule block_handle_read_Ok [OF h])
    fix sector_buf offset buf a
    assume r: "read_slice V m (replicate 8 0) (desc_addr d) = (None, sector_buf)"
      and o: "mul_u64 p (u64_from_le_bytes sector_buf) (ucast (512 :: u32)) = (Ok offset :: u64 Result)"
      and sk: "file_seek disk offset = (None, snd (file_seek disk offset))"
      and re: "file_read_exact (snd (file_seek disk offset)) (replicate (unat (desc_len d) - 16) 0) = (None, buf, disk')"
    have "file_pos disk' - (unat (desc_len d) - 16) = unat offset"
      using file_read_exact_None [OF re] file_seek_pos [OF sk] by simp
    then show ?thesis
      using sector_offset [OF o] sector_of_request [OF assms(1-3) r] t by (simp add: VIRTIO_BLK_T_IN_def)
  qed
next
  assume t: "u32_from_le_bytes type_buf = VIRTIO_BLK_T_OUT" and h: "block_handle_write p V 512 d (disk, m) = (Ok (), disk', m')"
  show "(file_pos disk' - (unat (desc_len d) - 16)) mod 2 ^ 41 = 512"
  proof (rule block_handle_write_Ok [OF h])
    fix sector_buf offset buf a
    assume r: "read_slice V m (replicate 8 0) (desc_addr d) = (None, sector_buf)"
      and o: "mul_u64 p (u64_from_le_bytes sector_buf) (ucast (512 :: u32)) = (Ok offset :: u64 Result)"
      and sk: "file_seek disk offset = (None, snd (file_seek disk offset))"
      and re: "read_slice V m (replicate (unat (desc_len d) - 16) 0) a = (None, buf)"
      and w: "file_write_all (snd (file_seek disk offset)) buf = (None, disk')"
    have "length buf = unat (desc_len d) - 16"
      using guest_memory.read_length [OF assms(1), of m "replicate (unat (desc_len d) - 16) 0" a] re by simp
    then have "file_pos disk' - (unat (desc_len d) - 16) = unat offset"
      using file_write_all_None [OF w] file_seek_pos [OF sk] by simp
    then show ?thesis
      using sector_offset [OF o] sector_of_request [OF assms(1-3) r] t by (simp add: VIRTIO_BLK_T_OUT_def)
  qed
qed


text \<open>A request at \<open>0x5000\<close> for sector 1, with one byte of data after the 16 bytes of its header.\<close>

definition sector_ram :: flat_mem where
  "sector_ram = \<lparr>fm_regions = [(0, 134217728)], fm_byte = (\<lambda>x. if x = 0x5000 then 1 else if x = 0x5010 then 77 else 0)\<rparr>"

lemma sector_ram_facts:
  "flat_invar sector_ram" "a + k \<le> 134217728 \<Longrightarrow> mapped (flat_view sector_ram) a k"
  "a + k \<le> 134217728 \<Longrightarrow> bytes_at (flat_view sector_ram) a k = map (fm_byte sector_ram) [a..<a + k]"
proof -
  show "flat_invar sector_ram"
    by (simp add: flat_invar_def sector_ram_def)
  show "mapped (flat_view sector_ram) a k" if "a + k \<le> 134217728"
    by (rule flat_mapped_single [of _ 0 134217728]) (use that in \<open>simp_all add: sector_ram_def\<close>)
  show "bytes_at (flat_view sector_ram) a k = map (fm_byte sector_ram) [a..<a + k]" if "a + k \<le> 134217728"
    using that by (auto simp: bytes_at_def flat_view_def sector_ram_def in_regions_def)
qed

definition sector_request :: descriptor where
  "sector_request = \<lparr>desc_addr = 0x5000, desc_len = 17, desc_write_only = False\<rparr>"

definition sector_disk :: host_file where
  "sector_disk = \<lparr>contents = replicate 1024 0, file_pos = 0, writable = True, io_faults = []\<rparr>"

lemma sector_reads:
  "flat_read sector_ram (replicate 4 0) 0x5000 = (None, [1, 0, 0, 0])"
  "flat_read sector_ram (replicate 8 0) 0x5000 = (None, [1, 0, 0, 0, 0, 0, 0, 0])"
  "flat_read sector_ram (replicate 1 0) 0x5010 = (None, [77])"
  by (simp_all add: flat_read_def sector_ram_facts) (simp_all add: sector_ram_def)

lemma sector_write:
  "\<exists>disk'. block_handle_write p flat_virtio 512 sector_request (sector_disk, sector_ram) = (Ok (), disk', sector_ram) \<and>
     io_faults disk' = []"
proof -
  have "u64_from_le_bytes [1, 0, 0, 0, 0, 0, 0, 0] = 1"
    by (simp add: u64_from_le_bytes_def)
  then show ?thesis
    using sector_reads
    by (simp add: block_handle_write_def sector_request_def read_slice_or_def mul_u64_def disk_seek_def file_seek_def
        checked_add_u64_def disk_write_all_def file_write_all_def sector_disk_def)
qed


theorem block_reachable_sectors_witness:
  "\<exists>disk'. block_handle_write Release flat_virtio 512 sector_request (sector_disk, sector_ram) = (Ok (), disk', sector_ram) \<and>
     (file_pos disk' - 1) mod 2 ^ 41 = 512"
proof -
  obtain disk' where w: "block_handle_write Release flat_virtio 512 sector_request (sector_disk, sector_ram) = (Ok (), disk', sector_ram)"
    using sector_write by blast
  have "read_slice flat_virtio sector_ram (replicate 4 0) (desc_addr sector_request) = (None, [1, 0, 0, 0])"
    using sector_reads(1) by (simp add: sector_request_def)
  from block_reachable_sectors [OF fq.guest_memory_axioms sector_ram_facts(1) this, of Release sector_disk disk' sector_ram] w
  show ?thesis
    by (auto simp: sector_request_def u32_from_le_bytes_def VIRTIO_BLK_T_OUT_def)
qed

text \<open>
  The configuration space: 60 bytes that begin with the capacity in sectors; a read inside it
  gives those bytes, a read from the end on is an error that leaves the buffer alone.
\<close>

theorem block_config_space:
  assumes "blk_block_size self = 512" and "data \<noteq> []"
  shows "length (block_config_bytes self) = 60 \<and> take 8 (block_config_bytes self) = u64_to_le_bytes (blk_disk_size self div 512) \<and>
    (60 \<le> unat off \<longrightarrow> block_read_config self off data = (Err (MemoryError ''Invalid config space offset''), data)) \<and>
    (unat off + length data \<le> 60 \<longrightarrow>
       block_read_config self off data = (Ok (), take (length data) (drop (unat off) (block_config_bytes self))))"
proof -
  have len: "length (block_config_bytes self) = 60"
    by (simp add: block_config_bytes_def block_config_of_def BlockConfig_bytes_def BlockGeometry_bytes_def BlockTopology_bytes_def)
  moreover have "take 8 (block_config_bytes self) = u64_to_le_bytes (blk_disk_size self div 512)"
    by (simp add: block_config_bytes_def block_config_of_def BlockConfig_bytes_def assms(1))
  ultimately show ?thesis
    using assms read_config_space_inside [of off data "block_config_bytes self"]
    by (simp add: block_read_config_def read_config_space_def)
qed

theorem block_config_space_witness:
  "block_read_config (demo_block True) 60 [7] = (Err (MemoryError ''Invalid config space offset''), [7])"
  using block_config_space [of "demo_block True" "[7]" 60] by (simp add: demo_block_def)

section \<open>Behind the transport\<close>

text \<open>
  A device as \<open>new\<close> makes it: its queue is not ready.  No operation of the device makes it ready,
  and the transport has no register that does.
\<close>

context virtqueue
begin

lemma block_not_ready:
  assumes "cfg_queues (blk_config d) = [q]" and "\<not> st_ready (q_state q)"
  shows "\<exists>e. block_process_queue p V d i m = Some (Err e, d, m)"
proof -
  obtain e where "queue_next V q m = (Inl e, q)"
    using not_ready [OF assms(2)] by blast
  moreover have "d\<lparr>blk_config := (blk_config d)\<lparr>cfg_queues := [q]\<rparr>, blk_disk := blk_disk d\<rparr> = d"
    using assms(1) by (cases d; cases "blk_config d") simp
  ultimately show ?thesis
    using assms(1) by (simp add: block_process_queue_def drain_queue.simps [of V])
qed

lemma block_writes_idle:
  assumes "cfg_queues (blk_config (mx_data (mmio_device self))) = [q]" and "\<not> st_ready (q_state q)"
    and "mmio_writes (block_device p V) ws self m = Some (r, self', m')"
  shows "m' = m \<and> mx_data (mmio_device self') = mx_data (mmio_device self)"
  using assms(1,3)
proof (induction ws arbitrary: self)
  case Nil
  then show ?case by simp
next
  case (Cons w ws)
  obtain offset data where w: "w = (offset, data)" by (cases w)
  have step: "m1 = m \<and> mx_data (mmio_device s1) = mx_data (mmio_device self)"
    if "mmio_write (block_device p V) self offset data m = Some (r1, s1, m1)" for r1 s1 m1
    using that block_not_ready [OF Cons.prems(1) assms(2), of p "mmio_value data" m]
    by (auto simp: mmio_write_def block_device_def Let_def split: if_splits)
  obtain r1 s1 m1 where w1: "mmio_write (block_device p V) self offset data m = Some (r1, s1, m1)"
    using Cons.prems(2) by (cases "mmio_write (block_device p V) self offset data m") (auto simp: w)
  show ?case
    using Cons.prems step [OF w1] w1 Cons.IH [of s1] by (cases r1) (auto simp: w)
qed

end

text \<open>
  C31. A block device behind its transport never does anything: for every sequence of register writes,
  queue notifications included, disk and guest memory are as before.
\<close>

theorem block_transport_idle:
  assumes "virtqueue V invar view q_state chain_at chain_fuel"
    and "VirtioBlock_new V disks guest_addr irq path read_only = Ok dev"
    and "mmio_writes (block_device p V) ws (VirtioMmioDevice_new dev base) m = Some (r, self', m')"
  shows "m' = m \<and> mx_data (mmio_device self') = dev"
proof -
  obtain config where "VirtioDeviceConfig_new V guest_addr irq 1 = Ok config" "blk_config dev = config"
    using assms(2) by (cases "VirtioDeviceConfig_new V guest_addr irq 1") (auto simp: VirtioBlock_new_def split: sum.splits prod.splits)
  then obtain q where "cfg_queues (blk_config dev) = [q]" "queue_new V 1024 = Inr q"
    using VirtioDeviceConfig_new_ok [of V guest_addr irq 1 config] by (cases "cfg_queues config") auto
  moreover from this(2) have "\<not> st_ready (q_state q)"
    using virtqueue.queue_new_state [OF assms(1)] by blast
  ultimately show ?thesis
    using virtqueue.block_writes_idle [OF assms(1) _ _ assms(3)] by (simp add: VirtioMmioDevice_new_def)
qed

theorem block_transport_idle_witness:
  "\<exists>dev r self' m'. VirtioBlock_new flat_virtio (\<lambda>_. Inr sector_disk) 0x1000 5 ''disk.img'' False = Ok dev \<and>
     mmio_writes (block_device Debug flat_virtio) [(0x44, [1]), (0x50, [0])] (VirtioMmioDevice_new dev 0x1000) sector_ram = Some (r, self', m') \<and>
     m' = sector_ram"
proof -
  obtain dev where d: "VirtioBlock_new flat_virtio (\<lambda>_. Inr sector_disk) 0x1000 5 ''disk.img'' False = Ok dev"
    by (simp add: VirtioBlock_new_def file_open_def file_len_def sector_disk_def VirtioDeviceConfig_new_def split_new_def)
  have "\<exists>r self' m'. mmio_writes (block_device Debug flat_virtio) [(0x44, [1]), (0x50, [0])] (VirtioMmioDevice_new dev 0x1000) sector_ram = Some (r, self', m')"
  proof -
    obtain q where q: "cfg_queues (blk_config dev) = [q]" "\<not> st_ready (sq_state q)"
      using d by (auto simp: VirtioBlock_new_def file_open_def file_len_def sector_disk_def VirtioDeviceConfig_new_def split_new_def)
    obtain e where "block_process_queue Debug flat_virtio dev (mmio_value [0]) sector_ram = Some (Err e, dev, sector_ram)"
      using fq.block_not_ready [OF q] by blast
    then show ?thesis
      by (simp add: mmio_write_def VirtioMmioDevice_new_def block_device_def Let_def ignore_error_def)
  qed
  with d block_transport_idle [OF fq.virtqueue_axioms d] show ?thesis
    by blast
qed

end
