(* ===== verification/Hv_Net.thy ===== *)
theory Hv_Net
  imports Hv_Mmio
begin

text \<open>
  The network device (\<open>src/virtio/net.rs\<close>): a UDP socket as the wire.  The source of random bytes
  (crate \<open>getrandom\<close>), the binding of a socket by the host and the parser for socket addresses are
  arguments of \<open>VirtioNet_new\<close>; the hypervisor always passes no peer address, so the parser is
  never called.
\<close>

unbundle bit_operations_syntax

definition VIRTIO_ID_NET :: u32 where "VIRTIO_ID_NET = 1"

definition VIRTIO_NET_F_MAC :: u64 where "VIRTIO_NET_F_MAC = 5"
definition VIRTIO_NET_F_STATUS :: u64 where "VIRTIO_NET_F_STATUS = 16"
definition NET_F_VERSION_1 :: u64 where "NET_F_VERSION_1 = push_bit 32 1"

record NetConfig =
  nc_mac :: "u8 list"
  nc_status :: u16
  nc_max_virtqueue_pairs :: u16
  nc_mtu :: u16

record ('q, 'e) VirtioNet =
  net_config :: "('q, 'e) VirtioDeviceConfig"
  net_socket :: "udp_socket mutex"
  net_local_mac :: "u8 list"
  net_peer_addr :: "sock_addr option"

definition other_error :: "string \<Rightarrow> string \<Rightarrow> HypervisorError" where
  "other_error what e = IoError (IoErr Other (what @ e))"

definition VirtioNet_new ::
  "('m, 'q, 'c, 'e, 'z) virtio_ops_scheme \<Rightarrow> (nat \<Rightarrow> string + u8 list) \<Rightarrow> (string \<Rightarrow> io_error + udp_socket) \<Rightarrow>
   (string \<Rightarrow> string + sock_addr) \<Rightarrow> u64 \<Rightarrow> u32 \<Rightarrow> string \<Rightarrow> string option \<Rightarrow> ('q, 'e) VirtioNet Result" where
  "VirtioNet_new V getrandom bind parse guest_addr irq local_addr peer_addr =
     (case bind local_addr of
        Inl e \<Rightarrow> Err (other_error ''Failed to bind socket: '' (io_error_to_string e))
      | Inr socket \<Rightarrow>
     (case udp_set_nonblocking socket True of
        (Some e, _) \<Rightarrow> Err (other_error ''Failed to set non-blocking: '' (io_error_to_string e))
      | (None, socket) \<Rightarrow>
     bind_outcome
       (case peer_addr of
          None \<Rightarrow> Ok None
        | Some addr \<Rightarrow>
            (case parse addr of
               Inl e \<Rightarrow> Err (IoError (IoErr InvalidInput (''Invalid peer address: '' @ e)))
             | Inr a \<Rightarrow> Ok (Some a))) (\<lambda>peer_socket.
     bind_outcome (map_err (\<lambda>e. MemoryError (''Failed to create virtio config: '' @ e))
         (VirtioDeviceConfig_new V guest_addr irq 2)) (\<lambda>config.
     case getrandom 6 of
       Inl e \<Rightarrow> Err (other_error ''Failed to generate MAC address: '' e)
     | Inr mac \<Rightarrow>
         Ok \<lparr>net_config = config, net_socket = mutex_new socket, net_local_mac = mac[0 := 0x02],
             net_peer_addr = peer_socket\<rparr>))))"

section \<open>Queues\<close>

text \<open>One receive: a datagram is taken from the socket and dropped, and the chain is completed with
  length 0; with no datagram there the loop is left.\<close>

definition net_rx_chain ::
  "('m, 'q, 'c, 'e, 'z) virtio_ops_scheme \<Rightarrow> 'c \<Rightarrow> 'q \<Rightarrow> 'm \<Rightarrow> udp_socket \<Rightarrow> (bool Result \<times> 'q \<times> 'm \<times> udp_socket) option" where
  "net_rx_chain V desc_chain queue m socket =
     Option.bind (udp_recv_from socket 1514) (\<lambda>(r, socket).
     case r of
       Inr data \<Rightarrow>
         (case queue_add_used V queue m (chain_head_index V desc_chain) 0 of
            (_, queue, m) \<Rightarrow> Some (Ok True, queue, m, socket))
     | Inl e \<Rightarrow>
         if io_error_kind e = WouldBlock then Some (Ok False, queue, m, socket)
         else Some (Err (IoError e), queue, m, socket))"

definition net_collect ::
  "('m, 'q, 'c, 'e, 'z) virtio_ops_scheme \<Rightarrow> descriptor \<Rightarrow> 'm \<Rightarrow> u8 list \<Rightarrow> bool Result \<times> 'm \<times> u8 list" where
  "net_collect V d m buf =
     (Ok True, m, buf @ snd (read_slice V m (replicate (unat (desc_len d)) 0) (desc_addr d)))"

definition net_tx_chain ::
  "('m, 'q, 'c, 'e, 'z) virtio_ops_scheme \<Rightarrow> sock_addr option \<Rightarrow> 'c \<Rightarrow> 'q \<Rightarrow> 'm \<Rightarrow> udp_socket \<Rightarrow>
   (bool Result \<times> 'q \<times> 'm \<times> udp_socket) option" where
  "net_tx_chain V peer_addr desc_chain queue m socket =
     Option.bind (for_chain V (net_collect V) desc_chain m []) (\<lambda>(r, m, buf).
     case r of
       Err e \<Rightarrow> Some (Err e, queue, m, socket)
     | Panic \<Rightarrow> Some (Panic, queue, m, socket)
     | Ok _ \<Rightarrow>
         let socket = (case peer_addr of None \<Rightarrow> socket | Some peer \<Rightarrow> snd (udp_send_to socket buf peer)) in
         case queue_add_used V queue m (chain_head_index V desc_chain) (word_of_nat (length buf)) of
           (_, queue, m) \<Rightarrow> Some (Ok True, queue, m, socket))"

text \<open>Both queues: the queue is looked up, the socket is locked, the loop runs.\<close>

definition net_serve ::
  "('m, 'q, 'c, 'e, 'z) virtio_ops_scheme \<Rightarrow> nat \<Rightarrow> string \<Rightarrow>
   ('c \<Rightarrow> 'q \<Rightarrow> 'm \<Rightarrow> udp_socket \<Rightarrow> (bool Result \<times> 'q \<times> 'm \<times> udp_socket) option) \<Rightarrow>
   ('q, 'e) VirtioNet \<Rightarrow> 'm \<Rightarrow> (unit Result \<times> ('q, 'e) VirtioNet \<times> 'm) option" where
  "net_serve V i not_found body self m =
     (if length (cfg_queues (net_config self)) \<le> i then Some (Err (MemoryError not_found), self, m)
      else if mx_poisoned (net_socket self) then Some (Err (other_error ''Failed to lock socket'' ''''), self, m)
      else Option.bind (drain_queue V queue_iter_error body (cfg_queues (net_config self) ! i) m (mx_data (net_socket self)))
        (\<lambda>(r, queue, m, socket).
         Some (r, self\<lparr>net_config := (net_config self)\<lparr>cfg_queues := (cfg_queues (net_config self))[i := queue]\<rparr>,
                       net_socket := mutex_release r socket\<rparr>, m)))"

definition net_rx_queue ::
  "('m, 'q, 'c, 'e, 'z) virtio_ops_scheme \<Rightarrow> ('q, 'e) VirtioNet \<Rightarrow> 'm \<Rightarrow> (unit Result \<times> ('q, 'e) VirtioNet \<times> 'm) option" where
  "net_rx_queue V self m = net_serve V 0 ''RX queue not found'' (net_rx_chain V) self m"

definition net_tx_queue ::
  "('m, 'q, 'c, 'e, 'z) virtio_ops_scheme \<Rightarrow> ('q, 'e) VirtioNet \<Rightarrow> 'm \<Rightarrow> (unit Result \<times> ('q, 'e) VirtioNet \<times> 'm) option" where
  "net_tx_queue V self m = net_serve V 1 ''TX queue not found'' (net_tx_chain V (net_peer_addr self)) self m"

definition net_process_queue ::
  "('m, 'q, 'c, 'e, 'z) virtio_ops_scheme \<Rightarrow> ('q, 'e) VirtioNet \<Rightarrow> u32 \<Rightarrow> 'm \<Rightarrow>
   (unit Result \<times> ('q, 'e) VirtioNet \<times> 'm) option" where
  "net_process_queue V self queue_idx m =
     (if queue_idx = 0 then net_rx_queue V self m
      else if queue_idx = 1 then net_tx_queue V self m
      else Some (Err (MemoryError (''Invalid queue index: '' @ dec_digits (unat queue_idx))), self, m))"

section \<open>The device\<close>

definition wrapping_shl :: "u64 \<Rightarrow> u32 \<Rightarrow> u64" where
  "wrapping_shl w k = push_bit (unat k mod 64) w"

definition net_features :: u64 where
  "net_features = wrapping_shl 1 (ucast NET_F_VERSION_1) OR wrapping_shl 1 (ucast VIRTIO_NET_F_MAC) OR
     wrapping_shl 1 (ucast VIRTIO_NET_F_STATUS)"

definition net_config_bytes :: "NetConfig \<Rightarrow> u8 list" where
  "net_config_bytes c =
     nc_mac c @ u16_to_le_bytes (nc_status c) @ u16_to_le_bytes (nc_max_virtqueue_pairs c) @ u16_to_le_bytes (nc_mtu c)"

definition net_read_config :: "('q, 'e) VirtioNet \<Rightarrow> u64 \<Rightarrow> u8 list \<Rightarrow> unit Result \<times> u8 list" where
  "net_read_config self offset data =
     (let config = \<lparr>nc_mac = net_local_mac self, nc_status = 1, nc_max_virtqueue_pairs = 1, nc_mtu = 1500\<rparr> in
      read_config_space (net_config_bytes config) offset data)"

definition net_device ::
  "('m, 'q, 'c, 'e, 'z) virtio_ops_scheme \<Rightarrow> (('q, 'e) VirtioNet, 'm) VirtioDevice" where
  "net_device V =
     \<lparr>device_type = (\<lambda>self. VIRTIO_ID_NET),
      get_features = (\<lambda>self. net_features),
      set_acked_features = (\<lambda>self features. (Ok (), self)),
      read_config = net_read_config,
      write_config = (\<lambda>self offset data. (Ok (), self)),
      process_queue = net_process_queue V,
      get_queues = (\<lambda>self. config_queue_sizes V (net_config self)),
      get_interrupt_status = (\<lambda>self. 0),
      shutdown = default_shutdown,
      dev_mmio_read = default_mmio_read,
      dev_mmio_write = default_mmio_write,
      get_mmio_region = default_mmio_region\<rparr>"

section \<open>Lemmas\<close>

text \<open>The payload of a chain, write-only descriptors included.\<close>

definition net_chain_data :: "bytemap \<Rightarrow> vq_layout \<Rightarrow> nat \<Rightarrow> u8 list" where
  "net_chain_data f L h = concat (map (desc_bytes f) (chain_descs (vq_size L) f L h))"

lemma fold_append: "fold (\<lambda>d buf. buf @ g d) ds buf = buf @ concat (map g ds)"
  by (induction ds arbitrary: buf) auto

context virtqueue
begin

lemma net_tx_chain_ok:
  assumes "layout_ok f L" and "chain_direct (vq_size L) f L h" and "list_all (desc_in_ram f L) (chain_descs (vq_size L) f L h)"
    and "invar m" and "chain_at c = (L, h, vq_size L)" and "chain_head_index V c = word_of_nat h"
    and "dom (view m) = dom f" and "\<And>x. x < vq_used L \<or> vq_used L + (6 + 8 * vq_size L) \<le> x \<Longrightarrow> view m x = f x"
  shows "net_tx_chain V peer c q m sock =
    (case queue_add_used V q m (word_of_nat h) (word_of_nat (length (net_chain_data f L h))) of
       (_, q', m') \<Rightarrow> Some (Ok True, q', m',
         case peer of None \<Rightarrow> sock | Some p \<Rightarrow> snd (udp_send_to sock (net_chain_data f L h) p)))"
proof -
  let ?ds = "chain_descs (vq_size L) f L h"
  have sr: "same_rings L (view m) f"
    using assms(1,8) by (auto simp: same_rings_def layout_ok_def apart_def)
  have "for_chain V (net_collect V) c m [] = Some (Ok (), m, fold (\<lambda>d buf. buf @ snd (read_slice V m (replicate (unat (desc_len d)) 0) (desc_addr d))) ?ds [])"
    using for_chain_pure [OF assms(4), of "net_collect V" _ c L h "vq_size L" "[]"] assms(1,2,5)
      mapped_cong [OF assms(7)] same_rings_chain [OF sr]
    by (simp add: net_collect_def layout_ok_def)
  also have "\<dots> = Some (Ok (), m, net_chain_data f L h)"
  proof -
    have "snd (read_slice V m (replicate (unat (desc_len d)) 0) (desc_addr d)) = desc_bytes f d" if "d \<in> set ?ds" for d
      using read_desc_bytes [OF assms(4), of f L d] assms(3,7,8) that by (auto simp: list_all_iff)
    then show ?thesis
      by (auto simp: fold_append net_chain_data_def intro!: arg_cong [of _ _ concat] map_cong)
  qed
  finally show ?thesis
    using assms(6) by (simp add: net_tx_chain_def Let_def)
qed

lemma net_chain_max_size:
  assumes "net_rx_chain V c q m s = Some (r, q', m', s') \<or> net_tx_chain V peer c q m s = Some (r, q', m', s')"
  shows "queue_max_size V q' = queue_max_size V q"
proof -
  have "queue_max_size V q2 = queue_max_size V q1" if "queue_add_used V q1 m1 k len = (x, q2, m2)" for q1 m1 k len x q2 m2
    using add_used_max_size [of q1 m1 k len] that by simp
  then show ?thesis
    using assms
    by (auto simp: net_rx_chain_def net_tx_chain_def Let_def split: prod.splits sum.splits if_splits outcome.splits Option.bind_splits)
qed

lemma net_serve_sizes:
  assumes "net_serve V i nf body d m = Some (r, d', m')"
    and "\<And>c q m s r q' m' s'. body c q m s = Some (r, q', m', s') \<Longrightarrow> queue_max_size V q' = queue_max_size V q"
  shows "config_queue_sizes V (net_config d') = config_queue_sizes V (net_config d)"
proof -
  let ?c = "net_config d"
  have "config_queue_sizes V (?c\<lparr>cfg_queues := (cfg_queues ?c)[i := q]\<rparr>) = config_queue_sizes V ?c"
    if "i < length (cfg_queues ?c)"
      "drain_queue V queue_iter_error body (cfg_queues ?c ! i) m s = Some (x, q, m2, s2)" for q m2 s x s2
    using that drain_max_size [OF that(2) assms(2)] by (intro config_queue_sizes_update) simp_all
  then show ?thesis
    using assms(1) by (auto simp: net_serve_def split: if_splits Option.bind_splits)
qed

lemma net_queue_sizes:
  assumes "net_process_queue V d i m = Some (r, d', m')"
  shows "config_queue_sizes V (net_config d') = config_queue_sizes V (net_config d)"
  using assms net_serve_sizes [OF _ net_chain_max_size [OF disjI1]] net_serve_sizes [OF _ net_chain_max_size [OF disjI2]]
  by (auto simp: net_process_queue_def net_rx_queue_def net_tx_queue_def split: if_splits)

lemma net_rx_drain:
  assumes "sock_nonblocking s" and "sock_inbox s = map Inr ds" and "length ds < length hs"
    and "invar m" and "layout_ok (view m) L" and "driver_ok (view m) L n" and "pending_heads (view m) L n = hs"
    and "q_state q = \<lparr>st_ready = True, st_layout = L, st_next_avail = n, st_next_used = u\<rparr>" and "u < 65536"
  shows "\<exists>q' m'. drain_queue V e (net_rx_chain V) q m s = Some (Ok (), q', m', s\<lparr>sock_inbox := []\<rparr>) \<and>
    q_state q' = \<lparr>st_ready = True, st_layout = L, st_next_avail = (n + Suc (length ds)) mod 65536,
      st_next_used = (u + length ds) mod 65536\<rparr> \<and>
    view m' = put_useds (view m) L u (map (\<lambda>h. (h, 0)) (take (length ds) hs))"
  using assms
proof (induction ds arbitrary: hs m q n u s)
  case Nil
  obtain h hs' where hs: "hs = h # hs'" using Nil(3) by (cases hs) auto
  obtain c q1 where c: "queue_next V q m = (Inr (Some c), q1)" "q_state q1 = (q_state q)\<lparr>st_next_avail := Suc n mod 65536\<rparr>"
    using next_some [OF Nil(4), of q h hs'] Nil(5-8) hs by (auto simp: driver_ok_def)
  have "s\<lparr>sock_inbox := []\<rparr> = s" using Nil(2) by simp
  then show ?case
    using Nil c by (subst drain_queue.simps) (simp add: net_rx_chain_def udp_recv_from_def)
next
  case (Cons d ds)
  obtain h hs' where hs: "hs = h # hs'" using Cons.prems(3) by (cases hs) auto
  have dv: "vq_size L dvd 65536" and s0: "0 < vq_size L" and sz: "vq_size L \<le> 65536"
    using Cons.prems(5) dvd_imp_le [of "vq_size L" 65536] by (simp_all add: layout_ok_def)
  note nx = driver_ok_Suc [OF Cons.prems(6) _ dv, of h hs'] and lo = Cons.prems(5)
  obtain c q1 where c: "queue_next V q m = (Inr (Some c), q1)" "q_state q1 = (q_state q)\<lparr>st_next_avail := Suc n mod 65536\<rparr>"
    "chain_head_index V c = word_of_nat h"
    using next_some [OF Cons.prems(4), of q h hs'] Cons.prems(5-8) hs by (auto simp: driver_ok_def)
  have "h < vq_size L" using nx(2) Cons.prems(7) hs by simp
  then obtain q2 m2 where a: "queue_add_used V q1 m (word_of_nat h) 0 = (None, q2, m2)" "invar m2"
    "q_state q2 = (q_state q1)\<lparr>st_next_used := Suc u mod 65536\<rparr>" "view m2 = put_used (view m) L u h 0"
    using add_used_ok [OF Cons.prems(4), of q1 "word_of_nat h" 0] c(2) Cons.prems(8) lo sz by (auto simp: unat_of_nat)
  have sr: "same_rings L (view m2) (view m)" and lo2: "layout_ok (view m2) L"
    using put_used_same_rings [OF lo] put_used_layout_ok [OF lo] by (simp_all add: a(4))
  have "\<exists>q' m'. drain_queue V e (net_rx_chain V) q2 m2 (s\<lparr>sock_inbox := map Inr ds\<rparr>) =
      Some (Ok (), q', m', s\<lparr>sock_inbox := map Inr ds, sock_inbox := []\<rparr>) \<and>
      q_state q' = \<lparr>st_ready = True, st_layout = L, st_next_avail = (Suc n mod 65536 + Suc (length ds)) mod 65536,
        st_next_used = (Suc u mod 65536 + length ds) mod 65536\<rparr> \<and>
      view m' = put_useds (view m2) L (Suc u mod 65536) (map (\<lambda>h. (h, 0)) (take (length ds) hs'))"
    by (rule Cons.IH) (use Cons.prems hs a(2,3) c(2) lo2 nx(1,4) same_rings_driver_ok [OF sr s0] same_rings_pending [OF sr s0] in simp_all)
  moreover have "net_rx_chain V c q1 m s = Some (Ok True, q2, m2, s\<lparr>sock_inbox := map Inr ds\<rparr>)"
    using Cons.prems(2) c(3) a(1) by (simp add: net_rx_chain_def udp_recv_from_def)
  moreover have "Suc (Suc n mod 65536 + length ds) mod 65536 = Suc (Suc (n + length ds)) mod 65536"
    by (metis add_Suc add_Suc_right mod_add_left_eq)
  ultimately show ?case
    using c(1) by (subst drain_queue.simps) (simp add: hs a(4) mod_add_left_eq)
qed

end

sublocale virtqueue \<subseteq> net: virtio_device "net_device V"
proof (unfold_locales, goal_cases)
  case (1 d off data)
  show ?case by (simp add: net_device_def net_read_config_def)
next
  case (4 d i m r d' m')
  then show ?case
    by (simp add: same_identity_def net_device_def net_queue_sizes)
qed (simp_all add: net_device_def)

section \<open>Results\<close>

text \<open>
  C32. Transmission under the virtqueue contract: the call returns, every chain becomes one datagram
  to the peer, in order and with the bytes the driver put into memory, and is completed with its
  length; without a peer nothing is sent.
\<close>

theorem net_tx_correct:
  assumes "virtqueue V invar view q_state chain_at chain_fuel" and "invar m"
    and "1 < length (cfg_queues (net_config self))"
    and "q_state (cfg_queues (net_config self) ! 1) = \<lparr>st_ready = True, st_layout = L, st_next_avail = n, st_next_used = u\<rparr>"
    and "n < 65536" and "u < 65536" and "layout_ok (view m) L" and "driver_ok (view m) L n"
    and "hs = pending_heads (view m) L n" and "chains_in_ram (view m) L hs"
    and "\<not> mx_poisoned (net_socket self)" and "sock_faults (mx_data (net_socket self)) = []"
  shows "\<exists>self' m'. net_process_queue V self 1 m = Some (Ok (), self', m') \<and>
    sock_sent (mx_data (net_socket self')) = sock_sent (mx_data (net_socket self)) @
      (case net_peer_addr self of None \<Rightarrow> [] | Some p \<Rightarrow> map (\<lambda>h. (p, net_chain_data (view m) L h)) hs) \<and>
    (\<forall>k < length hs. used_elem (view m') L (u + k) = (hs ! k, length (net_chain_data (view m) L (hs ! k)) mod 2 ^ 32)) \<and>
    (\<forall>x. x < vq_used L \<or> vq_used L + (6 + 8 * vq_size L) \<le> x \<longrightarrow> view m' x = view m x)"
proof -
  note vq = assms(1) and lo = assms(7) and dr = assms(8)
  let ?q = "cfg_queues (net_config self) ! 1" and ?s = "mx_data (net_socket self)" and ?p = "net_peer_addr self"
  let ?o = "net_chain_data (view m) L"
  let ?upd = "\<lambda>h s. case ?p of None \<Rightarrow> s | Some p \<Rightarrow> s\<lparr>sock_sent := sock_sent s @ [(p, ?o h)]\<rparr>"
  have direct: "chain_direct (vq_size L) (view m) L h" "list_all (desc_in_ram (view m) L) (chain_descs (vq_size L) (view m) L h)"
    if "h \<in> set hs" for h
    using that dr assms(9,10) by (auto simp: driver_ok_def chains_in_ram_def list_all_iff)
  have body: "net_tx_chain V ?p c q ma s = (case queue_add_used V q ma (word_of_nat h) (word_of_nat (length (?o h))) of
        (_, q', m') \<Rightarrow> Some (Ok True, q', m', ?upd h s)) \<and> sock_faults (?upd h s) = []"
    if "h \<in> set hs" "invar ma" "chain_at c = (L, h, vq_size L)" "chain_head_index V c = word_of_nat h" "dom (view ma) = dom (view m)"
      "\<And>x. x < vq_used L \<or> vq_used L + (6 + 8 * vq_size L) \<le> x \<Longrightarrow> view ma x = view m x" "sock_faults s = []"
    for c q ma s h
    using virtqueue.net_tx_chain_ok [OF vq lo direct(1,2) that(2-6), of ?p q s] that(1,7)
    by (simp add: udp_send_to_def split: option.split prod.split)
  have "\<exists>q' m'. drain_queue V queue_iter_error (net_tx_chain V ?p) ?q m ?s = Some (Ok (), q', m', fold ?upd hs ?s) \<and>
      invar m' \<and> sock_faults (fold ?upd hs ?s) = [] \<and>
      q_state q' = \<lparr>st_ready = True, st_layout = L, st_next_avail = (n + length hs) mod 65536,
        st_next_used = (u + length hs) mod 65536\<rparr> \<and>
      view m' = put_useds (view m) L u (map (\<lambda>h. (h, length (?o h) mod 2 ^ 32)) hs)"
    by (rule virtqueue.drain_service [OF vq lo, where S = "\<lambda>s. sock_faults s = []"], rule body) (use assms in auto)
  then obtain q' m' where d: "drain_queue V queue_iter_error (net_tx_chain V ?p) ?q m ?s = Some (Ok (), q', m', fold ?upd hs ?s)"
    and v: "view m' = put_useds (view m) L u (map (\<lambda>h. (h, length (?o h) mod 2 ^ 32)) hs)"
    by blast
  have f: "sock_sent (fold ?upd hs s) = sock_sent s @ (case ?p of None \<Rightarrow> [] | Some p \<Rightarrow> map (\<lambda>h. (p, ?o h)) hs)" for s
    by (induction hs arbitrary: s) (auto split: option.splits)
  have "used_elem (view m') L (u + k) = (hs ! k, length (?o (hs ! k)) mod 2 ^ 32)" if "k < length hs" for k
    using served_used_elem [OF lo dr assms(9) that] by (simp add: v)
  moreover have "view m' x = view m x" if "x < vq_used L \<or> vq_used L + (6 + 8 * vq_size L) \<le> x" for x
    using put_useds_other [OF lo that] by (simp add: v)
  ultimately show ?thesis
    using assms(3,11) f [of ?s]
    by (auto simp: net_process_queue_def net_tx_queue_def net_serve_def d [unfolded One_nat_def])
qed

text \<open>
  C33. Reception: with fewer datagrams waiting than chains available, as many chains are completed as
  there are datagrams, all with length 0 and none of the data in guest memory, and one more chain is
  taken from the available ring and never completed.
\<close>

theorem net_rx_loses_chain:
  assumes "virtqueue V invar view q_state chain_at chain_fuel" and "invar m"
    and "0 < length (cfg_queues (net_config self))"
    and "q_state (cfg_queues (net_config self) ! 0) = \<lparr>st_ready = True, st_layout = L, st_next_avail = n, st_next_used = u\<rparr>"
    and "u < 65536" and "layout_ok (view m) L" and "driver_ok (view m) L n"
    and "hs = pending_heads (view m) L n" and "\<not> mx_poisoned (net_socket self)"
    and "sock_nonblocking (mx_data (net_socket self))" and "sock_inbox (mx_data (net_socket self)) = map Inr ds"
    and "length ds < length hs"
  shows "\<exists>self' m'. net_process_queue V self 0 m = Some (Ok (), self', m') \<and>
    q_state (cfg_queues (net_config self') ! 0) = \<lparr>st_ready = True, st_layout = L,
      st_next_avail = (n + Suc (length ds)) mod 65536, st_next_used = (u + length ds) mod 65536\<rparr> \<and>
    view m' = put_useds (view m) L u (map (\<lambda>h. (h, 0)) (take (length ds) hs)) \<and>
    (\<forall>x. x < vq_used L \<or> vq_used L + (6 + 8 * vq_size L) \<le> x \<longrightarrow> view m' x = view m x)"
proof -
  obtain q' m' where d: "drain_queue V queue_iter_error (net_rx_chain V) (cfg_queues (net_config self) ! 0) m (mx_data (net_socket self)) =
      Some (Ok (), q', m', (mx_data (net_socket self))\<lparr>sock_inbox := []\<rparr>)"
    and q: "q_state q' = \<lparr>st_ready = True, st_layout = L, st_next_avail = (n + Suc (length ds)) mod 65536,
      st_next_used = (u + length ds) mod 65536\<rparr>"
    and v: "view m' = put_useds (view m) L u (map (\<lambda>h. (h, 0)) (take (length ds) hs))"
    using virtqueue.net_rx_drain [OF assms(1,10,11,12,2,6,7) assms(8) [symmetric] assms(4,5)] by blast
  then show ?thesis
    using assms(3,9) put_useds_other [OF assms(6)]
    by (auto simp: net_process_queue_def net_rx_queue_def net_serve_def)
qed

text \<open>
  The features that the device offers are bits 0, 5 and 16.  Bit 32, which marks a device of
  version 1 of the specification and whose constant the code names, is not among them.
\<close>

theorem net_features_value: "net_features = 0x10021 \<and> \<not> bit net_features 32 \<and> bit net_features 0"
proof -
  have v: "net_features = 0x10021"
    by (simp add: net_features_def wrapping_shl_def NET_F_VERSION_1_def VIRTIO_NET_F_MAC_def VIRTIO_NET_F_STATUS_def)
  show ?thesis
    unfolding v by (simp add: bit_iff_odd)
qed

definition demo_net :: "(split_queue, u64) VirtioNet" where
  "demo_net =
     \<lparr>net_config = \<lparr>cfg_guest_mem = 0, cfg_irq = 7, cfg_queues = [demo_queue, demo_queue], cfg_interrupt_evt = Some 0\<rparr>,
      net_socket = mutex_new \<lparr>sock_nonblocking = True, sock_inbox = [], sock_sent = [], sock_faults = []\<rparr>,
      net_local_mac = [2, 0, 0, 0, 0, 1], net_peer_addr = Some ''10.0.0.2:7''\<rparr>"

theorem net_tx_correct_witness:
  "\<exists>self' m'. net_process_queue flat_virtio demo_net 1 demo_ram = Some (Ok (), self', m') \<and>
     sock_sent (mx_data (net_socket self')) = [(''10.0.0.2:7'', [104, 105])]"
proof -
  have o: "net_chain_data (flat_view demo_ram) demo_layout 0 = [104, 105]"
    by (simp add: net_chain_data_def demo_descs desc_bytes_def demo_bytes_at demo_byte_def)
  have ram: "chains_in_ram (flat_view demo_ram) demo_layout [0]"
    by (simp add: chains_in_ram_def demo_descs desc_in_ram_def demo_mapped) (simp add: apart_def demo_layout_def)
  show ?thesis
    using net_tx_correct [OF fq.virtqueue_axioms demo_invar _ _ _ _ demo_layout_ok demo_driver_ok demo_pending [symmetric] ram,
        of demo_net 0]
    by (auto simp: demo_net_def demo_queue_def o)
qed

theorem net_rx_loses_chain_witness:
  "\<exists>self' m'. net_process_queue flat_virtio demo_net 0 demo_ram = Some (Ok (), self', m') \<and> flat_view m' = flat_view demo_ram \<and>
     st_next_avail (sq_state (cfg_queues (net_config self') ! 0)) = 1"
  using net_rx_loses_chain [OF fq.virtqueue_axioms demo_invar _ _ _ demo_layout_ok demo_driver_ok demo_pending [symmetric],
      of demo_net 0 "[]"]
  by (auto simp: demo_net_def demo_queue_def)

end
