(* ===== verification/Hv_Acl.thy ===== *)
theory Hv_Acl
  imports Hv_Host
begin

text \<open>
  The file system state of \<open>src/virtio/fs.rs\<close>: permissions, access control lists, and \<open>FsState\<close> with
  its table of lists and its MMIO area.  A path is the list of its components.  The host's file
  system is a map from the paths that exist to the user and group that own them, with the ids of
  the hypervisor process for what it creates and a script of faults for the calls that write.
\<close>

unbundle bit_operations_syntax

section \<open>Permissions\<close>

type_synonym AclPermissions = u32

definition ACL_READ :: AclPermissions where "ACL_READ = 1"
definition ACL_WRITE :: AclPermissions where "ACL_WRITE = 2"
definition ACL_EXECUTE :: AclPermissions where "ACL_EXECUTE = 4"
definition ACL_DELETE :: AclPermissions where "ACL_DELETE = 8"

text \<open>The methods that \<open>bitflags!\<close> gives the type.\<close>

definition acl_all :: AclPermissions where
  "acl_all = ACL_READ OR ACL_WRITE OR ACL_EXECUTE OR ACL_DELETE"

definition acl_contains :: "AclPermissions \<Rightarrow> AclPermissions \<Rightarrow> bool" where
  "acl_contains p q = (p AND q = q)"

definition acl_from_bits :: "u32 \<Rightarrow> AclPermissions option" where
  "acl_from_bits bits = (if bits AND NOT acl_all = 0 then Some bits else None)"

text \<open>\<open>Serialize\<close> gives the number, \<open>Deserialize\<close> takes one and refuses unknown bits.\<close>

definition acl_serialize :: "AclPermissions \<Rightarrow> u32" where
  "acl_serialize p = p"

definition acl_deserialize :: "u32 \<Rightarrow> string + AclPermissions" where
  "acl_deserialize bits =
     (case acl_from_bits bits of Some p \<Rightarrow> Inr p | None \<Rightarrow> Inl ''invalid AclPermissions value'')"

fun join_bar :: "string list \<Rightarrow> string" where
  "join_bar [] = ''''"
| "join_bar [x] = x"
| "join_bar (x # y # xs) = x @ '' | '' @ join_bar (y # xs)"

definition acl_debug :: "AclPermissions \<Rightarrow> string" where
  "acl_debug p =
     (let flags = map snd (filter (\<lambda>(f, n). acl_contains p f)
        [(ACL_READ, ''READ''), (ACL_WRITE, ''WRITE''), (ACL_EXECUTE, ''EXECUTE''), (ACL_DELETE, ''DELETE'')]) in
      ''AclPermissions('' @ dec_digits (unat p) @ '' | '' @ join_bar flags @ '')'')"

section \<open>Access control lists\<close>

record AclEntry =
  ae_uid :: u32
  ae_gid :: u32
  ae_permissions :: AclPermissions

record Acl =
  acl_owner :: u32
  acl_group :: u32
  acl_entries :: "AclEntry list"

definition Acl_default :: Acl where
  "Acl_default = \<lparr>acl_owner = 0, acl_group = 0, acl_entries = []\<rparr>"

definition check_permission :: "Acl \<Rightarrow> u32 \<Rightarrow> u32 \<Rightarrow> AclPermissions \<Rightarrow> bool" where
  "check_permission self uid gid required =
     (if acl_owner self = uid then
        (case find (\<lambda>e. ae_uid e = uid) (acl_entries self) of
           Some e \<Rightarrow> acl_contains (ae_permissions e) required
         | None \<Rightarrow> required = 0 \<or> required = acl_all)
      else if acl_group self = gid then
        list_ex (\<lambda>e. acl_contains (ae_permissions e) required) (filter (\<lambda>e. ae_gid e = gid) (acl_entries self))
      else
        list_ex (\<lambda>e. acl_contains (ae_permissions e) required)
          (filter (\<lambda>e. ae_uid e = uid \<or> ae_gid e = gid) (acl_entries self)))"

section \<open>The host's files\<close>

type_synonym path = "string list"

record host_tree =
  ht_owner :: "path \<rightharpoonup> u32 \<times> u32"
  ht_process :: "u32 \<times> u32"
  ht_faults :: "nat option list"

definition not_found_error :: io_error where
  "not_found_error = IoErr (KindNo 2) ''No such file or directory''"

definition tree_metadata :: "host_tree \<Rightarrow> path \<Rightarrow> io_error + u32 \<times> u32" where
  "tree_metadata t p = (case ht_owner t p of None \<Rightarrow> Inl not_found_error | Some ids \<Rightarrow> Inr ids)"

text \<open>\<open>create_dir_all\<close> makes the path and every missing directory above it.\<close>

fun path_prefixes :: "path \<Rightarrow> path list" where
  "path_prefixes [] = [[]]"
| "path_prefixes (c # cs) = [] # map ((#) c) (path_prefixes cs)"

definition tree_add :: "path \<Rightarrow> host_tree \<Rightarrow> host_tree" where
  "tree_add p t = (if ht_owner t p = None then t\<lparr>ht_owner := (ht_owner t)(p \<mapsto> ht_process t)\<rparr> else t)"

definition create_dir_all :: "host_tree \<Rightarrow> path \<Rightarrow> io_error option \<times> host_tree" where
  "create_dir_all t p =
     (case next_fault (ht_faults t) of
        None \<Rightarrow> (None, fold tree_add (path_prefixes p) (t\<lparr>ht_faults := tl (ht_faults t)\<rparr>))
      | Some k \<Rightarrow> (Some os_error, fold tree_add (take k (path_prefixes p)) (t\<lparr>ht_faults := tl (ht_faults t)\<rparr>)))"

text \<open>Opening a file: \<open>create\<close> adds it when it is missing.\<close>

definition tree_open :: "host_tree \<Rightarrow> bool \<Rightarrow> path \<Rightarrow> io_error option \<times> host_tree" where
  "tree_open t create p =
     (case next_fault (ht_faults t) of
        Some k \<Rightarrow> (Some os_error, t\<lparr>ht_faults := tl (ht_faults t)\<rparr>)
      | None \<Rightarrow>
          let t = t\<lparr>ht_faults := tl (ht_faults t)\<rparr> in
          if ht_owner t p \<noteq> None then (None, t)
          else if create \<and> p \<noteq> [] \<and> ht_owner t (butlast p) \<noteq> None then (None, tree_add p t)
          else (Some not_found_error, t))"

section \<open>The state\<close>

text \<open>An \<open>RwLock\<close> is poisoned by a panic of a writer only.\<close>

record FsState =
  fs_root :: path
  fs_acls :: "(path \<rightharpoonup> Acl) mutex"
  fs_mmio_region :: "(u64 \<times> u64) option"
  fs_mmio_data :: "u8 list mutex"

definition fs_init_acl :: "FsState \<Rightarrow> host_tree \<Rightarrow> path \<Rightarrow> unit Result \<times> FsState" where
  "fs_init_acl self t p =
     (case tree_metadata t p of
        Inl e \<Rightarrow> (Err (IoError e), self)
      | Inr (uid, gid) \<Rightarrow>
          if mx_poisoned (fs_acls self) then (Panic, self)
          else let acls = mx_data (fs_acls self) in
          if acls p = None
          then (Ok (), self\<lparr>fs_acls := mutex_new (acls(p \<mapsto> \<lparr>acl_owner = uid, acl_group = gid, acl_entries = []\<rparr>))\<rparr>)
          else (Ok (), self))"

definition FsState_new :: "host_tree \<Rightarrow> path \<Rightarrow> (u64 \<times> u64) option \<Rightarrow> FsState Result \<times> host_tree" where
  "FsState_new t root mmio_region =
     and_then
       (if ht_owner t root = None
        then (case create_dir_all t root of (None, t) \<Rightarrow> (Ok (), t) | (Some e, t) \<Rightarrow> (Err (IoError e), t))
        else (Ok (), t)) (\<lambda>_ t.
     let mmio_data = (case mmio_region of Some (_, sz) \<Rightarrow> replicate (unat sz) 0 | None \<Rightarrow> []);
         state = \<lparr>fs_root = root, fs_acls = mutex_new Map.empty, fs_mmio_region = mmio_region, fs_mmio_data = mutex_new mmio_data\<rparr> in
     case fs_init_acl state t root of
       (Ok _, state) \<Rightarrow> (Ok state, t)
     | (Err e, _) \<Rightarrow> (Err e, t)
     | (Panic, _) \<Rightarrow> (Panic, t))"

definition fs_get_path :: "FsState \<Rightarrow> u64 \<Rightarrow> path Result" where
  "fs_get_path self fid = Ok (fs_root self @ [dec_digits (unat fid)])"

definition fs_set_acl :: "FsState \<Rightarrow> path \<Rightarrow> Acl \<Rightarrow> unit Result \<times> FsState" where
  "fs_set_acl self p acl =
     (if mx_poisoned (fs_acls self) then (Panic, self)
      else (Ok (), self\<lparr>fs_acls := mutex_new ((mx_data (fs_acls self))(p \<mapsto> acl))\<rparr>))"

definition fs_get_acl :: "FsState \<Rightarrow> path \<Rightarrow> Acl option Result" where
  "fs_get_acl self p = (if mx_poisoned (fs_acls self) then Panic else Ok (mx_data (fs_acls self) p))"

definition invalid_offset :: HypervisorError where
  "invalid_offset = IoError (IoErr InvalidInput ''Invalid offset'')"

definition fs_mmio_read :: "profile \<Rightarrow> FsState \<Rightarrow> u64 \<Rightarrow> u8 list \<Rightarrow> unit Result \<times> u8 list" where
  "fs_mmio_read p self offset data =
     (if mx_poisoned (fs_mmio_data self) then (Panic, data)
      else let mmio_data = mx_data (fs_mmio_data self) in
      and_then (add_u64 p offset (word_of_nat (length data)), data) (\<lambda>end_pos data.
      if length mmio_data < unat end_pos then (Err invalid_offset, data)
      else and_then (slice_range mmio_data (unat offset) (unat end_pos), data) (\<lambda>src data. (Ok (), src))))"

definition fs_mmio_write :: "profile \<Rightarrow> FsState \<Rightarrow> u64 \<Rightarrow> u8 list \<Rightarrow> unit Result \<times> FsState" where
  "fs_mmio_write p self offset data =
     (if mx_poisoned (fs_mmio_data self) then (Panic, self)
      else let mmio_data = mx_data (fs_mmio_data self) in
      case and_then (add_u64 p offset (word_of_nat (length data)), mmio_data) (\<lambda>end_pos mmio_data.
           if length mmio_data < unat end_pos then (Err invalid_offset, mmio_data)
           else and_then (slice_range mmio_data (unat offset) (unat end_pos), mmio_data) (\<lambda>_ mmio_data.
             (Ok (), splice mmio_data (unat offset) data))) of
        (r, mmio_data) \<Rightarrow> (r, self\<lparr>fs_mmio_data := mutex_release r mmio_data\<rparr>))"

definition fs_create_file :: "(kvm_errno \<Rightarrow> string) \<Rightarrow> FsState \<Rightarrow> host_tree \<Rightarrow> path \<Rightarrow> (io_error, unit) outcome \<times> FsState \<times> host_tree" where
  "fs_create_file errno_text self t p =
     (case tree_open t True p of
        (Some e, t) \<Rightarrow> (Err e, self, t)
      | (None, t) \<Rightarrow>
          (case fs_init_acl self t p of
             (Err e, self) \<Rightarrow>
               (Err (IoErr Other (''Failed to initialize ACL: '' @ hypervisor_error_to_string errno_text e)), self, t)
           | (Panic, self) \<Rightarrow> (Panic, self, t)
           | (Ok _, self) \<Rightarrow> (Ok (), self, t)))"

definition fs_open_file :: "FsState \<Rightarrow> host_tree \<Rightarrow> path \<Rightarrow> io_error option \<times> host_tree" where
  "fs_open_file self t p = tree_open t False p"

section \<open>Lemmas\<close>

lemma acl_contains_trans: "acl_contains p q \<Longrightarrow> acl_contains q r \<Longrightarrow> acl_contains p r"
  unfolding acl_contains_def by (metis and.assoc)

lemma acl_all_value: "acl_all = 15"
  by (simp add: acl_all_def ACL_READ_def ACL_WRITE_def ACL_EXECUTE_def ACL_DELETE_def)

lemma find_None_iff_entry: "find P xs = None \<longleftrightarrow> \<not> list_ex P xs"
  by (auto simp: find_None_iff list_ex_iff)

section \<open>Results\<close>

text \<open>
  C34. Who is granted a set of permissions is granted each of its parts, except for the owner of a
  file whose list has no entry for the owner.
\<close>

theorem acl_grants_parts:
  assumes "check_permission acl uid gid required" and "acl_contains required part"
    and "acl_owner acl \<noteq> uid \<or> list_ex (\<lambda>e. ae_uid e = uid) (acl_entries acl)"
  shows "check_permission acl uid gid part"
proof (cases "acl_owner acl = uid")
  case True
  then obtain e where "find (\<lambda>e. ae_uid e = uid) (acl_entries acl) = Some e"
    using assms(3) find_None_iff_entry by fastforce
  with True assms(1,2) show ?thesis
    by (auto simp: check_permission_def intro: acl_contains_trans)
next
  case False
  then show ?thesis
    using assms(1,2) by (auto simp: check_permission_def list_ex_iff intro: acl_contains_trans split: if_splits)
qed

theorem acl_grants_parts_witness:
  "check_permission \<lparr>acl_owner = 1, acl_group = 1, acl_entries = [\<lparr>ae_uid = 5, ae_gid = 9, ae_permissions = 3\<rparr>]\<rparr> 5 0 1"
  using acl_grants_parts [of "\<lparr>acl_owner = 1, acl_group = 1, acl_entries = [\<lparr>ae_uid = 5, ae_gid = 9, ae_permissions = 3\<rparr>]\<rparr>" 5 0 3 1]
  by (simp add: check_permission_def acl_contains_def)

text \<open>
  C35. The owner of a directory that \<open>FsState::new\<close> has opened is granted all four permissions
  together and none of them alone.
\<close>

theorem fs_owner_all_but_none:
  assumes "FsState_new t root region = (Ok st, t')" and "fs_get_acl st root = Ok (Some acl)"
    and "acl_owner acl = uid" and "perm \<in> {ACL_READ, ACL_WRITE, ACL_EXECUTE, ACL_DELETE}"
  shows "check_permission acl uid gid acl_all \<and> \<not> check_permission acl uid gid perm"
proof -
  have "acl_entries acl = []"
    using assms(1,2)
    by (auto simp: FsState_new_def fs_init_acl_def fs_get_acl_def and_then_def Let_def
        split: if_splits prod.splits option.splits outcome.splits sum.splits)
  with assms(3,4) show ?thesis
    by (auto simp: check_permission_def acl_all_value ACL_READ_def ACL_WRITE_def ACL_EXECUTE_def ACL_DELETE_def)
qed

theorem fs_owner_all_but_none_witness:
  "\<exists>st acl. FsState_new \<lparr>ht_owner = Map.empty, ht_process = (1000, 1000), ht_faults = []\<rparr> [''share''] None =
       (Ok st, snd (FsState_new \<lparr>ht_owner = Map.empty, ht_process = (1000, 1000), ht_faults = []\<rparr> [''share''] None)) \<and>
     fs_get_acl st [''share''] = Ok (Some acl) \<and> \<not> check_permission acl 1000 0 ACL_READ"
proof -
  let ?t = "\<lparr>ht_owner = Map.empty, ht_process = (1000, 1000), ht_faults = []\<rparr> :: host_tree"
  obtain st t' acl where n: "FsState_new ?t [''share''] None = (Ok st, t')" "fs_get_acl st [''share''] = Ok (Some acl)" "acl_owner acl = 1000"
    by (simp add: FsState_new_def create_dir_all_def tree_add_def fs_init_acl_def tree_metadata_def fs_get_acl_def)
  from fs_owner_all_but_none [OF n, of ACL_READ 0] n show ?thesis
    by auto
qed

text \<open>
  C36. The MMIO area: inside it a write is read back and nothing else changes, past its end both
  accesses fail and change nothing, in both build profiles.
\<close>

theorem fs_mmio_write_read:
  assumes "\<not> mx_poisoned (fs_mmio_data self)" and "area = mx_data (fs_mmio_data self)"
    and "unat offset + length data < 2 ^ 64" and "length buf = length data"
  shows "if unat offset + length data \<le> length area
    then \<exists>self'. fs_mmio_write p self offset data = (Ok (), self') \<and> fs_mmio_read p self' offset buf = (Ok (), data) \<and>
      length (mx_data (fs_mmio_data self')) = length area \<and>
      (\<forall>i < length area. i < unat offset \<or> unat offset + length data \<le> i \<longrightarrow> mx_data (fs_mmio_data self') ! i = area ! i)
    else fst (fs_mmio_write p self offset data) = Err invalid_offset \<and>
      mx_data (fs_mmio_data (snd (fs_mmio_write p self offset data))) = area \<and>
      fs_mmio_read p self offset buf = (Err invalid_offset, buf)"
proof -
  have s: "unat (word_of_nat (length data) :: u64) = length data"
    using assms(3) by (intro unat_word_of_nat_small) simp
  then have e: "unat (offset + word_of_nat (length data)) = unat offset + length data"
    using assms(3) by (simp add: unat_word_ariths)
  have a: "(add_u64 p offset (word_of_nat (length data)) :: u64 Result) = Ok (offset + word_of_nat (length data))"
    using assms(3) s by (simp add: add_u64_def)
  show ?thesis
  proof (cases "unat offset + length data \<le> length area")
    case True
    let ?area = "splice area (unat offset) data"
    have w: "fs_mmio_write p self offset data = (Ok (), self\<lparr>fs_mmio_data := mutex_release (Ok () :: unit Result) ?area\<rparr>)"
      using True assms(1,2) a by (simp add: fs_mmio_write_def slice_range_def e Let_def)
    have "fs_mmio_read p (snd (fs_mmio_write p self offset data)) offset buf = (Ok (), data)"
      using True assms(4) a splice_read_back [OF True] by (simp add: fs_mmio_read_def w slice_range_def e Let_def)
    with w True show ?thesis
      by (auto simp: nth_splice)
  next
    case False
    with assms a show ?thesis
      by (simp add: fs_mmio_write_def fs_mmio_read_def e Let_def)
  qed
qed

theorem fs_mmio_write_read_witness:
  "\<exists>self'. fs_mmio_write Debug \<lparr>fs_root = [], fs_acls = mutex_new Map.empty, fs_mmio_region = Some (0, 4),
       fs_mmio_data = mutex_new [0, 0, 0, 0]\<rparr> 1 [7, 8] = (Ok (), self') \<and>
     fs_mmio_read Debug self' 1 [0, 0] = (Ok (), [7, 8])"
  using fs_mmio_write_read [of "\<lparr>fs_root = [], fs_acls = mutex_new Map.empty, fs_mmio_region = Some (0, 4),
       fs_mmio_data = mutex_new [0, 0, 0, 0]\<rparr>" "[0, 0, 0, 0]" 1 "[7, 8]" "[0, 0]" Debug]
  by auto

text \<open>
  An access whose end does not fit 64 bits never succeeds: it panics in a debug build, and in a
  release build it panics or is refused.  A write that panics poisons the lock, and from then on
  every access panics.
\<close>

theorem fs_mmio_overflow:
  assumes "\<not> mx_poisoned (fs_mmio_data self)" and "length data < 2 ^ 64" and "2 ^ 64 \<le> unat offset + length data"
  shows "fst (fs_mmio_read p self offset data) \<in> (if p = Debug then {Panic} else {Panic, Err invalid_offset}) \<and>
    fst (fs_mmio_write p self offset data) = fst (fs_mmio_read p self offset data) \<and>
    (fst (fs_mmio_write p self offset data) = Panic \<longrightarrow>
       (\<forall>off bs. fst (fs_mmio_read p (snd (fs_mmio_write p self offset data)) off bs) = Panic))"
proof -
  have s: "unat (word_of_nat (length data) :: u64) = length data"
    using assms(2) by (intro unat_word_of_nat_small) simp
  have "unat (offset + word_of_nat (length data)) = unat offset + length data - 2 ^ 64"
    using assms(2,3) s unat_bounds(4) [of offset] by (simp add: unat_word_ariths le_mod_geq)
  then have "unat (offset + word_of_nat (length data)) < unat offset"
    using assms(2,3) unat_bounds(4) [of offset] by simp
  then show ?thesis
    using assms s by (auto simp: fs_mmio_read_def fs_mmio_write_def add_u64_def slice_range_def Let_def)
qed

theorem fs_mmio_overflow_witness:
  "fst (fs_mmio_read Debug \<lparr>fs_root = [], fs_acls = mutex_new Map.empty, fs_mmio_region = None, fs_mmio_data = mutex_new []\<rparr>
     0xFFFFFFFFFFFFFFFF [0]) = Panic"
  using fs_mmio_overflow [of "\<lparr>fs_root = [], fs_acls = mutex_new Map.empty, fs_mmio_region = None, fs_mmio_data = mutex_new []\<rparr>"
      "[0]" "0xFFFFFFFFFFFFFFFF" Debug] by simp

text \<open>
  Lists of paths: what \<open>set_acl\<close> stores, \<open>get_acl\<close> returns, other paths keep theirs, and
  \<open>init_acl\<close> never replaces a list that is there.
\<close>

theorem fs_set_get_acl:
  assumes "\<not> mx_poisoned (fs_acls self)"
  shows "\<exists>self'. fs_set_acl self p acl = (Ok (), self') \<and> fs_get_acl self' p = Ok (Some acl) \<and>
    (\<forall>q. q \<noteq> p \<longrightarrow> fs_get_acl self' q = fs_get_acl self q) \<and>
    (\<forall>t. snd (fs_init_acl self' t p) = self')"
  using assms by (simp add: fs_set_acl_def fs_get_acl_def fs_init_acl_def split: sum.split)

theorem fs_set_get_acl_witness:
  "\<exists>self'. fs_set_acl \<lparr>fs_root = [], fs_acls = mutex_new Map.empty, fs_mmio_region = None, fs_mmio_data = mutex_new []\<rparr>
       [''a''] Acl_default = (Ok (), self') \<and> fs_get_acl self' [''a''] = Ok (Some Acl_default)"
  using fs_set_get_acl [of "\<lparr>fs_root = [], fs_acls = mutex_new Map.empty, fs_mmio_region = None, fs_mmio_data = mutex_new []\<rparr>"
      "[''a'']" Acl_default] by auto

text \<open>
  The number of a set of permissions reads back as the set, and exactly the numbers below 16
  are accepted.
\<close>

theorem acl_serde_roundtrip:
  "(acl_deserialize bits = Inr p \<longleftrightarrow> p = bits \<and> unat bits < 16) \<and>
   (acl_deserialize bits = Inr p \<longrightarrow> acl_deserialize (acl_serialize p) = Inr p)"
proof -
  have m: "(15 :: u32) = mask 4"
    by (simp add: mask_eq_exp_minus_1)
  have "bits AND NOT 15 = 0 \<longleftrightarrow> take_bit 4 bits = bits"
    unfolding m by (auto simp: bit_eq_iff bit_simps)
  also have "\<dots> \<longleftrightarrow> unat bits < 16"
    by (simp add: word_unat_eq_iff unsigned_take_bit_eq take_bit_nat_eq_self_iff)
  finally have "bits AND NOT 15 = 0 \<longleftrightarrow> unat bits < 16" .
  then show ?thesis
    by (auto simp: acl_deserialize_def acl_from_bits_def acl_serialize_def acl_all_value)
qed

theorem acl_serde_roundtrip_witness: "acl_deserialize (acl_serialize 5) = Inr 5 \<and> acl_deserialize 16 \<noteq> Inr 16"
  using acl_serde_roundtrip [of 5 5] acl_serde_roundtrip [of 16 16] by simp

end
