(* ===== verification/Hv_Fs.thy ===== *)
theory Hv_Fs
  imports Hv_Mmio Hv_Acl
begin

text \<open>
  The file system device (\<open>VirtioFs\<close> of \<open>src/virtio/fs.rs\<close>): the device behind the MMIO transport,
  which ignores its queue, and the vhost-user backend, whose event handler takes messages from a
  queue and answers none of them.
\<close>

unbundle bit_operations_syntax

record 'e VirtioFs =
  vfs_state :: FsState
  vfs_queue_evts :: "'e list"
  vfs_irq_trigger :: 'e
  vfs_features :: u64
  vfs_acked_features :: u64

definition VirtioFs_new ::
  "('m, 'q, 'c, 'e, 'z) virtio_ops_scheme \<Rightarrow> host_tree \<Rightarrow> path \<Rightarrow> 'e \<Rightarrow> 'e VirtioFs Result \<times> host_tree" where
  "VirtioFs_new V t root irq_trigger =
     and_then (FsState_new t root None) (\<lambda>state t.
     case evt_new V 0 of
       Inl e \<Rightarrow> (Err (IoError e), t)
     | Inr evt0 \<Rightarrow>
         (case evt_new V 0 of
            Inl e \<Rightarrow> (Err (IoError e), t)
          | Inr evt1 \<Rightarrow>
              (Ok \<lparr>vfs_state = state, vfs_queue_evts = [evt0, evt1], vfs_irq_trigger = irq_trigger, vfs_features = 0,
                   vfs_acked_features = 0\<rparr>, t)))"

section \<open>Messages\<close>

definition process_9p :: "u8 list \<Rightarrow> unit Result" where
  "process_9p msg =
     (if length msg < 4 then Err (IoError (IoErr InvalidInput ''Invalid message''))
      else if length msg \<le> 4 then Panic
      else Err (IoError (IoErr Unsupported ''Operation not supported'')))"

text \<open>The handlers for single messages, which nothing calls.\<close>

definition handle_version :: "u8 list \<Rightarrow> unit Result" where "handle_version data = Ok ()"
definition handle_attach :: "u8 list \<Rightarrow> unit Result" where "handle_attach data = Ok ()"
definition handle_walk :: "u8 list \<Rightarrow> unit Result" where "handle_walk data = Ok ()"
definition handle_getattr :: "u8 list \<Rightarrow> unit Result" where "handle_getattr data = Ok ()"
definition handle_open :: "u8 list \<Rightarrow> unit Result" where "handle_open data = Ok ()"
definition fs_handle_read :: "u8 list \<Rightarrow> unit Result" where "fs_handle_read data = Ok ()"
definition fs_handle_write :: "u8 list \<Rightarrow> unit Result" where "fs_handle_write data = Ok ()"
definition handle_clunk :: "u8 list \<Rightarrow> unit Result" where "handle_clunk data = Ok ()"

section \<open>The device behind the transport\<close>

definition fs_device :: "('e VirtioFs, 'm) VirtioDevice" where
  "fs_device =
     \<lparr>device_type = (\<lambda>self. 26),
      get_features = (\<lambda>self. push_bit 0 1 OR push_bit 32 1),
      set_acked_features = (\<lambda>self features. (Ok (), self\<lparr>vfs_acked_features := features\<rparr>)),
      read_config = (\<lambda>self offset data. (Ok (), map (\<lambda>_. 0) data)),
      write_config = (\<lambda>self offset data. (Ok (), self)),
      process_queue = (\<lambda>self queue_idx m. Some (Ok (), self, m)),
      get_queues = (\<lambda>self. [256]),
      get_interrupt_status = (\<lambda>self. 0),
      shutdown = default_shutdown,
      dev_mmio_read = default_mmio_read,
      dev_mmio_write = default_mmio_write,
      get_mmio_region = default_mmio_region\<rparr>"

interpretation vfs: virtio_device fs_device
  by unfold_locales (auto simp: fs_device_def same_identity_def)

section \<open>The vhost-user backend\<close>

definition backend_num_queues :: "'e VirtioFs \<Rightarrow> nat" where "backend_num_queues self = 1"
definition backend_max_queue_size :: "'e VirtioFs \<Rightarrow> nat" where "backend_max_queue_size self = 256"
definition backend_features :: "'e VirtioFs \<Rightarrow> u64" where "backend_features self = vfs_features self"
definition backend_protocol_features :: "'e VirtioFs \<Rightarrow> u64" where "backend_protocol_features self = 0"

text \<open>The backend with the memory that it holds.\<close>

definition update_memory :: "'m \<Rightarrow> 'e VirtioFs \<times> 'm \<Rightarrow> (io_error, unit) outcome \<times> 'e VirtioFs \<times> 'm" where
  "update_memory mem self = (Ok (), fst self, mem)"

definition set_event_idx :: "bool \<Rightarrow> 'e VirtioFs \<times> 'm \<Rightarrow> 'e VirtioFs \<times> 'm" where
  "set_event_idx enable self = self"

definition EVENT_IN :: u32 where "EVENT_IN = 1"

text \<open>One chain: only its first descriptor is looked at; a chain without one, or whose data cannot
  be read, is dropped.\<close>

definition fs_event_chain ::
  "('m, 'q, 'c, 'e, 'z) virtio_ops_scheme \<Rightarrow> 'c \<Rightarrow> 'q \<Rightarrow> 'm \<Rightarrow> unit \<Rightarrow> ((io_error, bool) outcome \<times> 'q \<times> 'm \<times> unit) option" where
  "fs_event_chain V desc_chain queue m s =
     (case chain_next V desc_chain m of
        (None, _) \<Rightarrow> Some (Ok True, queue, m, ())
      | (Some desc, _) \<Rightarrow>
          (case read_slice V m (replicate (unat (desc_len desc)) 0) (desc_addr desc) of
             (Some e, _) \<Rightarrow> Some (Ok True, queue, m, ())
           | (None, data) \<Rightarrow>
               if process_9p data = Panic then Some (Panic, queue, m, ())
               else (case queue_add_used V queue m (chain_head_index V desc_chain) (desc_len desc) of
                       (_, queue, m) \<Rightarrow> Some (Ok True, queue, m, ()))))"

definition fs_iter_error :: "vq_error \<Rightarrow> io_error" where
  "fs_iter_error e = IoErr Other (''Queue iter error: '' @ e)"

definition handle_event ::
  "('m, 'q, 'c, 'e, 'z) virtio_ops_scheme \<Rightarrow> 'e VirtioFs \<Rightarrow> u16 \<Rightarrow> u32 \<Rightarrow> 'q list \<Rightarrow> 'm \<Rightarrow>
   ((io_error, unit) outcome \<times> 'e VirtioFs \<times> 'q list \<times> 'm) option" where
  "handle_event V self device_event evset vrings m =
     (if device_event \<noteq> 0 then Some (Err (IoErr Other ''Unexpected device event''), self, vrings, m)
      else if evset AND EVENT_IN \<noteq> EVENT_IN then Some (Ok (), self, vrings, m)
      else
      Option.bind
        (case vrings of
           [] \<Rightarrow> Some (Ok (), vrings, m)
         | queue # rest \<Rightarrow>
             Option.bind (drain_queue V fs_iter_error (fs_event_chain V) queue m ())
               (\<lambda>(r, queue, m, _). Some (r, queue # rest, m))) (\<lambda>(r, vrings, m).
      case r of
        Ok _ \<Rightarrow>
          (case evt_write V (vfs_irq_trigger self) 1 of
             (None, evt) \<Rightarrow> Some (Ok (), self\<lparr>vfs_irq_trigger := evt\<rparr>, vrings, m)
           | (Some e, evt) \<Rightarrow>
               Some (Err (IoErr Other (''Failed to signal irq: '' @ io_error_to_string e)),
                     self\<lparr>vfs_irq_trigger := evt\<rparr>, vrings, m))
      | _ \<Rightarrow> Some (r, self, vrings, m)))"

section \<open>The error type\<close>

datatype FsError = FsIo io_error | InvalidMessage | UnsupportedOperation | PermissionDenied | InvalidOffset | FsEventFd io_error

primrec fs_error_to_string :: "FsError \<Rightarrow> string" where
  "fs_error_to_string (FsIo e) = ''I/O error: '' @ io_error_to_string e"
| "fs_error_to_string InvalidMessage = ''Invalid message format''"
| "fs_error_to_string UnsupportedOperation = ''Unsupported operation''"
| "fs_error_to_string PermissionDenied = ''Permission denied''"
| "fs_error_to_string InvalidOffset = ''Invalid offset''"
| "fs_error_to_string (FsEventFd e) = ''EventFd error: '' @ io_error_to_string e"

definition io_error_from_fs :: "FsError \<Rightarrow> io_error" where
  "io_error_from_fs e = (case e of FsIo e \<Rightarrow> e | e \<Rightarrow> IoErr Other (fs_error_to_string e))"

section \<open>Results\<close>

context virtqueue
begin

lemma fs_event_chain_ok:
  assumes "layout_ok f L" and "h < vq_size L" and "chain_direct (vq_size L) f L h" and "desc_in_ram f L (descriptor_at f L h)"
    and "invar m" and "chain_at c = (L, h, vq_size L)" and "chain_head_index V c = word_of_nat h"
    and "dom (view m) = dom f" and "\<And>x. x < vq_used L \<or> vq_used L + (6 + 8 * vq_size L) \<le> x \<Longrightarrow> view m x = f x"
    and "0 < unat (desc_len (descriptor_at f L h))"
  shows "fs_event_chain V c q m s =
    (if unat (desc_len (descriptor_at f L h)) = 4 then Some (Panic, q, m, ())
     else case queue_add_used V q m (word_of_nat h) (desc_len (descriptor_at f L h)) of
       (_, q', m') \<Rightarrow> Some (Ok True, q', m', ()))"
proof -
  let ?d = "descriptor_at f L h"
  have sr: "same_rings L (view m) f"
    using assms(1,9) by (auto simp: same_rings_def layout_ok_def apart_def)
  obtain t where t: "vq_size L = Suc t" using assms(2) by (cases "vq_size L") auto
  have "mapped (view m) (vq_desc L) (16 * vq_size L)"
    using assms(1) mapped_cong [OF assms(8)] by (simp add: layout_ok_def)
  then obtain c' where n: "chain_next V c m = (Some ?d, c')"
    using chain_some [OF assms(5), of c L h t] assms(2,3,6) t same_rings_descriptor [OF sr assms(2)] by auto
  have "mapped (view m) (unat (desc_addr ?d)) (unat (desc_len ?d))"
    using assms(4) mapped_cong [OF assms(8)] by (simp add: desc_in_ram_def)
  then have "fst (read_slice V m (replicate (unat (desc_len ?d)) 0) (desc_addr ?d)) = None"
    using read_ok [OF assms(5), of "replicate (unat (desc_len ?d)) 0" "desc_addr ?d"] assms(10) by simp
  moreover have "length (snd (read_slice V m (replicate (unat (desc_len ?d)) 0) (desc_addr ?d))) = unat (desc_len ?d)"
    using read_length [of m "replicate (unat (desc_len ?d)) 0" "desc_addr ?d"] by simp
  ultimately show ?thesis
    using n assms(7) by (auto simp: fs_event_chain_def process_9p_def split: prod.split)
qed

end


definition demo_fs :: "u64 VirtioFs" where
  "demo_fs = \<lparr>vfs_state = \<lparr>fs_root = [], fs_acls = mutex_new Map.empty, fs_mmio_region = None, fs_mmio_data = mutex_new []\<rparr>,
     vfs_queue_evts = [0, 0], vfs_irq_trigger = 0, vfs_features = 0, vfs_acked_features = 0\<rparr>"

lemma demo_first_desc:
  "descriptor_at (flat_view demo_ram) demo_layout 0 = \<lparr>desc_addr = 0x4000, desc_len = 2, desc_write_only = False\<rparr>"
  "desc_in_ram (flat_view demo_ram) demo_layout \<lparr>desc_addr = 0x4000, desc_len = 2, desc_write_only = False\<rparr>"
proof -
  show "descriptor_at (flat_view demo_ram) demo_layout 0 = \<lparr>desc_addr = 0x4000, desc_len = 2, desc_write_only = False\<rparr>"
    using demo_descs(1) by (simp add: demo_layout_def)
  show "desc_in_ram (flat_view demo_ram) demo_layout \<lparr>desc_addr = 0x4000, desc_len = 2, desc_write_only = False\<rparr>"
    by (simp add: desc_in_ram_def demo_mapped) (simp add: apart_def demo_layout_def)
qed


text \<open>
  C38. A guest takes the handler down with a message of four bytes: the length check lets it pass and
  the fifth byte is read.
\<close>

theorem fs_event_four_bytes_panics:
  assumes "virtqueue V invar view q_state chain_at chain_fuel" and "invar m"
    and "q_state q = \<lparr>st_ready = True, st_layout = L, st_next_avail = n, st_next_used = u\<rparr>"
    and "layout_ok (view m) L" and "driver_ok (view m) L n" and "pending_heads (view m) L n = h # hs"
    and "desc_in_ram (view m) L (descriptor_at (view m) L h)" and "desc_len (descriptor_at (view m) L h) = 4"
  shows "\<exists>q'. handle_event V self 0 EVENT_IN [q] m = Some (Panic, self, [q'], m)"
proof -
  have ok: "h < vq_size L" "chain_direct (vq_size L) (view m) L h"
    using assms(5,6) by (simp_all add: driver_ok_def)
  obtain c q1 where c: "queue_next V q m = (Inr (Some c), q1)"
    "chain_head_index V c = word_of_nat h" "chain_at c = (L, h, vq_size L)"
    using virtqueue.next_some [OF assms(1,2), of q h hs] assms(3-6) by (auto simp: driver_ok_def)
  have "fs_event_chain V c q1 m () = Some (Panic, q1, m, ())"
    using virtqueue.fs_event_chain_ok [OF assms(1,4) ok assms(7,2) c(3,2)] assms(8) by simp
  with c(1) show ?thesis
    by (simp add: handle_event_def drain_queue.simps [of V _ _ q])
qed

text \<open>The reference memory with a length of four in the descriptor.\<close>

definition four_ram :: flat_mem where
  "four_ram = demo_ram\<lparr>fm_byte := demo_byte(0x1008 := 4)\<rparr>"

theorem fs_event_four_bytes_panics_witness:
  "\<exists>q'. handle_event flat_virtio demo_fs 0 EVENT_IN [demo_queue] four_ram = Some (Panic, demo_fs, [q'], four_ram)"
proof -
  have mp: "mapped (flat_view four_ram) a k" if "a + k \<le> 134217728" for a k
    by (rule flat_mapped_single [of _ 0 134217728]) (use that in \<open>simp_all add: four_ram_def demo_ram_def\<close>)
  have byt: "bytes_at (flat_view four_ram) a k = map (demo_byte(0x1008 := 4)) [a..<a + k]" if "a + k \<le> 134217728" for a k
    using that by (auto simp: bytes_at_def flat_view_def four_ram_def demo_ram_def in_regions_def)
  have p: "pending_heads (flat_view four_ram) demo_layout 0 = [0]"
    by (simp add: pending_heads_def pending_count_def avail_idx_def avail_head_def demo_layout_def byt demo_byte_def)
  have d: "descriptor_at (flat_view four_ram) demo_layout 0 = \<lparr>desc_addr = 0x4000, desc_len = 4, desc_write_only = False\<rparr>"
    "\<not> desc_indirect (flat_view four_ram) demo_layout 0"
    by (simp_all add: descriptor_at_def desc_indirect_def demo_layout_def byt demo_byte_def)
  have "pending_count (flat_view four_ram) demo_layout 0 = 1"
    using arg_cong [OF p, of length] by (simp add: pending_heads_def)
  moreover have "vq_size demo_layout = Suc 0" by (simp add: demo_layout_def)
  ultimately have dr: "driver_ok (flat_view four_ram) demo_layout 0"
    using d(2) by (simp add: driver_ok_def p)
  have lo: "layout_ok (flat_view four_ram) demo_layout"
    by (simp add: layout_ok_def demo_layout_def mp apart_def)
  have ram: "desc_in_ram (flat_view four_ram) demo_layout (descriptor_at (flat_view four_ram) demo_layout 0)"
    by (simp add: d desc_in_ram_def mp) (simp add: apart_def demo_layout_def)
  have "flat_invar four_ram" "sq_state demo_queue = \<lparr>st_ready = True, st_layout = demo_layout, st_next_avail = 0, st_next_used = 0\<rparr>"
    by (simp_all add: flat_invar_def four_ram_def demo_ram_def demo_queue_def)
  from fs_event_four_bytes_panics [OF fq.virtqueue_axioms this lo dr p ram] show ?thesis
    by (simp add: d)
qed

end
