(* ===== verification/Hv_Serde.thy ===== *)
theory Hv_Serde
  imports Hv_Error
begin

text \<open>
  Serialisation as the snapshot code sees it.  \<open>serde\<close> and the formats are other crates.  A
  \<open>Serialize\<close> implementation turns a value into calls on a serializer, here a value of the serde data
  model \<open>sval\<close>.  A \<open>Deserialize\<close> implementation asks a deserializer for a kind of value; the
  operations that a format offers for this are the record \<open>de_ops\<close> over the format's deserializers.

  The locale \<open>serde_format\<close> states the contract of formats for primitive values and sequences.
  \<open>self_describing\<close> adds that a structure is presented as a map with its field names, as JSON does;
  \<open>positional\<close> that it is presented as a sequence without names, as \<open>bincode\<close> does.  JSON documents
  and the data model itself are the reference instances.
\<close>

section \<open>The data model\<close>

datatype sval =
    SU8 u8
  | SU32 u32
  | SU64 u64
  | SStr string
  | SBytes "u8 list"
  | SNewtype string sval
  | SSeq "sval list"
  | STuple "sval list"
  | SStruct string nat "(string \<times> sval) list"

datatype de_error =
    DuplicateField string
  | MissingField string
  | InvalidLength nat string
  | InvalidType string
  | DeCustom string

text \<open>The visitor method that a deserializer calls: \<open>visit_map\<close> with the entries, \<open>visit_seq\<close> with the
  elements, both possibly cut short by an error, or one that no visitor here implements.\<close>

datatype 'd visit =
    Visit_map "('d \<times> 'd) list" "de_error option"
  | Visit_seq "'d list" "de_error option"
  | Visit_other
  | Visit_error de_error

record 'd de_ops =
  de_u8 :: "'d \<Rightarrow> de_error + u8"
  de_u32 :: "'d \<Rightarrow> de_error + u32"
  de_u64 :: "'d \<Rightarrow> de_error + u64"
  de_string :: "'d \<Rightarrow> de_error + string"
  de_identifier :: "'d \<Rightarrow> de_error + string"
  de_byte_buf :: "'d \<Rightarrow> de_error + u8 list"
  de_borrowed_bytes :: "'d \<Rightarrow> de_error + u8 list"
  de_newtype :: "string \<Rightarrow> 'd \<Rightarrow> de_error + 'd"
  de_seq :: "'d \<Rightarrow> 'd visit"
  de_tuple :: "nat \<Rightarrow> 'd \<Rightarrow> 'd visit"
  de_map :: "'d \<Rightarrow> 'd visit"
  de_struct :: "string \<Rightarrow> string list \<Rightarrow> 'd \<Rightarrow> 'd visit"
  de_ignored :: "'d \<Rightarrow> de_error option"

section \<open>Visitors\<close>

definition of_sum :: "'e + 'a \<Rightarrow> ('e, 'a) outcome" where
  "of_sum r = (case r of Inl e \<Rightarrow> Err e | Inr a \<Rightarrow> Ok a)"

text \<open>\<open>while let Some(key) = map.next_key()? { .. }\<close>.\<close>

fun visit_entries ::
  "('d \<Rightarrow> de_error + string) \<Rightarrow> (string \<Rightarrow> 'd \<Rightarrow> 's \<Rightarrow> (de_error, 's) outcome) \<Rightarrow> ('d \<times> 'd) list \<Rightarrow> de_error option \<Rightarrow> 's \<Rightarrow>
   (de_error, 's) outcome" where
  "visit_entries key body [] None s = Ok s"
| "visit_entries key body [] (Some e) s = Err e"
| "visit_entries key body ((k, v) # es) fin s =
     bind_outcome (of_sum (key k)) (\<lambda>name. bind_outcome (body name v s) (\<lambda>s. visit_entries key body es fin s))"

text \<open>The elements of a sequence, one after the other.\<close>

fun visit_elements :: "('d \<Rightarrow> (de_error, 'a) outcome) \<Rightarrow> 'd list \<Rightarrow> de_error option \<Rightarrow> (de_error, 'a list) outcome" where
  "visit_elements f [] None = Ok []"
| "visit_elements f [] (Some e) = Err e"
| "visit_elements f (d # ds) fin = bind_outcome (f d) (\<lambda>x. bind_outcome (visit_elements f ds fin) (\<lambda>xs. Ok (x # xs)))"

text \<open>\<open>Vec<T>\<close> and \<open>(T, U)\<close>.\<close>

definition de_vec :: "'d de_ops \<Rightarrow> ('d \<Rightarrow> (de_error, 'a) outcome) \<Rightarrow> 'd \<Rightarrow> (de_error, 'a list) outcome" where
  "de_vec D f d =
     (case de_seq D d of
        Visit_seq ds fin \<Rightarrow> visit_elements f ds fin
      | Visit_error e \<Rightarrow> Err e
      | _ \<Rightarrow> Err (InvalidType ''a sequence''))"

definition de_pair ::
  "'d de_ops \<Rightarrow> ('d \<Rightarrow> (de_error, 'a) outcome) \<Rightarrow> ('d \<Rightarrow> (de_error, 'b) outcome) \<Rightarrow> 'd \<Rightarrow> (de_error, 'a \<times> 'b) outcome" where
  "de_pair D f g d =
     (case de_tuple D 2 d of
        Visit_seq ds fin \<Rightarrow>
          (case ds of
             a # b # _ \<Rightarrow> bind_outcome (f a) (\<lambda>x. bind_outcome (g b) (\<lambda>y. Ok (x, y)))
           | [a] \<Rightarrow> bind_outcome (f a) (\<lambda>x. Err (case fin of Some e \<Rightarrow> e | None \<Rightarrow> InvalidLength 1 ''a tuple of size 2''))
           | [] \<Rightarrow> Err (case fin of Some e \<Rightarrow> e | None \<Rightarrow> InvalidLength 0 ''a tuple of size 2''))
      | Visit_error e \<Rightarrow> Err e
      | _ \<Rightarrow> Err (InvalidType ''a tuple of size 2''))"

text \<open>\<open>let _: de::IgnoredAny = map.next_value()?\<close>.\<close>

definition skip_value :: "'d de_ops \<Rightarrow> 'd \<Rightarrow> 's \<Rightarrow> (de_error, 's) outcome" where
  "skip_value D d s = (case de_ignored D d of None \<Rightarrow> Ok s | Some e \<Rightarrow> Err e)"

text \<open>\<open>if x.is_some() { return Err(duplicate_field(name)) } x = Some(map.next_value()?)\<close>, and
  \<open>x.ok_or_else(|| missing_field(name))?\<close>.\<close>

definition set_once :: "string \<Rightarrow> 'a option \<Rightarrow> (de_error, 'a) outcome \<Rightarrow> ('a option \<Rightarrow> 's) \<Rightarrow> (de_error, 's) outcome" where
  "set_once name x r upd =
     (case x of Some _ \<Rightarrow> Err (DuplicateField name) | None \<Rightarrow> bind_outcome r (\<lambda>v. Ok (upd (Some v))))"

definition required :: "string \<Rightarrow> 'a option \<Rightarrow> (de_error, 'a) outcome" where
  "required name x = (case x of None \<Rightarrow> Err (MissingField name) | Some v \<Rightarrow> Ok v)"

text \<open>
  \<open>deserializer.deserialize_struct(name, FIELDS, visitor)\<close> for a visitor that implements \<open>expecting\<close>
  and \<open>visit_map\<close> only: every other method keeps its default, which is an error of type.
\<close>

definition visit_struct ::
  "'d de_ops \<Rightarrow> string \<Rightarrow> string list \<Rightarrow> string \<Rightarrow> (('d \<times> 'd) list \<Rightarrow> de_error option \<Rightarrow> (de_error, 'a) outcome) \<Rightarrow> 'd \<Rightarrow>
   (de_error, 'a) outcome" where
  "visit_struct D name names expecting visit_map d =
     (case de_struct D name names d of
        Visit_map es fin \<Rightarrow> visit_map es fin
      | Visit_error e \<Rightarrow> Err e
      | _ \<Rightarrow> Err (InvalidType expecting))"

section \<open>Contracts of formats\<close>

locale serde_format =
  fixes D :: "'d de_ops" and repr :: "sval \<Rightarrow> 'd \<Rightarrow> bool"
  assumes repr_u8: "repr (SU8 a) d \<Longrightarrow> de_u8 D d = Inr a"
    and repr_u32: "repr (SU32 b) d \<Longrightarrow> de_u32 D d = Inr b"
    and repr_u64: "repr (SU64 c) d \<Longrightarrow> de_u64 D d = Inr c"
    and repr_str: "repr (SStr s) d \<Longrightarrow> de_string D d = Inr s"
    and repr_bytes: "repr (SBytes bs) d \<Longrightarrow> de_byte_buf D d = Inr bs"
    and repr_newtype: "repr (SNewtype s v) d \<Longrightarrow> \<exists>d'. de_newtype D s d = Inr d' \<and> repr v d'"
    and repr_seq: "repr (SSeq vs) d \<Longrightarrow> \<exists>ds. de_seq D d = Visit_seq ds None \<and> list_all2 repr vs ds"
    and repr_tuple: "repr (STuple vs) d \<Longrightarrow> \<exists>ds. de_tuple D (length vs) d = Visit_seq ds None \<and> list_all2 repr vs ds"

locale self_describing = serde_format D repr
  for D :: "'d de_ops" and repr :: "sval \<Rightarrow> 'd \<Rightarrow> bool" +
  assumes repr_struct: "repr (SStruct s n fs) d \<Longrightarrow>
      \<exists>es. de_struct D s names d = Visit_map es None \<and> de_map D d = Visit_map es None \<and>
        list_all2 (\<lambda>(k, v) (dk, dv). de_identifier D dk = Inr k \<and> de_string D dk = Inr k \<and> repr v dv) fs es"

locale positional =
  fixes D :: "'d de_ops"
  assumes struct_seq: "\<exists>ds fin. de_struct D s names d = Visit_seq ds fin"

lemma of_sum_simps [simp, outcome_simps]: "of_sum (Inl e) = Err e" "of_sum (Inr a) = Ok a"
  by (simp_all add: of_sum_def)

lemma of_sum_not_panic [simp]: "of_sum r \<noteq> Panic"
  by (cases r) simp_all

lemma set_once_simps [simp, outcome_simps]:
  "set_once name None r upd = bind_outcome r (\<lambda>v. Ok (upd (Some v)))"
  "set_once name (Some x) r upd = Err (DuplicateField name)"
  by (simp_all add: set_once_def)

lemma required_simps [simp, outcome_simps]:
  "required name None = Err (MissingField name)" "required name (Some v) = Ok v"
  by (simp_all add: required_def)

lemma visit_elements_map:
  assumes "list_all2 P xs ds" and "\<And>x d. P x d \<Longrightarrow> x \<in> set xs \<Longrightarrow> f d = Ok (g x)"
  shows "visit_elements f ds None = Ok (map g xs)"
  using assms
proof (induction rule: list_all2_induct)
  case Nil
  then show ?case by simp
next
  case (Cons x xs d ds)
  then show ?case by simp
qed

context serde_format
begin

lemma de_vec_map:
  assumes "repr (SSeq (map h xs)) d" and "\<And>x d. repr (h x) d \<Longrightarrow> x \<in> set xs \<Longrightarrow> f d = Ok (g x)"
  shows "de_vec D f d = Ok (map g xs)"
proof -
  obtain ds where ds: "de_seq D d = Visit_seq ds None" "list_all2 repr (map h xs) ds"
    using repr_seq [OF assms(1)] by blast
  have "visit_elements f ds None = Ok (map g xs)"
    by (rule visit_elements_map [where P = "\<lambda>x. repr (h x)"]) (use ds(2) assms(2) in \<open>simp_all add: list.rel_map\<close>)
  with ds(1) show ?thesis
    by (simp add: de_vec_def)
qed

lemma de_vec_same:
  assumes "repr (SSeq (map h xs)) d" and "\<And>x d. repr (h x) d \<Longrightarrow> x \<in> set xs \<Longrightarrow> f d = Ok x"
  shows "de_vec D f d = Ok xs"
  using de_vec_map [where g = id, OF assms(1)] assms(2) by simp

lemma de_pair_ok:
  assumes "repr (STuple [v, w]) d" and "\<And>d. repr v d \<Longrightarrow> f d = Ok x" and "\<And>d. repr w d \<Longrightarrow> g d = Ok y"
  shows "de_pair D f g d = Ok (x, y)"
proof -
  obtain ds where ds: "de_tuple D 2 d = Visit_seq ds None" "list_all2 repr [v, w] ds"
    using repr_tuple [OF assms(1)] by (auto simp: numeral_2_eq_2)
  then show ?thesis
    using assms(2,3) by (auto simp: de_pair_def list_all2_Cons1)
qed

end

context self_describing
begin

lemma visit_struct_map:
  assumes "repr (SStruct name n fs) d"
    and "\<And>es. list_all2 (\<lambda>(k, v) (dk, dv). de_identifier D dk = Inr k \<and> repr v dv) fs es \<Longrightarrow> visit_map es None = r"
  shows "visit_struct D name names expecting visit_map d = r"
proof -
  obtain es where es: "de_struct D name names d = Visit_map es None"
    and rel: "list_all2 (\<lambda>(k, v) (dk, dv). de_identifier D dk = Inr k \<and> de_string D dk = Inr k \<and> repr v dv) fs es"
    using repr_struct [OF assms(1), of names] by blast
  have "list_all2 (\<lambda>(k, v) (dk, dv). de_identifier D dk = Inr k \<and> repr v dv) fs es"
    by (rule list_all2_mono [OF rel]) auto
  with assms(2) es show ?thesis
    by (simp add: visit_struct_def)
qed

end

context positional
begin

lemma visit_struct_fails: "visit_struct D name names expecting visit_map d = Err (InvalidType expecting)"
proof -
  obtain ds fin where "de_struct D name names d = Visit_seq ds fin"
    using struct_seq by blast
  then show ?thesis by (simp add: visit_struct_def)
qed

end

section \<open>JSON documents\<close>

datatype json = JNum nat | JStr string | JArr "json list" | JObj "(string \<times> json) list"

primrec to_json :: "sval \<Rightarrow> json" where
  "to_json (SU8 a) = JNum (unat a)"
| "to_json (SU32 b) = JNum (unat b)"
| "to_json (SU64 c) = JNum (unat c)"
| "to_json (SStr s) = JStr s"
| "to_json (SBytes bs) = JArr (map (\<lambda>b. JNum (unat b)) bs)"
| "to_json (SNewtype s v) = to_json v"
| "to_json (SSeq vs) = JArr (map to_json vs)"
| "to_json (STuple vs) = JArr (map to_json vs)"
| "to_json (SStruct s n fs) = JObj (map (map_prod id to_json) fs)"

definition json_word :: "nat \<Rightarrow> json \<Rightarrow> de_error + 'w::len word" where
  "json_word bound j =
     (case j of JNum n \<Rightarrow> if n < bound then Inr (word_of_nat n) else Inl (DeCustom ''integer out of range'')
      | _ \<Rightarrow> Inl (InvalidType ''integer''))"

definition json_text :: "json \<Rightarrow> de_error + string" where
  "json_text j = (case j of JStr s \<Rightarrow> Inr s | _ \<Rightarrow> Inl (InvalidType ''string''))"

fun json_bytes :: "json list \<Rightarrow> de_error + u8 list" where
  "json_bytes [] = Inr []"
| "json_bytes (j # js) =
     (case json_word 256 j of Inl e \<Rightarrow> Inl e | Inr b \<Rightarrow>
        (case json_bytes js of Inl e \<Rightarrow> Inl e | Inr bs \<Rightarrow> Inr (b # bs)))"

definition json_entries :: "json \<Rightarrow> json visit" where
  "json_entries j =
     (case j of JObj kvs \<Rightarrow> Visit_map (map (map_prod JStr id) kvs) None
      | JArr js \<Rightarrow> Visit_seq js None
      | _ \<Rightarrow> Visit_other)"

definition json_de :: "json de_ops" where
  "json_de =
     \<lparr>de_u8 = json_word 256, de_u32 = json_word 4294967296, de_u64 = json_word 18446744073709551616,
      de_string = json_text, de_identifier = json_text,
      de_byte_buf = (\<lambda>j. case j of JArr js \<Rightarrow> json_bytes js | JStr s \<Rightarrow> Inr (string_bytes s) | _ \<Rightarrow> Inl (InvalidType ''bytes'')),
      de_borrowed_bytes = (\<lambda>j. case j of JStr s \<Rightarrow> Inr (string_bytes s) | _ \<Rightarrow> Inl (InvalidType ''a borrowed byte array'')),
      de_newtype = (\<lambda>s j. Inr j), de_seq = json_entries, de_tuple = (\<lambda>n. json_entries), de_map = json_entries,
      de_struct = (\<lambda>s names. json_entries), de_ignored = (\<lambda>j. None)\<rparr>"

lemma json_bytes_map: "json_bytes (map (\<lambda>b. JNum (unat b)) bs) = Inr bs"
  using unat_bounds(1) by (induction bs) (auto simp: json_word_def)

interpretation js: self_describing json_de "\<lambda>v j. j = to_json v"
proof (unfold_locales, goal_cases)
  case (1 a d)
  then show ?case using unat_bounds(1) [of a] by (simp add: json_de_def json_word_def)
next
  case (2 b d)
  then show ?case using unat_bounds(3) [of b] by (simp add: json_de_def json_word_def)
next
  case (3 c d)
  then show ?case using unat_bounds(4) [of c] by (simp add: json_de_def json_word_def)
next
  case (4 s d)
  then show ?case by (simp add: json_de_def json_text_def)
next
  case (5 bs d)
  then show ?case by (simp add: json_de_def json_bytes_map)
next
  case (6 s v d)
  then show ?case by (simp add: json_de_def)
next
  case (7 vs d)
  then show ?case by (simp add: json_de_def json_entries_def list_all2_map2 list_all2_refl)
next
  case (8 vs d)
  then show ?case by (simp add: json_de_def json_entries_def list_all2_map2 list_all2_refl)
next
  case (9 s n fs d names)
  have "list_all2 (\<lambda>(k, v) (dk, dv). json_text dk = Inr k \<and> json_text dk = Inr k \<and> dv = to_json v) fs
      (map (map_prod JStr id) (map (map_prod id to_json) fs))"
    by (simp add: list_all2_map2 list_all2_conv_all_nth json_text_def split_beta)
  with 9 show ?case by (simp add: json_de_def json_entries_def)
qed

section \<open>Positional formats\<close>

text \<open>The data model as a format of its own, with structures presented as the sequence of their
  values.\<close>

definition sval_items :: "sval \<Rightarrow> sval visit" where
  "sval_items v =
     (case v of SSeq vs \<Rightarrow> Visit_seq vs None | STuple vs \<Rightarrow> Visit_seq vs None
      | SStruct s n fs \<Rightarrow> Visit_seq (map snd fs) None | _ \<Rightarrow> Visit_seq [] (Some (DeCustom ''end of input'')))"

definition sval_de :: "sval de_ops" where
  "sval_de =
     \<lparr>de_u8 = (\<lambda>v. case v of SU8 a \<Rightarrow> Inr a | _ \<Rightarrow> Inl (InvalidType ''u8'')),
      de_u32 = (\<lambda>v. case v of SU32 b \<Rightarrow> Inr b | _ \<Rightarrow> Inl (InvalidType ''u32'')),
      de_u64 = (\<lambda>v. case v of SU64 c \<Rightarrow> Inr c | _ \<Rightarrow> Inl (InvalidType ''u64'')),
      de_string = (\<lambda>v. case v of SStr s \<Rightarrow> Inr s | _ \<Rightarrow> Inl (InvalidType ''string'')),
      de_identifier = (\<lambda>v. Inl (DeCustom ''identifiers are not supported'')),
      de_byte_buf = (\<lambda>v. case v of SBytes bs \<Rightarrow> Inr bs | _ \<Rightarrow> Inl (InvalidType ''bytes'')),
      de_borrowed_bytes = (\<lambda>v. case v of SBytes bs \<Rightarrow> Inr bs | _ \<Rightarrow> Inl (InvalidType ''bytes'')),
      de_newtype = (\<lambda>s v. case v of SNewtype s v \<Rightarrow> Inr v | _ \<Rightarrow> Inl (InvalidType ''newtype'')),
      de_seq = sval_items, de_tuple = (\<lambda>n. sval_items), de_map = sval_items, de_struct = (\<lambda>s names. sval_items),
      de_ignored = (\<lambda>v. None)\<rparr>"

interpretation sv: serde_format sval_de "(=)"
  by unfold_locales (auto simp: sval_de_def sval_items_def list.rel_eq)

interpretation sp: positional sval_de
  by unfold_locales (auto simp: sval_de_def sval_items_def split: sval.split)

end
