(* ===== verification/Hv_Vm_State.thy ===== *)
theory Hv_Vm_State
  imports Hv_Serde Hv_Kvm
begin

text \<open>
  The snapshot data and its serialisation (\<open>src/snapshot.rs\<close>, the part before \<open>SnapshotManager\<close>).
  Register structures are copied byte for byte in and out of their memory representation, which is
  that of the \<open>kvm-bindings\<close> crate: the record \<open>kvm_layout\<close> is an argument of the model, and the
  locale \<open>kvm_raw\<close> says that a structure occupies a fixed number of bytes and is read back from them.
\<close>

section \<open>Memory representation of the register structures\<close>

record kvm_layout =
  regs_size :: nat
  regs_raw :: "kvm_regs \<Rightarrow> u8 list"
  regs_of_raw :: "u8 list \<Rightarrow> kvm_regs"
  sregs_size :: nat
  sregs_raw :: "kvm_sregs \<Rightarrow> u8 list"
  sregs_of_raw :: "u8 list \<Rightarrow> kvm_sregs"
  fpu_size :: nat
  fpu_raw :: "kvm_fpu \<Rightarrow> u8 list"
  fpu_of_raw :: "u8 list \<Rightarrow> kvm_fpu"

locale kvm_raw =
  fixes L :: kvm_layout
  assumes regs_raw_length: "length (regs_raw L r) = regs_size L"
    and regs_raw_back: "regs_of_raw L (regs_raw L r) = r"
    and sregs_raw_length: "length (sregs_raw L sr) = sregs_size L"
    and sregs_raw_back: "sregs_of_raw L (sregs_raw L sr) = sr"
    and fpu_raw_length: "length (fpu_raw L fp) = fpu_size L"
    and fpu_raw_back: "fpu_of_raw L (fpu_raw L fp) = fp"

section \<open>General registers\<close>

text \<open>The fields in the order in which \<open>serialize_kvm_regs\<close> writes them, with their accesses.\<close>

definition regs_fields :: "(string \<times> (kvm_regs \<Rightarrow> u64) \<times> (u64 \<Rightarrow> kvm_regs \<Rightarrow> kvm_regs)) list" where
  "regs_fields =
     [(''rax'', rax, \<lambda>v r. r\<lparr>rax := v\<rparr>), (''rbx'', rbx, \<lambda>v r. r\<lparr>rbx := v\<rparr>),
      (''rcx'', rcx, \<lambda>v r. r\<lparr>rcx := v\<rparr>), (''rdx'', rdx, \<lambda>v r. r\<lparr>rdx := v\<rparr>),
      (''rsi'', rsi, \<lambda>v r. r\<lparr>rsi := v\<rparr>), (''rdi'', rdi, \<lambda>v r. r\<lparr>rdi := v\<rparr>),
      (''rsp'', rsp, \<lambda>v r. r\<lparr>rsp := v\<rparr>), (''rbp'', rbp, \<lambda>v r. r\<lparr>rbp := v\<rparr>),
      (''r8'', r8, \<lambda>v r. r\<lparr>r8 := v\<rparr>), (''r9'', r9, \<lambda>v r. r\<lparr>r9 := v\<rparr>),
      (''r10'', r10, \<lambda>v r. r\<lparr>r10 := v\<rparr>), (''r11'', r11, \<lambda>v r. r\<lparr>r11 := v\<rparr>),
      (''r12'', r12, \<lambda>v r. r\<lparr>r12 := v\<rparr>), (''r13'', r13, \<lambda>v r. r\<lparr>r13 := v\<rparr>),
      (''r14'', r14, \<lambda>v r. r\<lparr>r14 := v\<rparr>), (''r15'', r15, \<lambda>v r. r\<lparr>r15 := v\<rparr>),
      (''rip'', rip, \<lambda>v r. r\<lparr>rip := v\<rparr>), (''rflags'', rflags, \<lambda>v r. r\<lparr>rflags := v\<rparr>)]"

definition serialize_kvm_regs :: "kvm_regs \<Rightarrow> sval" where
  "serialize_kvm_regs regs = SStruct ''kvm_regs'' 20 (map (\<lambda>(name, get, upd). (name, SU64 (get regs))) regs_fields)"

text \<open>\<open>std::mem::zeroed()\<close>.\<close>

definition zeroed_regs :: kvm_regs where
  "zeroed_regs = \<lparr>rax = 0, rbx = 0, rcx = 0, rdx = 0, rsi = 0, rdi = 0, rsp = 0, rbp = 0, r8 = 0, r9 = 0,
     r10 = 0, r11 = 0, r12 = 0, r13 = 0, r14 = 0, r15 = 0, rip = 0, rflags = 0\<rparr>"

definition RegsVisitor_field :: "'d de_ops \<Rightarrow> string \<Rightarrow> 'd \<Rightarrow> kvm_regs \<Rightarrow> (de_error, kvm_regs) outcome" where
  "RegsVisitor_field D key value regs =
     (case map_of regs_fields key of
        Some (get, upd) \<Rightarrow> bind_outcome (of_sum (de_u64 D value)) (\<lambda>v. Ok (upd v regs))
      | None \<Rightarrow> skip_value D value regs)"

definition deserialize_kvm_regs :: "'d de_ops \<Rightarrow> 'd \<Rightarrow> (de_error, kvm_regs) outcome" where
  "deserialize_kvm_regs D d =
     (case de_map D d of
        Visit_map es fin \<Rightarrow> visit_entries (de_string D) (RegsVisitor_field D) es fin zeroed_regs
      | Visit_error e \<Rightarrow> Err e
      | _ \<Rightarrow> Err (InvalidType ''struct kvm_regs''))"

section \<open>Other register structures as bytes\<close>

definition serialize_kvm_sregs :: "kvm_layout \<Rightarrow> kvm_sregs \<Rightarrow> sval" where
  "serialize_kvm_sregs L sregs = SBytes (sregs_raw L sregs)"

definition deserialize_kvm_sregs :: "kvm_layout \<Rightarrow> 'd de_ops \<Rightarrow> 'd \<Rightarrow> (de_error, kvm_sregs) outcome" where
  "deserialize_kvm_sregs L D d =
     bind_outcome (of_sum (de_borrowed_bytes D d)) (\<lambda>bytes.
     if length bytes \<noteq> sregs_size L
     then Err (InvalidLength (length bytes) (''kvm_sregs (expected '' @ dec_digits (sregs_size L) @ '' bytes)''))
     else Ok (sregs_of_raw L bytes))"

definition serialize_kvm_fpu :: "kvm_layout \<Rightarrow> kvm_fpu \<Rightarrow> sval" where
  "serialize_kvm_fpu L fpu = SBytes (fpu_raw L fpu)"

definition deserialize_kvm_fpu :: "kvm_layout \<Rightarrow> 'd de_ops \<Rightarrow> 'd \<Rightarrow> (de_error, kvm_fpu) outcome" where
  "deserialize_kvm_fpu L D d =
     bind_outcome (of_sum (de_borrowed_bytes D d)) (\<lambda>bytes.
     if length bytes \<noteq> fpu_size L
     then Err (InvalidLength (length bytes) (''kvm_fpu (expected '' @ dec_digits (fpu_size L) @ '' bytes)''))
     else Ok (fpu_of_raw L bytes))"

section \<open>Model-specific registers\<close>

text \<open>The three variables of the visitor, and their use for the result.\<close>

type_synonym msr_vars = "u32 option \<times> u32 option \<times> u64 option"

definition MsrEntryVisitor_field :: "'d de_ops \<Rightarrow> string \<Rightarrow> 'd \<Rightarrow> msr_vars \<Rightarrow> (de_error, msr_vars) outcome" where
  "MsrEntryVisitor_field D key v = (\<lambda>(index, reserved, data).
     if key = ''index'' then set_once ''index'' index (of_sum (de_u32 D v)) (\<lambda>x. (x, reserved, data))
     else if key = ''reserved'' then set_once ''reserved'' reserved (of_sum (de_u32 D v)) (\<lambda>x. (index, x, data))
     else if key = ''data'' then set_once ''data'' data (of_sum (de_u64 D v)) (\<lambda>x. (index, reserved, x))
     else skip_value D v (index, reserved, data))"

definition msr_entry_of :: "msr_vars \<Rightarrow> (de_error, kvm_msr_entry) outcome" where
  "msr_entry_of = (\<lambda>(index, reserved, data).
     bind_outcome (required ''index'' index) (\<lambda>index.
     bind_outcome (required ''reserved'' reserved) (\<lambda>reserved.
     bind_outcome (required ''data'' data) (\<lambda>data.
     Ok \<lparr>msr_index = index, msr_reserved = reserved, msr_data = data\<rparr>))))"

definition serialize_kvm_msr_entry :: "kvm_msr_entry \<Rightarrow> sval" where
  "serialize_kvm_msr_entry entry =
     SStruct ''kvm_msr_entry'' 3
       [(''index'', SU32 (msr_index entry)), (''reserved'', SU32 (msr_reserved entry)), (''data'', SU64 (msr_data entry))]"

definition deserialize_kvm_msr_entry :: "'d de_ops \<Rightarrow> 'd \<Rightarrow> (de_error, kvm_msr_entry) outcome" where
  "deserialize_kvm_msr_entry D d =
     (case de_map D d of
        Visit_map es fin \<Rightarrow>
          bind_outcome (visit_entries (de_string D) (MsrEntryVisitor_field D) es fin (None, None, None)) msr_entry_of
      | Visit_error e \<Rightarrow> Err e
      | _ \<Rightarrow> Err (InvalidType ''struct kvm_msr_entry''))"

text \<open>The derived implementations of \<open>MsrEntrySerde\<close>: the derived visitor also takes a sequence.\<close>

definition MsrEntrySerde_serialize :: "kvm_msr_entry \<Rightarrow> sval" where
  "MsrEntrySerde_serialize entry =
     SStruct ''MsrEntrySerde'' 3
       [(''index'', SU32 (msr_index entry)), (''reserved'', SU32 (msr_reserved entry)), (''data'', SU64 (msr_data entry))]"

definition MsrEntrySerde_seq :: "'d de_ops \<Rightarrow> 'd list \<Rightarrow> de_error option \<Rightarrow> (de_error, kvm_msr_entry) outcome" where
  "MsrEntrySerde_seq D ds fin =
     (let missing = (\<lambda>n. case fin of Some e \<Rightarrow> e | None \<Rightarrow> InvalidLength n ''struct MsrEntrySerde with 3 elements'') in
      bind_outcome (case ds of [] \<Rightarrow> Err (missing 0) | a # _ \<Rightarrow> of_sum (de_u32 D a)) (\<lambda>index.
      bind_outcome (case tl ds of [] \<Rightarrow> Err (missing 1) | b # _ \<Rightarrow> of_sum (de_u32 D b)) (\<lambda>reserved.
      bind_outcome (case tl (tl ds) of [] \<Rightarrow> Err (missing 2) | c # _ \<Rightarrow> of_sum (de_u64 D c)) (\<lambda>data.
      Ok \<lparr>msr_index = index, msr_reserved = reserved, msr_data = data\<rparr>))))"

definition MsrEntrySerde_deserialize :: "'d de_ops \<Rightarrow> 'd \<Rightarrow> (de_error, kvm_msr_entry) outcome" where
  "MsrEntrySerde_deserialize D d =
     (case de_struct D ''MsrEntrySerde'' [''index'', ''reserved'', ''data''] d of
        Visit_map es fin \<Rightarrow>
          bind_outcome (visit_entries (de_identifier D) (MsrEntryVisitor_field D) es fin (None, None, None)) msr_entry_of
      | Visit_seq ds fin \<Rightarrow> MsrEntrySerde_seq D ds fin
      | Visit_error e \<Rightarrow> Err e
      | Visit_other \<Rightarrow> Err (InvalidType ''struct MsrEntrySerde''))"

definition serialize_msr_entries :: "kvm_msr_entry list \<Rightarrow> sval" where
  "serialize_msr_entries msrs = SSeq (map MsrEntrySerde_serialize msrs)"

definition deserialize_msr_entries :: "'d de_ops \<Rightarrow> 'd \<Rightarrow> (de_error, kvm_msr_entry list) outcome" where
  "deserialize_msr_entries D d =
     (case de_seq D d of
        Visit_seq ds fin \<Rightarrow> visit_elements (MsrEntrySerde_deserialize D) ds fin
      | Visit_error e \<Rightarrow> Err e
      | _ \<Rightarrow> Err (InvalidType ''sequence of kvm_msr_entry''))"

section \<open>Registers of a vCPU in a snapshot\<close>

text \<open>The newtypes around the raw bytes; \<open>into_*\<close> panics when the length is not that of the structure.\<close>

datatype SerdeRegs = SerdeRegs "u8 list"
datatype SerdeSregs = SerdeSregs "u8 list"
datatype SerdeFpu = SerdeFpu "u8 list"

definition from_regs :: "kvm_layout \<Rightarrow> kvm_regs \<Rightarrow> SerdeRegs" where
  "from_regs L regs = SerdeRegs (regs_raw L regs)"

primrec into_regs :: "kvm_layout \<Rightarrow> SerdeRegs \<Rightarrow> (de_error, kvm_regs) outcome" where
  "into_regs L (SerdeRegs bs) = (if length bs = regs_size L then Ok (regs_of_raw L bs) else Panic)"

definition from_sregs :: "kvm_layout \<Rightarrow> kvm_sregs \<Rightarrow> SerdeSregs" where
  "from_sregs L sregs = SerdeSregs (sregs_raw L sregs)"

primrec into_sregs :: "kvm_layout \<Rightarrow> SerdeSregs \<Rightarrow> (de_error, kvm_sregs) outcome" where
  "into_sregs L (SerdeSregs bs) = (if length bs = sregs_size L then Ok (sregs_of_raw L bs) else Panic)"

definition from_fpu :: "kvm_layout \<Rightarrow> kvm_fpu \<Rightarrow> SerdeFpu" where
  "from_fpu L fpu = SerdeFpu (fpu_raw L fpu)"

primrec into_fpu :: "kvm_layout \<Rightarrow> SerdeFpu \<Rightarrow> (de_error, kvm_fpu) outcome" where
  "into_fpu L (SerdeFpu bs) = (if length bs = fpu_size L then Ok (fpu_of_raw L bs) else Panic)"

text \<open>The derived implementations, with \<open>serde_bytes\<close> for the field.\<close>

primrec SerdeRegs_serialize :: "SerdeRegs \<Rightarrow> sval" where
  "SerdeRegs_serialize (SerdeRegs bs) = SNewtype ''SerdeRegs'' (SBytes bs)"

primrec SerdeSregs_serialize :: "SerdeSregs \<Rightarrow> sval" where
  "SerdeSregs_serialize (SerdeSregs bs) = SNewtype ''SerdeSregs'' (SBytes bs)"

primrec SerdeFpu_serialize :: "SerdeFpu \<Rightarrow> sval" where
  "SerdeFpu_serialize (SerdeFpu bs) = SNewtype ''SerdeFpu'' (SBytes bs)"

definition de_newtype_bytes :: "'d de_ops \<Rightarrow> string \<Rightarrow> (u8 list \<Rightarrow> 'a) \<Rightarrow> 'd \<Rightarrow> (de_error, 'a) outcome" where
  "de_newtype_bytes D name wrap d =
     bind_outcome (of_sum (de_newtype D name d)) (\<lambda>d. bind_outcome (of_sum (de_byte_buf D d)) (\<lambda>bs. Ok (wrap bs)))"

section \<open>The structures of a snapshot\<close>

record MemoryRegion =
  mr_guest_addr :: u64
  mr_size :: u64
  mr_data :: "u8 list"

record DeviceState =
  ds_device_type :: string
  ds_state :: "u8 list"

record VcpuState =
  vs_id :: u32
  vs_regs :: kvm_regs
  vs_sregs :: kvm_sregs
  vs_fpu :: kvm_fpu
  vs_msrs :: "kvm_msr_entry list"

record VmState =
  memory_regions :: "MemoryRegion list"
  vcpu_states :: "VcpuState list"
  device_states :: "DeviceState list"

subsection \<open>Memory regions\<close>

definition MemoryRegion_serialize :: "MemoryRegion \<Rightarrow> sval" where
  "MemoryRegion_serialize self =
     SStruct ''MemoryRegion'' 3
       [(''guest_addr'', SU64 (mr_guest_addr self)), (''size'', SU64 (mr_size self)), (''data'', SSeq (map SU8 (mr_data self)))]"

type_synonym region_vars = "u64 option \<times> u64 option \<times> u8 list option"

definition MemoryRegionVisitor_field :: "'d de_ops \<Rightarrow> string \<Rightarrow> 'd \<Rightarrow> region_vars \<Rightarrow> (de_error, region_vars) outcome" where
  "MemoryRegionVisitor_field D key v = (\<lambda>(guest_addr, sz, data).
     if key = ''guest_addr'' then set_once ''guest_addr'' guest_addr (of_sum (de_u64 D v)) (\<lambda>x. (x, sz, data))
     else if key = ''size'' then set_once ''size'' sz (of_sum (de_u64 D v)) (\<lambda>x. (guest_addr, x, data))
     else if key = ''data'' then set_once ''data'' data (de_vec D (of_sum \<circ> de_u8 D) v) (\<lambda>x. (guest_addr, sz, x))
     else skip_value D v (guest_addr, sz, data))"

definition MemoryRegionVisitor_visit_map ::
  "'d de_ops \<Rightarrow> ('d \<times> 'd) list \<Rightarrow> de_error option \<Rightarrow> (de_error, MemoryRegion) outcome" where
  "MemoryRegionVisitor_visit_map D es fin =
     bind_outcome (visit_entries (de_identifier D) (MemoryRegionVisitor_field D) es fin (None, None, None))
       (\<lambda>(guest_addr, sz, data).
     bind_outcome (required ''guest_addr'' guest_addr) (\<lambda>guest_addr.
     bind_outcome (required ''size'' sz) (\<lambda>sz.
     bind_outcome (required ''data'' data) (\<lambda>data.
     Ok \<lparr>mr_guest_addr = guest_addr, mr_size = sz, mr_data = data\<rparr>))))"

definition MemoryRegion_deserialize :: "'d de_ops \<Rightarrow> 'd \<Rightarrow> (de_error, MemoryRegion) outcome" where
  "MemoryRegion_deserialize D =
     visit_struct D ''MemoryRegion'' [''guest_addr'', ''size'', ''data''] ''struct MemoryRegion'' (MemoryRegionVisitor_visit_map D)"

subsection \<open>Devices\<close>

definition DeviceState_serialize :: "DeviceState \<Rightarrow> sval" where
  "DeviceState_serialize self =
     SStruct ''DeviceState'' 2 [(''device_type'', SStr (ds_device_type self)), (''state'', SBytes (ds_state self))]"

type_synonym device_vars = "string option \<times> u8 list option"

definition DeviceStateVisitor_field :: "'d de_ops \<Rightarrow> string \<Rightarrow> 'd \<Rightarrow> device_vars \<Rightarrow> (de_error, device_vars) outcome" where
  "DeviceStateVisitor_field D key v = (\<lambda>(device_type, state).
     if key = ''device_type'' then set_once ''device_type'' device_type (of_sum (de_string D v)) (\<lambda>x. (x, state))
     else if key = ''state'' then set_once ''state'' state (of_sum (de_borrowed_bytes D v)) (\<lambda>x. (device_type, x))
     else skip_value D v (device_type, state))"

definition DeviceStateVisitor_visit_map ::
  "'d de_ops \<Rightarrow> ('d \<times> 'd) list \<Rightarrow> de_error option \<Rightarrow> (de_error, DeviceState) outcome" where
  "DeviceStateVisitor_visit_map D es fin =
     bind_outcome (visit_entries (de_identifier D) (DeviceStateVisitor_field D) es fin (None, None)) (\<lambda>(device_type, state).
     bind_outcome (required ''device_type'' device_type) (\<lambda>device_type.
     bind_outcome (required ''state'' state) (\<lambda>state.
     Ok \<lparr>ds_device_type = device_type, ds_state = state\<rparr>)))"

definition DeviceState_deserialize :: "'d de_ops \<Rightarrow> 'd \<Rightarrow> (de_error, DeviceState) outcome" where
  "DeviceState_deserialize D =
     visit_struct D ''DeviceState'' [''device_type'', ''state''] ''struct DeviceState'' (DeviceStateVisitor_visit_map D)"

subsection \<open>vCPUs\<close>

definition VcpuState_serialize :: "kvm_layout \<Rightarrow> VcpuState \<Rightarrow> sval" where
  "VcpuState_serialize L self =
     SStruct ''VcpuState'' 5
       [(''id'', SU32 (vs_id self)),
        (''regs'', SerdeRegs_serialize (from_regs L (vs_regs self))),
        (''sregs'', SerdeSregs_serialize (from_sregs L (vs_sregs self))),
        (''fpu'', SerdeFpu_serialize (from_fpu L (vs_fpu self))),
        (''msrs'', SSeq (map (\<lambda>entry. STuple [SU32 (msr_index entry), SU64 (msr_data entry)]) (vs_msrs self)))]"

type_synonym vcpu_vars = "u32 option \<times> kvm_regs option \<times> kvm_sregs option \<times> kvm_fpu option \<times> kvm_msr_entry list option"

text \<open>\<open>kvm_msr_entry { index, data, ..Default::default() }\<close>.\<close>

definition msr_entry_from_pair :: "u32 \<times> u64 \<Rightarrow> kvm_msr_entry" where
  "msr_entry_from_pair = (\<lambda>(index, data). \<lparr>msr_index = index, msr_reserved = 0, msr_data = data\<rparr>)"

definition VcpuStateVisitor_field ::
  "kvm_layout \<Rightarrow> 'd de_ops \<Rightarrow> string \<Rightarrow> 'd \<Rightarrow> vcpu_vars \<Rightarrow> (de_error, vcpu_vars) outcome" where
  "VcpuStateVisitor_field L D key v = (\<lambda>(i, regs, sregs, fpu, msrs).
     if key = ''id'' then set_once ''id'' i (of_sum (de_u32 D v)) (\<lambda>x. (x, regs, sregs, fpu, msrs))
     else if key = ''regs'' then
       set_once ''regs'' regs (bind_outcome (de_newtype_bytes D ''SerdeRegs'' SerdeRegs v) (into_regs L))
         (\<lambda>x. (i, x, sregs, fpu, msrs))
     else if key = ''sregs'' then
       set_once ''sregs'' sregs (bind_outcome (de_newtype_bytes D ''SerdeSregs'' SerdeSregs v) (into_sregs L))
         (\<lambda>x. (i, regs, x, fpu, msrs))
     else if key = ''fpu'' then
       set_once ''fpu'' fpu (bind_outcome (de_newtype_bytes D ''SerdeFpu'' SerdeFpu v) (into_fpu L))
         (\<lambda>x. (i, regs, sregs, x, msrs))
     else if key = ''msrs'' then
       set_once ''msrs'' msrs
         (bind_outcome (de_vec D (de_pair D (of_sum \<circ> de_u32 D) (of_sum \<circ> de_u64 D)) v)
           (\<lambda>msr_entries. Ok (map msr_entry_from_pair msr_entries)))
         (\<lambda>x. (i, regs, sregs, fpu, x))
     else skip_value D v (i, regs, sregs, fpu, msrs))"

definition VcpuStateVisitor_visit_map ::
  "kvm_layout \<Rightarrow> 'd de_ops \<Rightarrow> ('d \<times> 'd) list \<Rightarrow> de_error option \<Rightarrow> (de_error, VcpuState) outcome" where
  "VcpuStateVisitor_visit_map L D es fin =
     bind_outcome (visit_entries (de_identifier D) (VcpuStateVisitor_field L D) es fin (None, None, None, None, None))
       (\<lambda>(i, regs, sregs, fpu, msrs).
     bind_outcome (required ''id'' i) (\<lambda>i.
     bind_outcome (required ''regs'' regs) (\<lambda>regs.
     bind_outcome (required ''sregs'' sregs) (\<lambda>sregs.
     bind_outcome (required ''fpu'' fpu) (\<lambda>fpu.
     Ok \<lparr>vs_id = i, vs_regs = regs, vs_sregs = sregs, vs_fpu = fpu,
         vs_msrs = (case msrs of None \<Rightarrow> [] | Some ms \<Rightarrow> ms)\<rparr>)))))"

definition VcpuState_deserialize :: "kvm_layout \<Rightarrow> 'd de_ops \<Rightarrow> 'd \<Rightarrow> (de_error, VcpuState) outcome" where
  "VcpuState_deserialize L D =
     visit_struct D ''VcpuState'' [''id'', ''regs'', ''sregs'', ''fpu'', ''msrs''] ''struct VcpuState'' (VcpuStateVisitor_visit_map L D)"

subsection \<open>The machine\<close>

definition VmState_serialize :: "kvm_layout \<Rightarrow> VmState \<Rightarrow> sval" where
  "VmState_serialize L self =
     SStruct ''VmState'' 3
       [(''memory_regions'', SSeq (map MemoryRegion_serialize (memory_regions self))),
        (''vcpu_states'', SSeq (map (VcpuState_serialize L) (vcpu_states self))),
        (''device_states'', SSeq (map DeviceState_serialize (device_states self)))]"

type_synonym vm_vars = "MemoryRegion list option \<times> DeviceState list option \<times> VcpuState list option"

definition VmStateVisitor_field :: "kvm_layout \<Rightarrow> 'd de_ops \<Rightarrow> string \<Rightarrow> 'd \<Rightarrow> vm_vars \<Rightarrow> (de_error, vm_vars) outcome" where
  "VmStateVisitor_field L D key v = (\<lambda>(regions, devices, vcpus).
     if key = ''memory_regions'' then
       set_once ''memory_regions'' regions (de_vec D (MemoryRegion_deserialize D) v) (\<lambda>x. (x, devices, vcpus))
     else if key = ''device_states'' then
       set_once ''device_states'' devices (de_vec D (DeviceState_deserialize D) v) (\<lambda>x. (regions, x, vcpus))
     else if key = ''vcpu_states'' then
       set_once ''vcpu_states'' vcpus (de_vec D (VcpuState_deserialize L D) v) (\<lambda>x. (regions, devices, x))
     else skip_value D v (regions, devices, vcpus))"

definition VmStateVisitor_visit_map ::
  "kvm_layout \<Rightarrow> 'd de_ops \<Rightarrow> ('d \<times> 'd) list \<Rightarrow> de_error option \<Rightarrow> (de_error, VmState) outcome" where
  "VmStateVisitor_visit_map L D es fin =
     bind_outcome (visit_entries (de_identifier D) (VmStateVisitor_field L D) es fin (None, None, None))
       (\<lambda>(regions, devices, vcpus).
     bind_outcome (required ''memory_regions'' regions) (\<lambda>regions.
     Ok \<lparr>memory_regions = regions,
         vcpu_states = (case vcpus of None \<Rightarrow> [] | Some x \<Rightarrow> x),
         device_states = (case devices of None \<Rightarrow> [] | Some x \<Rightarrow> x)\<rparr>))"

definition VmState_deserialize :: "kvm_layout \<Rightarrow> 'd de_ops \<Rightarrow> 'd \<Rightarrow> (de_error, VmState) outcome" where
  "VmState_deserialize L D =
     visit_struct D ''VmState'' [''memory_regions'', ''device_states'', ''vcpu_states''] ''struct VmState''
       (VmStateVisitor_visit_map L D)"

section \<open>Round trips\<close>

lemma map_of_regs_fields: "(name, get, upd) \<in> set regs_fields \<Longrightarrow> map_of regs_fields name = Some (get, upd)"
proof (rule map_of_is_SomeI)
  show "distinct (map fst regs_fields)"
    by (simp add: regs_fields_def)
qed

lemma fold_regs_fields: "fold (\<lambda>(name, get, upd). upd (get r)) regs_fields s = r"
  by (cases s; cases r) (simp add: regs_fields_def)

text \<open>A format with names together with a representation of the register structures.\<close>

locale snapshot_format = self_describing D repr + kvm_raw L
  for D :: "'d de_ops" and repr :: "sval \<Rightarrow> 'd \<Rightarrow> bool" and L :: kvm_layout
begin

lemma MemoryRegion_roundtrip: "repr (MemoryRegion_serialize x) d \<Longrightarrow> MemoryRegion_deserialize D d = Ok x"
  unfolding MemoryRegion_deserialize_def MemoryRegion_serialize_def
proof (erule visit_struct_map)
  fix es
  assume "list_all2 (\<lambda>(k, v) (dk, dv). de_identifier D dk = Inr k \<and> repr v dv)
    [(''guest_addr'', SU64 (mr_guest_addr x)), (''size'', SU64 (mr_size x)), (''data'', SSeq (map SU8 (mr_data x)))] es"
  then obtain k1 v1 k2 v2 k3 v3 where es: "es = [(k1, v1), (k2, v2), (k3, v3)]"
    and k: "de_identifier D k1 = Inr ''guest_addr''" "de_identifier D k2 = Inr ''size''" "de_identifier D k3 = Inr ''data''"
    and v: "de_u64 D v1 = Inr (mr_guest_addr x)" "de_u64 D v2 = Inr (mr_size x)"
    and v3: "repr (SSeq (map SU8 (mr_data x))) v3"
    by (auto simp: list_all2_Cons1 repr_u64)
  have "de_vec D (of_sum \<circ> de_u8 D) v3 = Ok (mr_data x)"
    by (rule de_vec_same [OF v3]) (simp add: repr_u8)
  then show "MemoryRegionVisitor_visit_map D es None = Ok x"
    by (simp add: MemoryRegionVisitor_visit_map_def MemoryRegionVisitor_field_def es k v)
qed

text \<open>The bytes of a device are read with a borrow, which not every format can give.\<close>

lemma DeviceState_roundtrip:
  assumes "repr (DeviceState_serialize x) d" and "\<And>bs d. repr (SBytes bs) d \<Longrightarrow> de_borrowed_bytes D d = Inr bs"
  shows "DeviceState_deserialize D d = Ok x"
  using assms(1) unfolding DeviceState_deserialize_def DeviceState_serialize_def
proof (rule visit_struct_map)
  fix es
  assume "list_all2 (\<lambda>(k, v) (dk, dv). de_identifier D dk = Inr k \<and> repr v dv)
    [(''device_type'', SStr (ds_device_type x)), (''state'', SBytes (ds_state x))] es"
  then obtain k1 v1 k2 v2 where es: "es = [(k1, v1), (k2, v2)]"
    and k: "de_identifier D k1 = Inr ''device_type''" "de_identifier D k2 = Inr ''state''"
    and v: "de_string D v1 = Inr (ds_device_type x)" "de_borrowed_bytes D v2 = Inr (ds_state x)"
    by (auto simp: list_all2_Cons1 repr_str assms(2))
  show "DeviceStateVisitor_visit_map D es None = Ok x"
    by (simp add: DeviceStateVisitor_visit_map_def DeviceStateVisitor_field_def es k v)
qed

lemma newtype_bytes: "repr (SNewtype s (SBytes bs)) d \<Longrightarrow> de_newtype_bytes D s wrap d = Ok (wrap bs)"
  by (auto dest!: repr_newtype repr_bytes simp: de_newtype_bytes_def)

text \<open>The reserved word of a model-specific register is not stored.\<close>

lemma VcpuState_roundtrip:
  "repr (VcpuState_serialize L x) d \<Longrightarrow>
   VcpuState_deserialize L D d = Ok (x\<lparr>vs_msrs := map (\<lambda>e. e\<lparr>msr_reserved := 0\<rparr>) (vs_msrs x)\<rparr>)"
  unfolding VcpuState_deserialize_def VcpuState_serialize_def
proof (erule visit_struct_map)
  fix es
  let ?msrs = "SSeq (map (\<lambda>e. STuple [SU32 (msr_index e), SU64 (msr_data e)]) (vs_msrs x))"
  assume "list_all2 (\<lambda>(k, v) (dk, dv). de_identifier D dk = Inr k \<and> repr v dv)
    [(''id'', SU32 (vs_id x)), (''regs'', SerdeRegs_serialize (from_regs L (vs_regs x))),
     (''sregs'', SerdeSregs_serialize (from_sregs L (vs_sregs x))), (''fpu'', SerdeFpu_serialize (from_fpu L (vs_fpu x))),
     (''msrs'', ?msrs)] es"
  then obtain k1 v1 k2 v2 k3 v3 k4 v4 k5 v5 where es: "es = [(k1, v1), (k2, v2), (k3, v3), (k4, v4), (k5, v5)]"
    and k: "de_identifier D k1 = Inr ''id''" "de_identifier D k2 = Inr ''regs''" "de_identifier D k3 = Inr ''sregs''"
      "de_identifier D k4 = Inr ''fpu''" "de_identifier D k5 = Inr ''msrs''"
    and v: "de_u32 D v1 = Inr (vs_id x)"
      "de_newtype_bytes D ''SerdeRegs'' SerdeRegs v2 = Ok (SerdeRegs (regs_raw L (vs_regs x)))"
      "de_newtype_bytes D ''SerdeSregs'' SerdeSregs v3 = Ok (SerdeSregs (sregs_raw L (vs_sregs x)))"
      "de_newtype_bytes D ''SerdeFpu'' SerdeFpu v4 = Ok (SerdeFpu (fpu_raw L (vs_fpu x)))"
    and v5: "repr ?msrs v5"
    by (auto simp: list_all2_Cons1 repr_u32 from_regs_def from_sregs_def from_fpu_def newtype_bytes)
  have m: "de_vec D (de_pair D (of_sum \<circ> de_u32 D) (of_sum \<circ> de_u64 D)) v5 =
      Ok (map (\<lambda>e. (msr_index e, msr_data e)) (vs_msrs x))"
    by (rule de_vec_map [OF v5], rule de_pair_ok) (auto simp: repr_u32 repr_u64)
  have e: "map msr_entry_from_pair (map (\<lambda>e. (msr_index e, msr_data e)) ms) = map (\<lambda>e. e\<lparr>msr_reserved := 0\<rparr>) ms" for ms
    by (simp add: msr_entry_from_pair_def)
  show "VcpuStateVisitor_visit_map L D es None = Ok (x\<lparr>vs_msrs := map (\<lambda>e. e\<lparr>msr_reserved := 0\<rparr>) (vs_msrs x)\<rparr>)"
    using e [of "vs_msrs x"]
    by (simp add: VcpuStateVisitor_visit_map_def VcpuStateVisitor_field_def es k v m regs_raw_length regs_raw_back
        sregs_raw_length sregs_raw_back fpu_raw_length fpu_raw_back)
qed

lemma VcpuState_bad_regs:
  assumes "repr (SStruct ''VcpuState'' n ((''id'', SU32 i) # (''regs'', SNewtype ''SerdeRegs'' (SBytes bs)) # fs)) d"
    and "length bs \<noteq> regs_size L"
  shows "VcpuState_deserialize L D d = Panic"
  using assms(1) unfolding VcpuState_deserialize_def
proof (rule visit_struct_map)
  fix es
  assume "list_all2 (\<lambda>(k, v) (dk, dv). de_identifier D dk = Inr k \<and> repr v dv)
    ((''id'', SU32 i) # (''regs'', SNewtype ''SerdeRegs'' (SBytes bs)) # fs) es"
  then obtain k1 v1 k2 v2 es' where "es = (k1, v1) # (k2, v2) # es'" "de_identifier D k1 = Inr ''id''"
      "de_identifier D k2 = Inr ''regs''" "de_u32 D v1 = Inr i" "de_newtype_bytes D ''SerdeRegs'' SerdeRegs v2 = Ok (SerdeRegs bs)"
    by (auto simp: list_all2_Cons1 repr_u32 newtype_bytes)
  then show "VcpuStateVisitor_visit_map L D es None = Panic"
    using assms(2) by (simp add: VcpuStateVisitor_visit_map_def VcpuStateVisitor_field_def)
qed

lemma regs_entries_roundtrip:
  "list_all2 (\<lambda>(k, v) (dk, dv). de_string D dk = Inr k \<and> repr v dv) (map (\<lambda>(name, get, upd). (name, SU64 (get r))) fs) es \<Longrightarrow>
   (\<And>name get upd. (name, get, upd) \<in> set fs \<Longrightarrow> map_of regs_fields name = Some (get, upd)) \<Longrightarrow>
   visit_entries (de_string D) (RegsVisitor_field D) es None s = Ok (fold (\<lambda>(name, get, upd). upd (get r)) fs s)"
proof (induction fs arbitrary: es s)
  case Nil
  then show ?case by simp
next
  case (Cons f fs)
  obtain name get upd where f: "f = (name, get, upd)"
    by (cases f)
  obtain k v es' where es: "es = (k, v) # es'" "de_string D k = Inr name" "de_u64 D v = Inr (get r)"
    and rest: "list_all2 (\<lambda>(k, v) (dk, dv). de_string D dk = Inr k \<and> repr v dv)
      (map (\<lambda>(name, get, upd). (name, SU64 (get r))) fs) es'"
    using Cons.prems(1) by (auto simp: f list_all2_Cons1 repr_u64)
  have m: "map_of regs_fields name = Some (get, upd)"
    using Cons.prems(2) by (simp add: f)
  show ?case
    using Cons.IH [OF rest] Cons.prems(2) by (simp add: es f m RegsVisitor_field_def)
qed

lemma kvm_regs_roundtrip:
  assumes "repr (serialize_kvm_regs r) d"
  shows "deserialize_kvm_regs D d = Ok r"
proof -
  obtain es where m: "de_map D d = Visit_map es None"
    and rel: "list_all2 (\<lambda>(k, v) (dk, dv). de_identifier D dk = Inr k \<and> de_string D dk = Inr k \<and> repr v dv)
      (map (\<lambda>(name, get, upd). (name, SU64 (get r))) regs_fields) es"
    using repr_struct [OF assms [unfolded serialize_kvm_regs_def], of "[]"] by blast
  have "list_all2 (\<lambda>(k, v) (dk, dv). de_string D dk = Inr k \<and> repr v dv)
      (map (\<lambda>(name, get, upd). (name, SU64 (get r))) regs_fields) es"
    by (rule list_all2_mono [OF rel]) auto
  then have "visit_entries (de_string D) (RegsVisitor_field D) es None zeroed_regs =
      Ok (fold (\<lambda>(name, get, upd). upd (get r)) regs_fields zeroed_regs)"
    by (rule regs_entries_roundtrip) (rule map_of_regs_fields)
  then show ?thesis
    by (simp add: deserialize_kvm_regs_def m fold_regs_fields)
qed

lemma msr_entries_roundtrip:
  assumes "repr (serialize_msr_entries ms) d"
  shows "deserialize_msr_entries D d = Ok ms"
proof -
  have one: "MsrEntrySerde_deserialize D d = Ok e" if rp: "repr (MsrEntrySerde_serialize e) d" for e d
  proof -
    obtain es where st: "de_struct D ''MsrEntrySerde'' [''index'', ''reserved'', ''data''] d = Visit_map es None"
      and rel: "list_all2 (\<lambda>(k, v) (dk, dv). de_identifier D dk = Inr k \<and> de_string D dk = Inr k \<and> repr v dv)
        [(''index'', SU32 (msr_index e)), (''reserved'', SU32 (msr_reserved e)), (''data'', SU64 (msr_data e))] es"
      using repr_struct [OF rp [unfolded MsrEntrySerde_serialize_def]] by blast
    then show ?thesis
      by (auto simp: MsrEntrySerde_deserialize_def list_all2_Cons1 repr_u32 repr_u64 MsrEntryVisitor_field_def msr_entry_of_def)
  qed
  obtain ds where ds: "de_seq D d = Visit_seq ds None" "list_all2 repr (map MsrEntrySerde_serialize ms) ds"
    using repr_seq [OF assms [unfolded serialize_msr_entries_def]] by blast
  have "visit_elements (MsrEntrySerde_deserialize D) ds None = Ok (map id ms)"
    by (rule visit_elements_map [where P = "\<lambda>x. repr (MsrEntrySerde_serialize x)"]) (use ds(2) one in \<open>simp_all add: list.rel_map\<close>)
  with ds(1) show ?thesis
    by (simp add: deserialize_msr_entries_def)
qed

lemma VmState_roundtrip:
  assumes "repr (VmState_serialize L x) d"
    and "device_states x = [] \<or> (\<forall>bs d. repr (SBytes bs) d \<longrightarrow> de_borrowed_bytes D d = Inr bs)"
    and "list_all (\<lambda>c. list_all (\<lambda>e. msr_reserved e = 0) (vs_msrs c)) (vcpu_states x)"
  shows "VmState_deserialize L D d = Ok x"
  using assms(1) unfolding VmState_deserialize_def VmState_serialize_def
proof (rule visit_struct_map)
  fix es
  assume rel: "list_all2 (\<lambda>(k, v) (dk, dv). de_identifier D dk = Inr k \<and> repr v dv)
    [(''memory_regions'', SSeq (map MemoryRegion_serialize (memory_regions x))),
     (''vcpu_states'', SSeq (map (VcpuState_serialize L) (vcpu_states x))),
     (''device_states'', SSeq (map DeviceState_serialize (device_states x)))] es"
  then obtain k1 v1 k2 v2 k3 v3 where es: "es = [(k1, v1), (k2, v2), (k3, v3)]"
    and k: "de_identifier D k1 = Inr ''memory_regions''" "de_identifier D k2 = Inr ''vcpu_states''"
      "de_identifier D k3 = Inr ''device_states''"
    and v: "repr (SSeq (map MemoryRegion_serialize (memory_regions x))) v1"
      "repr (SSeq (map (VcpuState_serialize L) (vcpu_states x))) v2"
      "repr (SSeq (map DeviceState_serialize (device_states x))) v3"
    by (auto simp: list_all2_Cons1)
  have same: "c\<lparr>vs_msrs := map (\<lambda>e. e\<lparr>msr_reserved := 0\<rparr>) (vs_msrs c)\<rparr> = c" if "c \<in> set (vcpu_states x)" for c
  proof -
    have "map (\<lambda>e. e\<lparr>msr_reserved := 0\<rparr>) (vs_msrs c) = vs_msrs c"
      using assms(3) that by (auto simp: list_all_iff intro!: map_idI)
    then show ?thesis by simp
  qed
  have r: "de_vec D (MemoryRegion_deserialize D) v1 = Ok (memory_regions x)"
    by (rule de_vec_same [OF v(1)]) (rule MemoryRegion_roundtrip)
  have c: "de_vec D (VcpuState_deserialize L D) v2 = Ok (vcpu_states x)"
    by (rule de_vec_same [OF v(2)]) (simp add: VcpuState_roundtrip same)
  have dv: "de_vec D (DeviceState_deserialize D) v3 = Ok (device_states x)"
    by (rule de_vec_same [OF v(3)]) (use assms(2) in \<open>auto intro: DeviceState_roundtrip\<close>)
  show "VmStateVisitor_visit_map L D es None = Ok x"
    by (simp add: VmStateVisitor_visit_map_def VmStateVisitor_field_def es k r c dv)
qed

end

section \<open>A representation of the register structures\<close>

text \<open>Integers of given sizes one after the other, least significant byte first.\<close>

fun pack :: "(nat \<times> nat) list \<Rightarrow> u8 list" where
  "pack [] = []"
| "pack ((w, v) # fs) = le_bytes_nat w v @ pack fs"

fun unpack :: "nat list \<Rightarrow> u8 list \<Rightarrow> nat list" where
  "unpack [] bs = []"
| "unpack (w # ws) bs = le_nat (take w bs) # unpack ws (drop w bs)"

definition pack_regs :: "kvm_regs \<Rightarrow> (nat \<times> nat) list" where
  "pack_regs r = map (\<lambda>(name, get, upd). (8, unat (get r))) regs_fields"

fun unpack_regs :: "nat list \<Rightarrow> kvm_regs" where
  "unpack_regs vs = fold (\<lambda>((name, get, upd), v). upd (word_of_nat v)) (zip regs_fields vs) zeroed_regs"

definition pack_segment :: "kvm_segment \<Rightarrow> (nat \<times> nat) list" where
  "pack_segment s =
     [(8, unat (seg_base s)), (4, unat (seg_limit s)), (2, unat (seg_selector s)), (1, unat (seg_type s)),
      (1, unat (seg_present s)), (1, unat (seg_dpl s)), (1, unat (seg_db s)), (1, unat (seg_s s)), (1, unat (seg_l s)),
      (1, unat (seg_g s)), (1, unat (seg_avl s)), (1, unat (seg_unusable s)), (1, 0)]"

definition unpack_segment :: "nat list \<Rightarrow> kvm_segment" where
  "unpack_segment vs =
     \<lparr>seg_base = word_of_nat (vs ! 0), seg_limit = word_of_nat (vs ! 1), seg_selector = word_of_nat (vs ! 2),
      seg_type = word_of_nat (vs ! 3), seg_present = word_of_nat (vs ! 4), seg_dpl = word_of_nat (vs ! 5),
      seg_db = word_of_nat (vs ! 6), seg_s = word_of_nat (vs ! 7), seg_l = word_of_nat (vs ! 8),
      seg_g = word_of_nat (vs ! 9), seg_avl = word_of_nat (vs ! 10), seg_unusable = word_of_nat (vs ! 11)\<rparr>"

definition pack_dtable :: "kvm_dtable \<Rightarrow> (nat \<times> nat) list" where
  "pack_dtable t = [(8, unat (dt_base t)), (2, unat (dt_limit t)), (6, 0)]"

definition unpack_dtable :: "nat list \<Rightarrow> kvm_dtable" where
  "unpack_dtable vs = \<lparr>dt_base = word_of_nat (vs ! 0), dt_limit = word_of_nat (vs ! 1)\<rparr>"

definition segment_widths :: "nat list" where
  "segment_widths = [8, 4, 2, 1, 1, 1, 1, 1, 1, 1, 1, 1, 1]"

definition sregs_widths :: "nat list" where
  "sregs_widths = concat (replicate 8 segment_widths) @ [8, 2, 6, 8, 2, 6] @ [8, 8, 8, 8, 8, 8, 8, 32]"

definition pack_sregs :: "kvm_sregs \<Rightarrow> (nat \<times> nat) list" where
  "pack_sregs s =
     concat (map (\<lambda>get. pack_segment (get s)) [sr_cs, sr_ds, sr_es, sr_fs, sr_gs, sr_ss, sr_tr, sr_ldt]) @
     pack_dtable (sr_gdt s) @ pack_dtable (sr_idt s) @
     [(8, unat (sr_cr0 s)), (8, unat (sr_cr2 s)), (8, unat (sr_cr3 s)), (8, unat (sr_cr4 s)), (8, unat (sr_cr8 s)),
      (8, unat (sr_efer s)), (8, unat (sr_apic_base s)), (32, unat (sr_interrupt_bitmap s))]"

definition unpack_sregs :: "nat list \<Rightarrow> kvm_sregs" where
  "unpack_sregs vs =
     (let seg = (\<lambda>k. unpack_segment (take 13 (drop (13 * k) vs))); rest = drop 104 vs in
      \<lparr>sr_cs = seg 0, sr_ds = seg 1, sr_es = seg 2, sr_fs = seg 3, sr_gs = seg 4, sr_ss = seg 5, sr_tr = seg 6,
       sr_ldt = seg 7, sr_gdt = unpack_dtable rest, sr_idt = unpack_dtable (drop 3 rest),
       sr_cr0 = word_of_nat (rest ! 6), sr_cr2 = word_of_nat (rest ! 7), sr_cr3 = word_of_nat (rest ! 8),
       sr_cr4 = word_of_nat (rest ! 9), sr_cr8 = word_of_nat (rest ! 10), sr_efer = word_of_nat (rest ! 11),
       sr_apic_base = word_of_nat (rest ! 12), sr_interrupt_bitmap = word_of_nat (rest ! 13)\<rparr>)"

definition pack_fpu :: "kvm_fpu \<Rightarrow> (nat \<times> nat) list" where
  "pack_fpu f = [(2, unat (fpu_fcw f)), (4, unat (fpu_mxcsr f)), (410, unat (fpu_rest f))]"

definition unpack_fpu :: "nat list \<Rightarrow> kvm_fpu" where
  "unpack_fpu vs = \<lparr>fpu_fcw = word_of_nat (vs ! 0), fpu_mxcsr = word_of_nat (vs ! 1), fpu_rest = word_of_nat (vs ! 2)\<rparr>"

definition packed_layout :: kvm_layout where
  "packed_layout =
     \<lparr>regs_size = 144, regs_raw = (\<lambda>r. pack (pack_regs r)), regs_of_raw = (\<lambda>bs. unpack_regs (unpack (replicate 18 8) bs)),
      sregs_size = 312, sregs_raw = (\<lambda>r. pack (pack_sregs r)), sregs_of_raw = (\<lambda>bs. unpack_sregs (unpack sregs_widths bs)),
      fpu_size = 416, fpu_raw = (\<lambda>r. pack (pack_fpu r)), fpu_of_raw = (\<lambda>bs. unpack_fpu (unpack [2, 4, 410] bs))\<rparr>"

lemma length_pack: "length (pack fs) = sum_list (map fst fs)"
  by (induction fs rule: pack.induct) simp_all

lemma unpack_pack: "ws = map fst fs \<Longrightarrow> unpack ws (pack fs) = map (\<lambda>(w, v). le_nat (le_bytes_nat w v)) fs"
  by (induction fs arbitrary: ws rule: pack.induct) auto

lemma word_of_le_bytes:
  fixes w :: "'a::len word"
  assumes "LENGTH('a) \<le> 8 * k"
  shows "word_of_nat (le_nat (le_bytes_nat k (unat w))) = w"
proof -
  have "(2 :: nat) ^ LENGTH('a) \<le> 2 ^ (8 * k)"
    using assms by simp
  also have "\<dots> = 256 ^ k"
    by (simp add: power_mult)
  finally have "unat w < 256 ^ k"
    using unsigned_less [of w] by (rule less_le_trans [rotated])
  then show ?thesis by (simp add: le_nat_le_bytes_nat)
qed

lemma u8_of_le_bytes: "word_of_nat (le_nat (le_bytes_nat (Suc 0) (unat (w :: u8)))) = w"
  using word_of_le_bytes [of 1 w] by simp

lemma unpack_segment_pack: "unpack_segment (map (\<lambda>(w, v). le_nat (le_bytes_nat w v)) (pack_segment s)) = s"
  by (simp add: unpack_segment_def pack_segment_def word_of_le_bytes u8_of_le_bytes del: le_bytes_nat.simps)

lemma unpack_dtable_pack: "unpack_dtable (map (\<lambda>(w, v). le_nat (le_bytes_nat w v)) (pack_dtable t) @ vs) = t"
  by (simp add: unpack_dtable_def pack_dtable_def word_of_le_bytes del: le_bytes_nat.simps)

lemma length_pack_segment [simp]: "length (pack_segment s) = 13"
  by (simp add: pack_segment_def)

lemma length_pack_dtable [simp]: "length (pack_dtable t) = 3"
  by (simp add: pack_dtable_def)

lemma unpack_sregs_pack: "unpack_sregs (map (\<lambda>(w, v). le_nat (le_bytes_nat w v)) (pack_sregs s)) = s"
  by (simp add: unpack_sregs_def pack_sregs_def Let_def unpack_segment_pack unpack_dtable_pack nth_append word_of_le_bytes
      del: le_bytes_nat.simps)

lemma unpack_regs_pack: "unpack_regs (map (\<lambda>(w, v). le_nat (le_bytes_nat w v)) (pack_regs r)) = r"
  by (cases r) (simp add: pack_regs_def regs_fields_def zeroed_regs_def word_of_le_bytes del: le_bytes_nat.simps)

lemma pack_widths:
  "replicate 18 8 = map fst (pack_regs r)" "sregs_widths = map fst (pack_sregs s)" "[2, 4, 410] = map fst (pack_fpu f)"
  by (simp_all add: pack_regs_def regs_fields_def sregs_widths_def segment_widths_def pack_sregs_def pack_segment_def
      pack_dtable_def pack_fpu_def numeral_eq_Suc)

interpretation pk: kvm_raw packed_layout
proof (unfold_locales, goal_cases)
  case (1 r)
  show ?case by (simp add: packed_layout_def length_pack pack_regs_def regs_fields_def)
next
  case (2 r)
  show ?case by (simp only: packed_layout_def kvm_layout.simps unpack_pack [OF pack_widths(1)] unpack_regs_pack)
next
  case (3 sr)
  show ?case by (simp add: packed_layout_def length_pack pack_sregs_def pack_segment_def pack_dtable_def)
next
  case (4 sr)
  show ?case by (simp only: packed_layout_def kvm_layout.simps unpack_pack [OF pack_widths(2)] unpack_sregs_pack)
next
  case (5 fp)
  show ?case by (simp add: packed_layout_def length_pack pack_fpu_def)
next
  case (6 fp)
  have "unpack_fpu (map (\<lambda>(w, v). le_nat (le_bytes_nat w v)) (pack_fpu fp)) = fp"
    by (simp add: unpack_fpu_def pack_fpu_def word_of_le_bytes del: le_bytes_nat.simps)
  then show ?case by (simp only: packed_layout_def kvm_layout.simps unpack_pack [OF pack_widths(3)])
qed

interpretation jf: snapshot_format json_de "\<lambda>v j. j = to_json v" packed_layout
  by unfold_locales

section \<open>Properties\<close>


definition demo_state :: VmState where
  "demo_state = \<lparr>memory_regions = [\<lparr>mr_guest_addr = 0x1000, mr_size = 4096, mr_data = [1, 2, 3, 4]\<rparr>],
     vcpu_states = [\<lparr>vs_id = 0, vs_regs = zero_regs, vs_sregs = zero_sregs, vs_fpu = zero_fpu, vs_msrs = []\<rparr>],
     device_states = []\<rparr>"


text \<open>
  The serializers for single register structures and lists of model-specific registers are
  inverted by their deserializers in every format with field names.
\<close>

theorem register_serializers_roundtrip:
  assumes "self_describing D repr"
  shows "(repr (serialize_kvm_regs r) d \<longrightarrow> deserialize_kvm_regs D d = Ok r) \<and>
    (repr (serialize_msr_entries ms) d \<longrightarrow> deserialize_msr_entries D d = Ok ms)"
proof -
  have "snapshot_format D repr packed_layout"
    using assms by (simp add: snapshot_format_def pk.kvm_raw_axioms)
  from snapshot_format.kvm_regs_roundtrip [OF this] snapshot_format.msr_entries_roundtrip [OF this] show ?thesis
    by blast
qed

theorem register_serializers_roundtrip_witness:
  "deserialize_kvm_regs json_de (to_json (serialize_kvm_regs zero_regs)) = Ok zero_regs \<and>
   deserialize_msr_entries json_de (to_json (serialize_msr_entries [\<lparr>msr_index = 0x10, msr_reserved = 1, msr_data = 7\<rparr>])) =
     Ok [\<lparr>msr_index = 0x10, msr_reserved = 1, msr_data = 7\<rparr>]"
  by (rule conjI) (rule register_serializers_roundtrip [OF js.self_describing_axioms, THEN conjunct1, THEN mp, OF refl]
      register_serializers_roundtrip [OF js.self_describing_axioms, THEN conjunct2, THEN mp, OF refl])+

text \<open>
  A snapshot whose general registers have the wrong number of bytes does not give an error but
  makes the hypervisor panic.
\<close>

theorem vcpu_state_bad_length_panics:
  assumes "self_describing D repr" and "kvm_raw L" and "length bs \<noteq> regs_size L"
    and "repr (SStruct ''VcpuState'' n ((''id'', SU32 i) # (''regs'', SNewtype ''SerdeRegs'' (SBytes bs)) # fs)) d"
  shows "VcpuState_deserialize L D d = Panic"
proof -
  have "snapshot_format D repr L"
    using assms(1,2) by (simp add: snapshot_format_def)
  from snapshot_format.VcpuState_bad_regs [OF this, OF assms(4,3)] show ?thesis .
qed

theorem vcpu_state_bad_length_panics_witness:
  "VcpuState_deserialize packed_layout json_de (JObj [(''id'', JNum 0), (''regs'', JArr [JNum 1])]) = Panic"
proof -
  have len: "length [1 :: u8] \<noteq> regs_size packed_layout"
    by (simp add: packed_layout_def)
  have "VcpuState_deserialize packed_layout json_de
      (to_json (SStruct ''VcpuState'' 5 ((''id'', SU32 0) # (''regs'', SNewtype ''SerdeRegs'' (SBytes [1])) # []))) = Panic"
    by (rule vcpu_state_bad_length_panics [OF js.self_describing_axioms pk.kvm_raw_axioms len, OF refl])
  then show ?thesis by simp
qed

end
