(* ===== verification/Hv_Snapshot.thy ===== *)
theory Hv_Snapshot
  imports Hv_Vm_State Hv_Vcpu Hv_Memory
begin

text \<open>
  The snapshot manager (\<open>src/snapshot.rs\<close>): guest memory is copied region by region in chunks of 4096
  bytes, the registers of every vCPU are read and written through KVM, and the result is kept in a
  file.  The errors are boxed trait objects in the source; \<open>snap_error\<close> has a constructor for every
  type that is boxed.  The mapping of guest memory is shared between the manager and the machine, so
  the memory is threaded through the operations that write to it.
\<close>

section \<open>Errors, files and the file format\<close>

datatype snap_error = SnapHv HypervisorError | SnapIo io_error | SnapBincode string

primrec snap_error_to_string :: "(kvm_errno \<Rightarrow> string) \<Rightarrow> snap_error \<Rightarrow> string" where
  "snap_error_to_string errno_text (SnapHv e) = hypervisor_error_to_string errno_text e"
| "snap_error_to_string errno_text (SnapIo e) = io_error_to_string e"
| "snap_error_to_string errno_text (SnapBincode s) = s"

type_synonym 'a SnapResult = "(snap_error, 'a) outcome"

text \<open>The files of the host, with the paths that it refuses to open, and the faults of the next file
  that is created.\<close>

record host_store =
  store_files :: "string \<Rightarrow> host_file option"
  store_refused :: "string \<Rightarrow> io_error option"
  store_faults :: "nat option list"

definition store_create :: "host_store \<Rightarrow> string \<Rightarrow> io_error + host_file" where
  "store_create st path =
     (case store_refused st path of
        Some e \<Rightarrow> Inl e
      | None \<Rightarrow> Inr \<lparr>contents = [], file_pos = 0, writable = True, io_faults = store_faults st\<rparr>)"

definition store_open :: "host_store \<Rightarrow> string \<Rightarrow> io_error + host_file" where
  "store_open st path =
     (case store_refused st path of
        Some e \<Rightarrow> Inl e
      | None \<Rightarrow>
          (case store_files st path of
             None \<Rightarrow> Inl (IoErr (KindNo 2) ''No such file or directory'')
           | Some f \<Rightarrow> Inr (f\<lparr>file_pos := 0, writable := False\<rparr>)))"

text \<open>
  The crate \<open>bincode\<close>: the bytes that serialisation produces and the error that it may end with, the
  deserializer that reads from an open file, and the text of its errors.
\<close>

record 'd bincode_ops =
  bc_serialize :: "sval \<Rightarrow> string option \<times> u8 list"
  bc_reader :: "host_file \<Rightarrow> 'd"
  bc_de :: "'d de_ops"
  bc_error :: "de_error \<Rightarrow> string"

record 'v SnapshotManager =
  sm_vm_fd :: 'v

definition SnapshotManager_new :: "'v \<Rightarrow> 'v SnapshotManager" where
  "SnapshotManager_new vm_fd = \<lparr>sm_vm_fd = vm_fd\<rparr>"

section \<open>Memory\<close>

fun save_chunks :: "('m, 'z) gmem_ops_scheme \<Rightarrow> 'm \<Rightarrow> nat \<Rightarrow> nat \<Rightarrow> u8 list list \<Rightarrow> u8 list SnapResult" where
  "save_chunks G m region i [] = Ok []"
| "save_chunks G m region i (chunk # rest) =
     (let offset = word_of_nat (i * 4096) in
      case region_read_slice G m region chunk offset of
        (None, chunk) \<Rightarrow> bind_outcome (save_chunks G m region (Suc i) rest) (\<lambda>data. Ok (chunk @ data))
      | (Some e, chunk) \<Rightarrow>
          Err (SnapHv (MemoryError (''Failed to read memory at 0x'' @ hex_digits (unat offset) @ '': '' @ e))))"

fun save_regions :: "('m, 'z) gmem_ops_scheme \<Rightarrow> 'm \<Rightarrow> nat \<Rightarrow> (u64 \<times> nat) list \<Rightarrow> MemoryRegion list SnapResult" where
  "save_regions G m region [] = Ok []"
| "save_regions G m region ((start_addr, mem_size) # rest) =
     bind_outcome (save_chunks G m region 0 (chunks 4096 (replicate mem_size 0))) (\<lambda>data.
     bind_outcome (save_regions G m (Suc region) rest) (\<lambda>regions.
     Ok (\<lparr>mr_guest_addr = start_addr, mr_size = word_of_nat mem_size, mr_data = data\<rparr> # regions)))"

definition save_memory :: "('m, 'z) gmem_ops_scheme \<Rightarrow> 'm \<Rightarrow> MemoryRegion list SnapResult" where
  "save_memory G m = save_regions G m 0 (mem_iter G m)"

fun restore_chunks ::
  "profile \<Rightarrow> ('m, 'z) gmem_ops_scheme \<Rightarrow> nat \<Rightarrow> u64 \<Rightarrow> u64 \<Rightarrow> nat \<Rightarrow> u8 list list \<Rightarrow> 'm \<Rightarrow> unit SnapResult \<times> 'm" where
  "restore_chunks p G region region_offset guest_addr i [] m = (Ok (), m)"
| "restore_chunks p G region region_offset guest_addr i (chunk # rest) m =
     and_then (add_u64 p region_offset (word_of_nat (i * 4096)), m) (\<lambda>offset m.
     and_then (add_u64 p guest_addr (word_of_nat (i * 4096)), m) (\<lambda>addr m.
     case region_write_slice G m region chunk offset of
       (None, m) \<Rightarrow> restore_chunks p G region region_offset guest_addr (Suc i) rest m
     | (Some e, m) \<Rightarrow>
         (Err (SnapHv (MemoryError (''Failed to write memory at 0x'' @ hex_digits (unat addr) @ '': '' @ e))), m)))"

definition restore_region :: "profile \<Rightarrow> ('m, 'z) gmem_ops_scheme \<Rightarrow> MemoryRegion \<Rightarrow> 'm \<Rightarrow> unit SnapResult \<times> 'm" where
  "restore_region p G mem_region m =
     (let guest_addr = mr_guest_addr mem_region in
      case find_region G m guest_addr of
        None \<Rightarrow>
          (Err (SnapHv (MemoryError (''No memory region found for guest address 0x'' @ hex_digits (unat guest_addr)))), m)
      | Some region \<Rightarrow>
          let region_start = fst (mem_iter G m ! region); region_len = word_of_nat (snd (mem_iter G m ! region)) in
          (case checked_add_u64 region_start region_len of
             None \<Rightarrow> (Err (SnapHv (MemoryError ''Region end overflow'')), m)
           | Some region_end \<Rightarrow>
               (case checked_add_u64 guest_addr (mr_size mem_region) of
                  None \<Rightarrow> (Err (SnapHv (MemoryError ''Memory region end overflow'')), m)
                | Some mem_region_end \<Rightarrow>
                    if region_start > guest_addr \<or> region_end < mem_region_end
                    then (Err (SnapHv (MemoryError (''Memory region 0x'' @ hex_digits (unat guest_addr) @ '' size '' @
                            dec_digits (unat (mr_size mem_region)) @ '' doesn't fit in guest memory''))), m)
                    else restore_chunks p G region (guest_addr - region_start) guest_addr 0
                           (chunks 4096 (mr_data mem_region)) m)))"

fun restore_memory :: "profile \<Rightarrow> ('m, 'z) gmem_ops_scheme \<Rightarrow> MemoryRegion list \<Rightarrow> 'm \<Rightarrow> unit SnapResult \<times> 'm" where
  "restore_memory p G [] m = (Ok (), m)"
| "restore_memory p G (mem_region # regions) m =
     and_then (restore_region p G mem_region m) (\<lambda>_ m. restore_memory p G regions m)"

section \<open>vCPUs\<close>

text \<open>\<open>.map_err(|e| io::Error::new(io::ErrorKind::Other, e))?\<close> on the ioctls.\<close>

definition kvm_io_error :: "(kvm_errno \<Rightarrow> string) \<Rightarrow> kvm_errno \<Rightarrow> snap_error" where
  "kvm_io_error errno_text n = SnapIo (IoErr Other (errno_text n))"

definition snap_get :: "(kvm_errno \<Rightarrow> string) \<Rightarrow> kvm_errno + 'a \<Rightarrow> 'a SnapResult" where
  "snap_get errno_text r = (case r of Inl n \<Rightarrow> Err (kvm_io_error errno_text n) | Inr a \<Rightarrow> Ok a)"

definition snap_set :: "(kvm_errno \<Rightarrow> string) \<Rightarrow> kvm_errno option \<times> 'f \<Rightarrow> unit SnapResult \<times> 'f" where
  "snap_set errno_text r = (case r of (None, f) \<Rightarrow> (Ok (), f) | (Some n, f) \<Rightarrow> (Err (kvm_io_error errno_text n), f))"

definition save_vcpu_state ::
  "(kvm_errno \<Rightarrow> string) \<Rightarrow> ('k, 'v, 'f, 'c) kvm_ops \<Rightarrow> 'f Vcpu \<Rightarrow> VcpuState SnapResult" where
  "save_vcpu_state errno_text K vcpu =
     bind_outcome (snap_get errno_text (get_regs K (vcpu_fd vcpu))) (\<lambda>regs.
     bind_outcome (snap_get errno_text (get_sregs K (vcpu_fd vcpu))) (\<lambda>sregs.
     bind_outcome (snap_get errno_text (get_fpu K (vcpu_fd vcpu))) (\<lambda>fpu.
     Ok \<lparr>vs_id = ucast (vcpu_id vcpu), vs_regs = regs, vs_sregs = sregs, vs_fpu = fpu, vs_msrs = []\<rparr>)))"

definition restore_vcpu_state ::
  "(kvm_errno \<Rightarrow> string) \<Rightarrow> ('k, 'v, 'f, 'c) kvm_ops \<Rightarrow> 'f Vcpu \<Rightarrow> VcpuState \<Rightarrow> unit SnapResult \<times> 'f Vcpu" where
  "restore_vcpu_state errno_text K vcpu state =
     (case and_then (snap_set errno_text (set_regs K (vcpu_fd vcpu) (vs_regs state))) (\<lambda>_ fd.
           and_then (snap_set errno_text (set_sregs K fd (vs_sregs state))) (\<lambda>_ fd.
           snap_set errno_text (set_fpu K fd (vs_fpu state)))) of
        (r, fd) \<Rightarrow> (r, vcpu\<lparr>vcpu_fd := fd\<rparr>))"

section \<open>Snapshots\<close>

fun save_vcpu_states ::
  "(kvm_errno \<Rightarrow> string) \<Rightarrow> ('k, 'v, 'f, 'c) kvm_ops \<Rightarrow> 'f Vcpu list \<Rightarrow> VcpuState list SnapResult" where
  "save_vcpu_states errno_text K [] = Ok []"
| "save_vcpu_states errno_text K (vcpu # vcpus) =
     bind_outcome (save_vcpu_state errno_text K vcpu) (\<lambda>s.
     bind_outcome (save_vcpu_states errno_text K vcpus) (\<lambda>ss. Ok (s # ss)))"

definition create_snapshot ::
  "('m, 'z) gmem_ops_scheme \<Rightarrow> (kvm_errno \<Rightarrow> string) \<Rightarrow> ('k, 'v, 'f, 'c) kvm_ops \<Rightarrow> 'm \<Rightarrow> 'f Vcpu list \<Rightarrow> VmState SnapResult" where
  "create_snapshot G errno_text K m vcpus =
     bind_outcome (save_memory G m) (\<lambda>regions.
     bind_outcome (save_vcpu_states errno_text K vcpus) (\<lambda>states.
     Ok \<lparr>memory_regions = regions, vcpu_states = states, device_states = []\<rparr>))"

text \<open>The loop over the saved vCPUs; a state without a vCPU at its position is passed over.\<close>

fun restore_vcpus ::
  "(kvm_errno \<Rightarrow> string) \<Rightarrow> ('k, 'v, 'f, 'c) kvm_ops \<Rightarrow> nat \<Rightarrow> VcpuState list \<Rightarrow> 'f Vcpu list \<Rightarrow> unit SnapResult \<times> 'f Vcpu list" where
  "restore_vcpus errno_text K i [] vcpus = (Ok (), vcpus)"
| "restore_vcpus errno_text K i (state # states) vcpus =
     (if i < length vcpus then
        (case restore_vcpu_state errno_text K (vcpus ! i) state of
           (r, vcpu) \<Rightarrow> and_then (r, vcpus[i := vcpu]) (\<lambda>_ vcpus. restore_vcpus errno_text K (Suc i) states vcpus))
      else restore_vcpus errno_text K (Suc i) states vcpus)"

definition restore_snapshot ::
  "profile \<Rightarrow> ('m, 'z) gmem_ops_scheme \<Rightarrow> (kvm_errno \<Rightarrow> string) \<Rightarrow> ('k, 'v, 'f, 'c) kvm_ops \<Rightarrow> VmState \<Rightarrow> 'm \<Rightarrow> 'f Vcpu list \<Rightarrow>
   unit SnapResult \<times> 'm \<times> 'f Vcpu list" where
  "restore_snapshot p G errno_text K state m vcpus =
     (case restore_memory p G (memory_regions state) m of
        (Ok _, m) \<Rightarrow> (case restore_vcpus errno_text K 0 (vcpu_states state) vcpus of (r, vcpus) \<Rightarrow> (r, m, vcpus))
      | (Err e, m) \<Rightarrow> (Err e, m, vcpus)
      | (Panic, m) \<Rightarrow> (Panic, m, vcpus))"

definition save_to_file ::
  "('m, 'z) gmem_ops_scheme \<Rightarrow> (kvm_errno \<Rightarrow> string) \<Rightarrow> ('k, 'v, 'f, 'c) kvm_ops \<Rightarrow> kvm_layout \<Rightarrow> 'd bincode_ops \<Rightarrow>
   string \<Rightarrow> 'm \<Rightarrow> 'f Vcpu list \<Rightarrow> host_store \<Rightarrow> unit SnapResult \<times> host_store" where
  "save_to_file G errno_text K L B path m vcpus st =
     and_then (create_snapshot G errno_text K m vcpus, st) (\<lambda>state st.
     case store_create st path of
       Inl e \<Rightarrow> (Err (SnapIo e), st)
     | Inr f \<Rightarrow>
         (case bc_serialize B (VmState_serialize L state) of (ser_error, bytes) \<Rightarrow>
            (case file_write_all f bytes of (io_err, f) \<Rightarrow>
               (case io_err of
                  Some e \<Rightarrow> Err (SnapBincode (io_error_to_string e))
                | None \<Rightarrow> (case ser_error of Some e \<Rightarrow> Err (SnapBincode e) | None \<Rightarrow> Ok ()),
                st\<lparr>store_files := (store_files st)(path \<mapsto> f)\<rparr>))))"

definition load_from_file ::
  "profile \<Rightarrow> ('m, 'z) gmem_ops_scheme \<Rightarrow> (kvm_errno \<Rightarrow> string) \<Rightarrow> ('k, 'v, 'f, 'c) kvm_ops \<Rightarrow> kvm_layout \<Rightarrow> 'd bincode_ops \<Rightarrow>
   host_store \<Rightarrow> string \<Rightarrow> 'm \<Rightarrow> 'f Vcpu list \<Rightarrow> unit SnapResult \<times> 'm \<times> 'f Vcpu list" where
  "load_from_file p G errno_text K L B st path m vcpus =
     (case store_open st path of
        Inl e \<Rightarrow> (Err (SnapIo e), m, vcpus)
      | Inr f \<Rightarrow>
          (case VmState_deserialize L (bc_de B) (bc_reader B f) of
             Err e \<Rightarrow> (Err (SnapBincode (bc_error B e)), m, vcpus)
           | Panic \<Rightarrow> (Panic, m, vcpus)
           | Ok state \<Rightarrow> restore_snapshot p G errno_text K state m vcpus))"

section \<open>Memory is copied and put back\<close>

lemma chunks_Nil [simp]: "chunks n [] = []"
  by (subst chunks.simps) simp

lemma chunks_step: "xs \<noteq> [] \<Longrightarrow> 0 < n \<Longrightarrow> chunks n xs = take n xs # chunks n (drop n xs)"
  by (subst chunks.simps) simp

text \<open>What \<open>save_memory\<close> stores of a region.\<close>

definition saved_region :: "bytemap \<Rightarrow> u64 \<times> nat \<Rightarrow> MemoryRegion" where
  "saved_region f r =
     \<lparr>mr_guest_addr = fst r, mr_size = word_of_nat (snd r), mr_data = bytes_at f (unat (fst r)) (snd r)\<rparr>"

text \<open>The contract of writing a buffer from an address on: it succeeds exactly when the buffer fits, and
  what is outside of the addressed range is left alone in any case.\<close>

definition restored ::
  "('m, 'z) gmem_ops_scheme \<Rightarrow> ('m \<Rightarrow> bool) \<Rightarrow> ('m \<Rightarrow> bytemap) \<Rightarrow> 'm \<Rightarrow> nat \<Rightarrow> u8 list \<Rightarrow> bool \<Rightarrow> unit SnapResult \<times> 'm \<Rightarrow> bool" where
  "restored G invar view m a xs fits r \<longleftrightarrow>
     invar (snd r) \<and> mem_iter G (snd r) = mem_iter G m \<and> fst r \<noteq> Panic \<and> (fst r = Ok () \<longleftrightarrow> fits) \<and>
     (fits \<longrightarrow> view (snd r) = put_bytes (view m) a xs) \<and>
     (\<forall>x. x < a \<or> a + length xs \<le> x \<longrightarrow> view (snd r) x = view m x)"

context guest_regions
begin

lemma save_chunks_ok:
  assumes "invar m" and "r < length (mem_iter G m)" and "mem_iter G m ! r = (s, n)"
    and "xs = [] \<or> i * 4096 + length xs \<le> n"
  shows "save_chunks G m r i (chunks 4096 xs) = Ok (bytes_at (view m) (unat s + i * 4096) (length xs))"
  using assms(4)
proof (induction "length xs" arbitrary: xs i rule: less_induct)
  case less
  show ?case
  proof (cases "xs = []")
    case True
    then show ?thesis by (simp add: bytes_at_def)
  next
    case False
    define k where "k = min 4096 (length xs)"
    have b: "i * 4096 + length xs \<le> n" "n \<le> 2 ^ 64" "0 < k" "length (take 4096 xs) = k" "k \<le> length xs"
      using less.prems False regions_bounded [OF assms(1), of s n] assms(2,3) nth_mem [OF assms(2)]
      by (auto simp: k_def)
    have off: "unat (word_of_nat (i * 4096) :: u64) = i * 4096"
      using b(1,2) False by (intro unat_word_of_nat_small(4)) (cases xs, auto)
    have rd: "region_read_slice G m r (take 4096 xs) (word_of_nat (i * 4096)) =
        (None, bytes_at (view m) (unat s + i * 4096) k)"
      using region_read [OF assms(1,2), of "take 4096 xs" "word_of_nat (i * 4096)"] b off False assms(3) by simp
    have rest: "save_chunks G m r (Suc i) (chunks 4096 (drop 4096 xs)) =
        Ok (bytes_at (view m) (unat s + Suc i * 4096) (length (drop 4096 xs)))"
      using less.hyps [of "drop 4096 xs" "Suc i"] b(1) False by (cases "length xs \<le> 4096") simp_all
    have "bytes_at (view m) (unat s + i * 4096) k @ bytes_at (view m) (unat s + Suc i * 4096) (length xs - 4096) =
        bytes_at (view m) (unat s + i * 4096) (length xs)"
      using bytes_at_split [OF b(5), of "view m" "unat s + i * 4096"]
      by (cases "length xs \<le> 4096") (simp_all add: k_def bytes_at_def ac_simps)
    with rd rest False show ?thesis
      by (simp add: chunks_step)
  qed
qed

lemma save_regions_ok:
  "invar m \<Longrightarrow> drop r (mem_iter G m) = rs \<Longrightarrow> save_regions G m r rs = Ok (map (saved_region (view m)) rs)"
proof (induction rs arbitrary: r)
  case Nil
  then show ?case by simp
next
  case (Cons x rs)
  obtain s n where x: "x = (s, n)"
    by (cases x)
  have r: "r < length (mem_iter G m)" "mem_iter G m ! r = (s, n)" "drop (Suc r) (mem_iter G m) = rs"
    using Cons.prems(2) x by (auto simp: not_le [symmetric] nth_via_drop drop_Suc drop_tl)
  show ?case
    using save_chunks_ok [OF Cons.prems(1) r(1,2), of "replicate n 0" 0] Cons.IH [OF Cons.prems(1) r(3)]
    by (simp add: x saved_region_def)
qed

lemma save_memory_ok: "invar m \<Longrightarrow> save_memory G m = Ok (map (saved_region (view m)) (mem_iter G m))"
  by (simp add: save_memory_def save_regions_ok)


lemma restore_chunk_step:
  assumes "invar m" and "r < length (mem_iter G m)" and "mem_iter G m ! r = (s, n)" and "unat s + n < 2 ^ 64"
    and "unat off + i * 4096 \<le> n" and "unat ga = unat s + unat off"
  shows "restore_chunks p G r off ga i (c # cs) m =
    (case region_write_slice G m r c (off + word_of_nat (i * 4096)) of
       (None, m) \<Rightarrow> restore_chunks p G r off ga (Suc i) cs m
     | (Some e, m) \<Rightarrow>
         (Err (SnapHv (MemoryError (''Failed to write memory at 0x'' @ hex_digits (unat (ga + word_of_nat (i * 4096))) @ '': '' @ e))), m))"
    and "unat (off + word_of_nat (i * 4096)) = unat off + i * 4096"
proof -
  have w: "unat (word_of_nat (i * 4096) :: u64) = i * 4096"
    using assms(4,5) by (intro unat_word_of_nat_small(4)) simp
  show "unat (off + word_of_nat (i * 4096)) = unat off + i * 4096"
    using assms(4,5) w by (subst unat_add_lem [THEN iffD1]) simp_all
  show "restore_chunks p G r off ga i (c # cs) m =
    (case region_write_slice G m r c (off + word_of_nat (i * 4096)) of
       (None, m) \<Rightarrow> restore_chunks p G r off ga (Suc i) cs m
     | (Some e, m) \<Rightarrow>
         (Err (SnapHv (MemoryError (''Failed to write memory at 0x'' @ hex_digits (unat (ga + word_of_nat (i * 4096))) @ '': '' @ e))), m))"
  proof -
    have "(add_u64 p off (word_of_nat (i * 4096)) :: u64 SnapResult) = Ok (off + word_of_nat (i * 4096))"
        "(add_u64 p ga (word_of_nat (i * 4096)) :: u64 SnapResult) = Ok (ga + word_of_nat (i * 4096))"
      using assms(4-6) w by (simp_all add: add_u64_def)
    then show ?thesis
      by (simp only: restore_chunks.simps and_then_simps)
  qed
qed

lemma restore_chunks_spec:
  assumes "invar m" and "r < length (mem_iter G m)" and "mem_iter G m ! r = (s, n)" and "unat s + n < 2 ^ 64"
    and "xs = [] \<or> unat off + i * 4096 \<le> n" and "unat ga = unat s + unat off"
  shows "restored G invar view m (unat s + unat off + i * 4096) xs (xs = [] \<or> unat off + i * 4096 + length xs \<le> n)
    (restore_chunks p G r off ga i (chunks 4096 xs) m)"
  using assms
proof (induction "length xs" arbitrary: xs i m rule: less_induct)
  case less
  note prems = less.prems
  let ?a = "unat s + unat off + i * 4096" and ?o = "off + word_of_nat (i * 4096)" and ?c = "take 4096 xs"
    and ?d = "drop 4096 xs"
  show ?case
  proof (cases "xs = []")
    case True
    then show ?thesis using prems(1) by (simp add: restored_def)
  next
    case False
    have o: "unat off + i * 4096 \<le> n"
      using prems(5) False by simp
    note step = restore_chunk_step [OF prems(1-4) o prems(6)]
    obtain e m1 where w: "region_write_slice G m r ?c ?o = (e, m1)"
      by (cases "region_write_slice G m r ?c ?o")
    have m1: "invar m1" "mem_iter G m1 = mem_iter G m"
      using region_write_invar [OF prems(1), of r ?c ?o] region_write_iter [OF prems(1), of r ?c ?o] w by simp_all
    have frame: "view m1 x = view m x" if "x < ?a \<or> ?a + length ?c \<le> x" for x
      using region_write_frame [OF prems(1,2), of x ?o ?c] that w step(2) prems(3) by (simp add: add.assoc)
    show ?thesis
    proof (cases "unat off + i * 4096 + length ?c \<le> n")
      case True
      have ok: "e = None" "view m1 = put_bytes (view m) ?a ?c"
        using region_write [OF prems(1,2), of ?c ?o] w step(2) prems(3) True False by (simp_all add: add.assoc)
      have "?d = [] \<or> unat off + Suc i * 4096 \<le> n"
        using True by (cases "length xs \<le> 4096") simp_all
      then have ih: "restored G invar view m1 (unat s + unat off + Suc i * 4096) ?d
          (?d = [] \<or> unat off + Suc i * 4096 + length ?d \<le> n) (restore_chunks p G r off ga (Suc i) (chunks 4096 ?d) m1)"
        using less.hyps [of ?d m1 "Suc i"] prems m1 False by simp
      have "put_bytes (put_bytes (view m) ?a ?c) (?a + length ?c) ?d = put_bytes (view m) ?a xs"
        unfolding put_bytes_append by simp
      with ih ok(2) frame m1 True False
      have "restored G invar view m ?a xs (xs = [] \<or> unat off + i * 4096 + length xs \<le> n)
          (restore_chunks p G r off ga (Suc i) (chunks 4096 ?d) m1)"
        by (cases "length xs \<le> 4096") (auto simp: restored_def ac_simps)
      then show ?thesis
        using w ok(1) step(1) False by (simp add: chunks_step)
    next
      case no: False
      then obtain t where t: "e = Some t"
        using region_write_err [OF prems(1,2), of ?c ?o] w step(2) prems(3) False by auto
      have "\<not> unat off + i * 4096 + length xs \<le> n"
        using no by simp
      moreover have "view m1 x = view m x" if "x < ?a \<or> ?a + length xs \<le> x" for x
        using frame [of x] that by auto
      ultimately show ?thesis
        using w t step(1) False m1 by (simp add: chunks_step restored_def)
    qed
  qed
qed


lemma checked_add_region:
  assumes "unat s + n < 2 ^ 64"
  shows "checked_add_u64 s (word_of_nat n) = Some (s + word_of_nat n) \<and> unat (s + word_of_nat n) = unat s + n"
proof -
  have w: "unat (word_of_nat n :: u64) = n"
    using assms by (intro unat_word_of_nat_small(4)) simp
  with assms show ?thesis
    by (simp add: checked_add_u64_def unat_add_lem [THEN iffD1])
qed

lemma restore_region_inside:
  assumes "invar m" and "find_region G m (mr_guest_addr x) = Some r" and "mem_iter G m ! r = (s, n)"
    and "unat s + n < 2 ^ 64" and "unat (mr_guest_addr x) + unat (mr_size x) \<le> unat s + n"
  shows "restored G invar view m (unat (mr_guest_addr x)) (mr_data x)
    (unat (mr_guest_addr x) + length (mr_data x) \<le> unat s + n) (restore_region p G x m)"
proof -
  let ?g = "mr_guest_addr x"
  have r: "r < length (mem_iter G m)" "unat s \<le> unat ?g" "unat ?g < unat s + n"
    using find_region_Some [OF assms(1,2)] assms(3) by simp_all
  have sub: "unat (?g - s) = unat ?g - unat s"
    using r(2) by (simp add: unat_sub word_le_nat_alt)
  have c: "checked_add_u64 ?g (mr_size x) = Some (?g + mr_size x)" "unat (?g + mr_size x) = unat ?g + unat (mr_size x)"
    using checked_add_region [of ?g "unat (mr_size x)"] assms(4,5) by simp_all
  have "restored G invar view m (unat s + unat (?g - s) + 0 * 4096) (mr_data x)
      (mr_data x = [] \<or> unat (?g - s) + 0 * 4096 + length (mr_data x) \<le> n)
      (restore_chunks p G r (?g - s) ?g 0 (chunks 4096 (mr_data x)) m)"
    by (rule restore_chunks_spec [OF assms(1) r(1) assms(3,4)]) (use r sub in auto)
  moreover have "restore_region p G x m = restore_chunks p G r (?g - s) ?g 0 (chunks 4096 (mr_data x)) m"
    using assms(2-5) r(2) c checked_add_region [OF assms(4)]
    by (simp add: restore_region_def Let_def word_less_nat_alt)
  moreover have "(mr_data x = [] \<or> unat (?g - s) + 0 * 4096 + length (mr_data x) \<le> n) \<longleftrightarrow>
      unat ?g + length (mr_data x) \<le> unat s + n"
    using r sub by auto
  ultimately show ?thesis
    using r(2) sub by simp
qed

lemma restore_region_refused:
  assumes "invar m" and "find_region G m (mr_guest_addr x) = Some r" and "mem_iter G m ! r = (s, n)"
    and "unat s + n < 2 ^ 64" and "unat s + n < unat (mr_guest_addr x) + unat (mr_size x)"
  shows "\<exists>e. restore_region p G x m = (Err e, m)"
proof (cases "checked_add_u64 (mr_guest_addr x) (mr_size x)")
  case None
  then show ?thesis
    using assms(2,3) checked_add_region [OF assms(4)] by (simp add: restore_region_def Let_def)
next
  case (Some e)
  then have "unat (mr_guest_addr x) + unat (mr_size x) < 2 ^ 64" "e = mr_guest_addr x + mr_size x"
    by (simp_all add: checked_add_u64_def split: if_splits)
  with checked_add_region [of "mr_guest_addr x" "unat (mr_size x)"]
  have "unat e = unat (mr_guest_addr x) + unat (mr_size x)" by simp
  then show ?thesis
    using assms(2,3,5) checked_add_region [OF assms(4)] Some
    by (simp add: restore_region_def Let_def word_less_nat_alt)
qed

lemma restore_region_safe:
  assumes "invar m" and "list_all (\<lambda>(s, n). unat s + n < 2 ^ 64) (mem_iter G m)"
  shows "invar (snd (restore_region p G x m)) \<and> mem_iter G (snd (restore_region p G x m)) = mem_iter G m \<and>
    fst (restore_region p G x m) \<noteq> Panic \<and>
    (\<forall>a. a < unat (mr_guest_addr x) \<or> unat (mr_guest_addr x) + length (mr_data x) \<le> a \<longrightarrow>
      view (snd (restore_region p G x m)) a = view m a)"
proof (cases "find_region G m (mr_guest_addr x)")
  case None
  then show ?thesis
    using assms(1) by (simp add: restore_region_def Let_def)
next
  case (Some r)
  obtain s n where sn: "mem_iter G m ! r = (s, n)"
    by (cases "mem_iter G m ! r")
  have b: "unat s + n < 2 ^ 64"
    using assms(2) find_region_Some [OF assms(1) Some] sn by (auto simp: list_all_length)
  show ?thesis
  proof (cases "unat (mr_guest_addr x) + unat (mr_size x) \<le> unat s + n")
    case True
    from restore_region_inside [OF assms(1) Some sn b True, of p] show ?thesis
      by (simp add: restored_def)
  next
    case False
    with restore_region_refused [OF assms(1) Some sn b, of p] assms(1) show ?thesis
      by auto
  qed
qed


lemma restore_memory_safe:
  assumes "invar m" and "list_all (\<lambda>(s, n). unat s + n < 2 ^ 64) (mem_iter G m)"
  shows "invar (snd (restore_memory p G xs m)) \<and> mem_iter G (snd (restore_memory p G xs m)) = mem_iter G m \<and>
    fst (restore_memory p G xs m) \<noteq> Panic \<and>
    (\<forall>a. list_all (\<lambda>x. a < unat (mr_guest_addr x) \<or> unat (mr_guest_addr x) + length (mr_data x) \<le> a) xs \<longrightarrow>
      view (snd (restore_memory p G xs m)) a = view m a)"
  using assms
proof (induction xs arbitrary: m)
  case Nil
  then show ?case by simp
next
  case (Cons x xs)
  obtain res m1 where r: "restore_region p G x m = (res, m1)"
    by (cases "restore_region p G x m")
  note safe = restore_region_safe [OF Cons.prems, of p x, unfolded r, simplified]
  show ?case
  proof (cases res)
    case (Ok u)
    then show ?thesis
      using Cons.IH [of m1] Cons.prems(2) safe r by auto
  next
    case (Err e)
    then show ?thesis
      using safe r by auto
  next
    case Panic
    then show ?thesis
      using safe by simp
  qed
qed

text \<open>Restoring regions that are regions of this memory as well.\<close>

lemma restore_memory_saved:
  assumes "invar m" and "list_all (\<lambda>(s, n). unat s + n < 2 ^ 64) (mem_iter G m)" and "set rs \<subseteq> set (mem_iter G m)"
  shows "\<exists>m'. restore_memory p G (map (saved_region f) rs) m = (Ok (), m') \<and> invar m' \<and> mem_iter G m' = mem_iter G m \<and>
    (\<forall>x. view m' x =
      (if \<exists>(s, n) \<in> set rs. unat s \<le> x \<and> x < unat s + n then Some (the (f x)) else view m x))"
  using assms
proof (induction rs arbitrary: m)
  case Nil
  then show ?case by simp
next
  case (Cons x rs)
  obtain s n where x: "x = (s, n)"
    by (cases x)
  have mem: "(s, n) \<in> set (mem_iter G m)" and b: "unat s + n < 2 ^ 64" "0 < n"
    using Cons.prems x regions_bounded [OF Cons.prems(1), of s n] by (auto simp: list_all_iff)
  obtain k where k: "k < length (mem_iter G m)" "mem_iter G m ! k = (s, n)"
    using mem by (auto simp: in_set_conv_nth)
  have "view m (unat s) \<noteq> None"
    using region_mapped [OF Cons.prems(1) mem, of "unat s" n] b(2) by (auto simp: mapped_iff)
  then obtain r where r: "find_region G m s = Some r"
    using find_region_None [OF Cons.prems(1), of s] by (cases "find_region G m s") auto
  have "r = k"
    using regions_disjoint [OF Cons.prems(1), of r k] find_region_Some [OF Cons.prems(1) r] k b(2) by auto
  moreover have "unat (word_of_nat n :: u64) = n"
    using b(1) by (intro unat_word_of_nat_small(4)) simp
  ultimately have "restored G invar view m (unat s) (bytes_at f (unat s) n) True (restore_region p G (saved_region f x) m)"
    using restore_region_inside [OF Cons.prems(1), of "saved_region f x" r s n p] r k b by (simp add: x saved_region_def)
  then obtain m1 where m1: "restore_region p G (saved_region f x) m = (Ok (), m1)" "invar m1"
      "mem_iter G m1 = mem_iter G m" "view m1 = put_bytes (view m) (unat s) (bytes_at f (unat s) n)"
    by (cases "restore_region p G (saved_region f x) m") (auto simp: restored_def)
  obtain m' where "restore_memory p G (map (saved_region f) rs) m1 = (Ok (), m')" "invar m'" "mem_iter G m' = mem_iter G m1"
      "\<forall>a. view m' a = (if \<exists>(s, n) \<in> set rs. unat s \<le> a \<and> a < unat s + n then Some (the (f a)) else view m1 a)"
    using Cons.IH [OF m1(2)] Cons.prems m1(3) by auto
  with m1 show ?case
    by (auto simp: x put_bytes_def)
qed

lemma restore_memory_copy:
  assumes "invar m" and "invar m2" and "mem_iter G m2 = mem_iter G m" and "list_all (\<lambda>(s, n). unat s + n < 2 ^ 64) (mem_iter G m)"
    and "save_memory G m = Ok regions"
  shows "\<exists>m'. restore_memory p G regions m2 = (Ok (), m') \<and> view m' = view m"
proof -
  have rs: "regions = map (saved_region (view m)) (mem_iter G m)"
    using save_memory_ok [OF assms(1)] assms(5) by simp
  obtain m' where m': "restore_memory p G regions m2 = (Ok (), m')"
      "\<forall>x. view m' x = (if \<exists>(s, n) \<in> set (mem_iter G m). unat s \<le> x \<and> x < unat s + n then Some (the (view m x)) else view m2 x)"
    using restore_memory_saved [OF assms(2), of "mem_iter G m" p "view m"] assms(3,4) rs by auto
  have "view m' x = view m x" for x
    using m'(2) view_dom [OF assms(1), of x] view_dom [OF assms(2), of x] assms(3) by auto
  with m'(1) show ?thesis by blast
qed

end

section \<open>Registers are read and written back\<close>

lemma snap_get_Ok: "snap_get t r = Ok a \<longleftrightarrow> r = Inr a"
  by (simp add: snap_get_def split: sum.split)

lemma snap_set_Ok: "snap_set t r = (Ok u, f) \<longleftrightarrow> r = (None, f)"
  by (cases r) (auto simp: snap_set_def split: option.split)

lemma bind_outcome_Ok: "bind_outcome r f = Ok b \<longleftrightarrow> (\<exists>a. r = Ok a \<and> f a = Ok b)"
  by (cases r) simp_all

context kvm_vcpu
begin

lemma save_vcpu_states_ok:
  "save_vcpu_states t K vcpus = Ok states \<Longrightarrow> length states = length vcpus \<and>
   (\<forall>i < length vcpus. vs_regs (states ! i) = cpu_regs (vcpu_fd (vcpus ! i)) \<and>
     vs_sregs (states ! i) = cpu_sregs (vcpu_fd (vcpus ! i)) \<and> vs_fpu (states ! i) = cpu_fpu (vcpu_fd (vcpus ! i)))"
proof (induction vcpus arbitrary: states)
  case Nil
  then show ?case by simp
next
  case (Cons v vs)
  then obtain s ss where s: "save_vcpu_state t K v = Ok s" "save_vcpu_states t K vs = Ok ss" "states = s # ss"
    by (auto simp: bind_outcome_Ok)
  have "vs_regs s = cpu_regs (vcpu_fd v) \<and> vs_sregs s = cpu_sregs (vcpu_fd v) \<and> vs_fpu s = cpu_fpu (vcpu_fd v)"
    using s(1) by (auto simp: save_vcpu_state_def bind_outcome_Ok snap_get_Ok get_regs_law get_sregs_law get_fpu_law)
  with Cons.IH [OF s(2)] s(3) show ?case
    by (auto simp: nth_Cons split: nat.split)
qed

lemma restore_vcpu_state_ok:
  assumes "restore_vcpu_state t K v st = (Ok (), v')" and "bit (rflags (vs_regs st)) 1"
  shows "cpu_regs (vcpu_fd v') = vs_regs st \<and> cpu_sregs (vcpu_fd v') = vs_sregs st \<and> cpu_fpu (vcpu_fd v') = vs_fpu st"
proof -
  obtain f1 f2 f3 where "set_regs K (vcpu_fd v) (vs_regs st) = (None, f1)" "set_sregs K f1 (vs_sregs st) = (None, f2)"
      "set_fpu K f2 (vs_fpu st) = (None, f3)" "v' = v\<lparr>vcpu_fd := f3\<rparr>"
    using assms(1) by (auto simp: restore_vcpu_state_def snap_set_Ok elim!: and_then_OkE split: prod.splits)
  with set_regs_law [of "vcpu_fd v" "vs_regs st" f1] set_sregs_law [of f1 "vs_sregs st" f2]
    set_fpu_law [of f2 "vs_fpu st" f3] assms(2) show ?thesis
    by simp
qed

lemma restore_vcpus_ok:
  "restore_vcpus t K i states vcpus = (Ok (), vcpus') \<Longrightarrow> i + length states = length vcpus \<Longrightarrow>
   list_all (\<lambda>s. bit (rflags (vs_regs s)) 1) states \<Longrightarrow>
   length vcpus' = length vcpus \<and> (\<forall>j < i. vcpus' ! j = vcpus ! j) \<and>
   (\<forall>j < length states. cpu_regs (vcpu_fd (vcpus' ! (i + j))) = vs_regs (states ! j) \<and>
     cpu_sregs (vcpu_fd (vcpus' ! (i + j))) = vs_sregs (states ! j) \<and> cpu_fpu (vcpu_fd (vcpus' ! (i + j))) = vs_fpu (states ! j))"
proof (induction states arbitrary: i vcpus)
  case Nil
  then show ?case by simp
next
  case (Cons s ss)
  obtain r v where v: "restore_vcpu_state t K (vcpus ! i) s = (r, v)"
    by (cases "restore_vcpu_state t K (vcpus ! i) s")
  then have r: "r = Ok ()" and rest: "restore_vcpus t K (Suc i) ss (vcpus[i := v]) = (Ok (), vcpus')"
    using Cons.prems(1,2) by (auto elim!: and_then_OkE)
  note ih = Cons.IH [OF rest] 
  have h: "length vcpus' = length vcpus" "\<forall>j < Suc i. vcpus' ! j = vcpus[i := v] ! j"
    "\<forall>j < length ss. cpu_regs (vcpu_fd (vcpus' ! (Suc i + j))) = vs_regs (ss ! j) \<and>
      cpu_sregs (vcpu_fd (vcpus' ! (Suc i + j))) = vs_sregs (ss ! j) \<and> cpu_fpu (vcpu_fd (vcpus' ! (Suc i + j))) = vs_fpu (ss ! j)"
    using ih Cons.prems(2,3) by simp_all
  have "vcpus' ! i = v"
    using h(2) Cons.prems(2) by simp
  with h restore_vcpu_state_ok [of t "vcpus ! i" s v] v r Cons.prems(3) show ?case
    by (auto simp: nth_Cons split: nat.split)
qed

end

section \<open>Properties\<close>

text \<open>
  C3. A snapshot restores the machine: put back into a memory with the same regions, it gives every
  byte its value at the time of the snapshot, and when the calls into KVM succeed, every vCPU has the
  general registers, the segment and control registers and the floating point state that it had.
\<close>

theorem snapshot_restores:
  assumes "guest_regions G invar view" and "kvm_vcpu K cpu_regs cpu_sregs cpu_fpu"
    and "invar m" and "invar m2" and "mem_iter G m2 = mem_iter G m"
    and "list_all (\<lambda>(s, n). unat s + n < 2 ^ 64) (mem_iter G m)"
    and "create_snapshot G t K m vcpus = Ok state" and "length vcpus2 = length vcpus"
    and "list_all (\<lambda>v. bit (rflags (cpu_regs (vcpu_fd v))) 1) vcpus"
    and "restore_snapshot p G t K state m2 vcpus2 = (r, m', vcpus')"
  shows "view m' = view m \<and>
    (r = Ok () \<longrightarrow> length vcpus' = length vcpus \<and>
      (\<forall>i < length vcpus. cpu_regs (vcpu_fd (vcpus' ! i)) = cpu_regs (vcpu_fd (vcpus ! i)) \<and>
        cpu_sregs (vcpu_fd (vcpus' ! i)) = cpu_sregs (vcpu_fd (vcpus ! i)) \<and>
        cpu_fpu (vcpu_fd (vcpus' ! i)) = cpu_fpu (vcpu_fd (vcpus ! i))))"
proof -
  have st: "save_memory G m = Ok (memory_regions state)" "save_vcpu_states t K vcpus = Ok (vcpu_states state)"
    using assms(7) by (auto simp: create_snapshot_def bind_outcome_Ok)
  obtain mr where mr: "restore_memory p G (memory_regions state) m2 = (Ok (), mr)" "view mr = view m"
    using guest_regions.restore_memory_copy [OF assms(1) assms(3-6) st(1)] by blast
  then have rv: "restore_vcpus t K 0 (vcpu_states state) vcpus2 = (r, vcpus')" and "m' = mr"
    using assms(10) by (auto simp: restore_snapshot_def split: prod.splits)
  note saved = kvm_vcpu.save_vcpu_states_ok [OF assms(2) st(2)]
  have "list_all (\<lambda>s. bit (rflags (vs_regs s)) 1) (vcpu_states state)"
    using saved assms(9) by (simp add: list_all_length)
  with kvm_vcpu.restore_vcpus_ok [OF assms(2), of t 0 "vcpu_states state" vcpus2 vcpus'] saved assms(8) rv mr \<open>m' = mr\<close>
  show ?thesis by auto
qed

definition tiny_mem :: "(nat \<Rightarrow> u8) \<Rightarrow> flat_mem" where
  "tiny_mem f = \<lparr>fm_regions = [(0x1000, 8)], fm_byte = f\<rparr>"

lemma tiny_mem_facts:
  "flat_invar (tiny_mem f)" "mem_iter flat_ops (tiny_mem f) = [(0x1000, 8)]"
  by (simp_all add: tiny_mem_def flat_invar_def flat_ops_def)

definition tiny_cpu :: "u64 \<Rightarrow> flat_cpu Vcpu" where
  "tiny_cpu v = \<lparr>vcpu_fd = reset_cpu\<lparr>fc_regs := zero_regs\<lparr>rax := v\<rparr>\<rparr>, vcpu_id = 0\<rparr>"

theorem snapshot_restores_witness:
  "\<exists>state m' vcpus'. create_snapshot flat_ops (\<lambda>_. []) flat_kvm (tiny_mem word_of_nat) [tiny_cpu 7] = Ok state \<and>
     restore_snapshot Debug flat_ops (\<lambda>_. []) flat_kvm state (tiny_mem (\<lambda>_. 0)) [tiny_cpu 0] = (Ok (), m', vcpus') \<and>
     flat_view m' = flat_view (tiny_mem word_of_nat) \<and> rax (fc_regs (vcpu_fd (vcpus' ! 0))) = 7"
proof -
  let ?m = "tiny_mem word_of_nat"
  have sv: "save_memory flat_ops ?m = Ok (map (saved_region (flat_view ?m)) (mem_iter flat_ops ?m))"
    by (rule fm.save_memory_ok [OF tiny_mem_facts(1)])
  then obtain state where state: "create_snapshot flat_ops (\<lambda>_. []) flat_kvm ?m [tiny_cpu 7] = Ok state"
    by (simp add: create_snapshot_def save_vcpu_state_def snap_get_def)
  then have parts: "save_memory flat_ops ?m = Ok (memory_regions state)" "length (vcpu_states state) = 1"
    by (auto simp: create_snapshot_def save_vcpu_state_def snap_get_def bind_outcome_Ok)
  obtain mr where "restore_memory Debug flat_ops (memory_regions state) (tiny_mem (\<lambda>_. 0)) = (Ok (), mr)"
    using fm.restore_memory_copy [OF tiny_mem_facts(1) tiny_mem_facts(1) _ _ parts(1), of "\<lambda>_. 0" Debug]
    by (auto simp: tiny_mem_facts(2))
  moreover obtain s where "vcpu_states state = [s]"
    using parts(2) by (auto simp: length_Suc_conv)
  ultimately obtain m' vcpus' where
    r: "restore_snapshot Debug flat_ops (\<lambda>_. []) flat_kvm state (tiny_mem (\<lambda>_. 0)) [tiny_cpu 0] = (Ok (), m', vcpus')"
    by (simp add: restore_snapshot_def restore_vcpu_state_def snap_set_def)
  have "flat_view m' = flat_view ?m \<and> fc_regs (vcpu_fd (vcpus' ! 0)) = fc_regs (vcpu_fd ([tiny_cpu 7] ! 0))"
    using snapshot_restores [OF fm.guest_regions_axioms fc.kvm_vcpu_axioms tiny_mem_facts(1) tiny_mem_facts(1) _ _ state _ _ r]
    by (auto simp: tiny_mem_facts(2) tiny_cpu_def zero_regs_def bit_iff_odd)
  with state r show ?thesis
    by (auto simp: tiny_cpu_def)
qed



text \<open>
  What \<open>save_to_file\<close> has written, \<open>load_from_file\<close> cannot read: with a format that presents
  structures without field names, as \<open>bincode\<close> does, it always fails, and the machine stays as it is.
\<close>

theorem saved_snapshot_unreadable:
  assumes "positional (bc_de B)" and "store_refused st path = None"
    and "save_to_file G t K L B path m vcpus st = (Ok (), st')"
  shows "load_from_file p G t K L B st' path m2 vcpus2 =
    (Err (SnapBincode (bc_error B (InvalidType ''struct VmState''))), m2, vcpus2)"
proof -
  obtain f where f: "store_open st' path = Inr f"
    using assms(2,3)
    by (auto simp: save_to_file_def store_open_def store_create_def elim!: and_then_OkE split: prod.splits sum.splits option.splits)
  have "VmState_deserialize L (bc_de B) d = Err (InvalidType ''struct VmState'')" for d
    by (simp add: VmState_deserialize_def positional.visit_struct_fails [OF assms(1)])
  with f show ?thesis
    by (simp add: load_from_file_def)
qed

definition sval_bincode :: "sval bincode_ops" where
  "sval_bincode = \<lparr>bc_serialize = (\<lambda>v. (None, [])), bc_reader = (\<lambda>f. SStruct ''VmState'' 3 []), bc_de = sval_de,
     bc_error = (\<lambda>e. ''invalid type'')\<rparr>"

definition empty_store :: host_store where
  "empty_store = \<lparr>store_files = (\<lambda>_. None), store_refused = (\<lambda>_. None), store_faults = []\<rparr>"

theorem saved_snapshot_unreadable_witness:
  "\<exists>st'. save_to_file flat_ops (\<lambda>_. []) flat_kvm packed_layout sval_bincode ''snap'' (tiny_mem word_of_nat) [tiny_cpu 7] empty_store =
      (Ok (), st') \<and>
    load_from_file Debug flat_ops (\<lambda>_. []) flat_kvm packed_layout sval_bincode st' ''snap'' (tiny_mem (\<lambda>_. 0)) [tiny_cpu 0] =
      (Err (SnapBincode ''invalid type''), tiny_mem (\<lambda>_. 0), [tiny_cpu 0])"
proof -
  have "save_memory flat_ops (tiny_mem word_of_nat) = Ok (map (saved_region (flat_view (tiny_mem word_of_nat))) [(0x1000, 8)])"
    using fm.save_memory_ok [OF tiny_mem_facts(1), of word_of_nat] by (simp only: tiny_mem_facts(2))
  then obtain st' where st': "save_to_file flat_ops (\<lambda>_. []) flat_kvm packed_layout sval_bincode ''snap'' (tiny_mem word_of_nat)
      [tiny_cpu 7] empty_store = (Ok (), st')"
    by (simp add: save_to_file_def create_snapshot_def save_vcpu_state_def snap_get_def store_create_def empty_store_def
        sval_bincode_def file_write_all_def)
  have pos: "positional (bc_de sval_bincode)"
    using sp.positional_axioms by (simp add: sval_bincode_def)
  have "load_from_file Debug flat_ops (\<lambda>_. []) flat_kvm packed_layout sval_bincode st' ''snap'' (tiny_mem (\<lambda>_. 0)) [tiny_cpu 0] =
      (Err (SnapBincode (bc_error sval_bincode (InvalidType ''struct VmState''))), tiny_mem (\<lambda>_. 0), [tiny_cpu 0])"
    by (rule saved_snapshot_unreadable [OF pos _ st']) (simp add: empty_store_def)
  with st' show ?thesis
    by (simp add: sval_bincode_def)
qed

end
