(* ===== verification/Hv_Vm.thy ===== *)
theory Hv_Vm
  imports Hv_Kernel_Loader Hv_Bootloader Hv_Console Hv_Block Hv_Net Hv_Fs Hv_Snapshot
begin

text \<open>
  The virtual machine (\<open>src/vm.rs\<close>): its construction, the loading of a kernel or a boot sector, the
  devices, snapshots and the end of its life.  Running it is the subject of \<open>Hv_Run\<close>.

  A device of any kind is a value of the datatype \<open>Device\<close>, and the trait object that the source
  stores is the record \<open>dyn_device\<close>, which dispatches to the record of the kind.
\<close>

section \<open>Devices behind one interface\<close>

datatype ('q, 'e) Device =
    ConsoleDev "('q, 'e) VirtioConsole"
  | BlockDev "('q, 'e) VirtioBlock"
  | NetDev "('q, 'e) VirtioNet"
  | FsDev "'e VirtioFs"

definition wrap_process :: "('d \<Rightarrow> 'x) \<Rightarrow> (unit Result \<times> 'd \<times> 'm) option \<Rightarrow> (unit Result \<times> 'x \<times> 'm) option" where
  "wrap_process C = map_option (\<lambda>(r, d, m). (r, C d, m))"

definition dyn_device :: "profile \<Rightarrow> ('m, 'q, 'c, 'e, 'z) virtio_ops_scheme \<Rightarrow> (('q, 'e) Device, 'm) VirtioDevice" where
  "dyn_device p V =
     \<lparr>device_type = (\<lambda>x. case x of
        ConsoleDev d \<Rightarrow> device_type (console_device V) d | BlockDev d \<Rightarrow> device_type (block_device p V) d
      | NetDev d \<Rightarrow> device_type (net_device V) d | FsDev d \<Rightarrow> device_type (fs_device :: ('e VirtioFs, 'm) VirtioDevice) d),
      get_features = (\<lambda>x. case x of
        ConsoleDev d \<Rightarrow> get_features (console_device V) d | BlockDev d \<Rightarrow> get_features (block_device p V) d
      | NetDev d \<Rightarrow> get_features (net_device V) d | FsDev d \<Rightarrow> get_features (fs_device :: ('e VirtioFs, 'm) VirtioDevice) d),
      set_acked_features = (\<lambda>x f. case x of
        ConsoleDev d \<Rightarrow> map_prod id ConsoleDev (set_acked_features (console_device V) d f)
      | BlockDev d \<Rightarrow> map_prod id BlockDev (set_acked_features (block_device p V) d f)
      | NetDev d \<Rightarrow> map_prod id NetDev (set_acked_features (net_device V) d f)
      | FsDev d \<Rightarrow> map_prod id FsDev (set_acked_features (fs_device :: ('e VirtioFs, 'm) VirtioDevice) d f)),
      read_config = (\<lambda>x off data. case x of
        ConsoleDev d \<Rightarrow> read_config (console_device V) d off data | BlockDev d \<Rightarrow> read_config (block_device p V) d off data
      | NetDev d \<Rightarrow> read_config (net_device V) d off data | FsDev d \<Rightarrow> read_config (fs_device :: ('e VirtioFs, 'm) VirtioDevice) d off data),
      write_config = (\<lambda>x off data. case x of
        ConsoleDev d \<Rightarrow> map_prod id ConsoleDev (write_config (console_device V) d off data)
      | BlockDev d \<Rightarrow> map_prod id BlockDev (write_config (block_device p V) d off data)
      | NetDev d \<Rightarrow> map_prod id NetDev (write_config (net_device V) d off data)
      | FsDev d \<Rightarrow> map_prod id FsDev (write_config (fs_device :: ('e VirtioFs, 'm) VirtioDevice) d off data)),
      process_queue = (\<lambda>x i m. case x of
        ConsoleDev d \<Rightarrow> wrap_process ConsoleDev (process_queue (console_device V) d i m)
      | BlockDev d \<Rightarrow> wrap_process BlockDev (process_queue (block_device p V) d i m)
      | NetDev d \<Rightarrow> wrap_process NetDev (process_queue (net_device V) d i m)
      | FsDev d \<Rightarrow> wrap_process FsDev (process_queue (fs_device :: ('e VirtioFs, 'm) VirtioDevice) d i m)),
      get_queues = (\<lambda>x. case x of
        ConsoleDev d \<Rightarrow> get_queues (console_device V) d | BlockDev d \<Rightarrow> get_queues (block_device p V) d
      | NetDev d \<Rightarrow> get_queues (net_device V) d | FsDev d \<Rightarrow> get_queues (fs_device :: ('e VirtioFs, 'm) VirtioDevice) d),
      get_interrupt_status = (\<lambda>x. case x of
        ConsoleDev d \<Rightarrow> get_interrupt_status (console_device V) d | BlockDev d \<Rightarrow> get_interrupt_status (block_device p V) d
      | NetDev d \<Rightarrow> get_interrupt_status (net_device V) d
      | FsDev d \<Rightarrow> get_interrupt_status (fs_device :: ('e VirtioFs, 'm) VirtioDevice) d),
      shutdown = default_shutdown,
      dev_mmio_read = default_mmio_read,
      dev_mmio_write = default_mmio_write,
      get_mmio_region = default_mmio_region\<rparr>"

lemma wrap_process_Some:
  "wrap_process C x = Some (r, y, m) \<longleftrightarrow> (\<exists>d. x = Some (r, d, m) \<and> y = C d)"
  by (auto simp: wrap_process_def)

sublocale virtqueue \<subseteq> dyn: virtio_device "dyn_device p V" for p
proof (unfold_locales, goal_cases)
  case (1 d off data)
  show ?case
    using con.read_config_length blk.read_config_length net.read_config_length vfs.read_config_length
    by (cases d) (simp_all add: dyn_device_def)
next
  case (2 d f)
  show ?case
    using con.set_acked_identity [of _ f] blk.set_acked_identity [of p _ f] net.set_acked_identity [of _ f]
      vfs.set_acked_identity [of _ f]
    by (cases d) (simp_all add: dyn_device_def same_identity_def)
next
  case (3 d off data)
  show ?case
    using con.write_config_identity [of _ off data] blk.write_config_identity [of p _ off data]
      net.write_config_identity [of _ off data] vfs.write_config_identity [of _ off data]
    by (cases d) (simp_all add: dyn_device_def same_identity_def)
next
  case (4 d i m r d' m')
  then show ?case
    using con.process_queue_identity [of _ i m r _ m'] blk.process_queue_identity [of p _ i m r _ m']
      net.process_queue_identity [of _ i m r _ m']
    by (cases d) (auto simp: dyn_device_def same_identity_def wrap_process_Some fs_device_def)
qed

section \<open>The machine\<close>

text \<open>A channel to a vCPU thread is the list of messages that it has not received yet.\<close>

datatype VmMessage = Stop | SnapshotRequest nat string

record ('k, 'v, 'f, 'm, 'q, 'e) VirtualMachine =
  vm_kvm :: 'k
  vm_fd :: 'v
  vm_vcpus :: "'f Vcpu list"
  vm_memory :: "'m GuestMemoryRegions"
  vm_kernel_loader :: "KernelLoader option"
  vm_devices :: "('q, 'e) Device VirtioMmioDevice list mutex"
  vm_snapshot_manager :: "'v SnapshotManager"
  vm_num_cpus :: u32
  vm_next_irq :: u32
  vm_running :: bool
  vm_message_tx :: "VmMessage list list"

definition clone_error :: "(kvm_errno \<Rightarrow> string) \<Rightarrow> kvm_errno \<Rightarrow> HypervisorError" where
  "clone_error errno_text n = IoError (IoErr Other (errno_text n))"

text \<open>A second VM with the clock of the first; a clock that cannot be read or set is passed over.\<close>

definition clone_vmfd ::
  "(kvm_errno \<Rightarrow> string) \<Rightarrow> ('k, 'v, 'f, 'c) kvm_ops \<Rightarrow> 'v \<Rightarrow> 'k \<Rightarrow> 'v Result \<times> 'k" where
  "clone_vmfd errno_text K fd k =
     (case kvm_new K k of
        (Some n, k) \<Rightarrow> (Err (clone_error errno_text n), k)
      | (None, k) \<Rightarrow>
          (case create_vm K k of
             (Inl n, k) \<Rightarrow> (Err (clone_error errno_text n), k)
           | (Inr new_vm, k) \<Rightarrow>
               (Ok (case get_clock K fd of Inl _ \<Rightarrow> new_vm | Inr attr \<Rightarrow> snd (set_clock K new_vm attr)), k)))"

fun create_vcpus ::
  "('k, 'v, 'f, 'c) kvm_ops \<Rightarrow> nat \<Rightarrow> nat \<Rightarrow> 'v \<Rightarrow> 'f Vcpu list Result \<times> 'v" where
  "create_vcpus K i 0 fd = (Ok [], fd)"
| "create_vcpus K i (Suc n) fd =
     (case create_vcpu K fd (word_of_nat i) of
        (Inl e, fd) \<Rightarrow> (Err (KvmError e), fd)
      | (Inr new_fd, fd) \<Rightarrow>
          and_then (Vcpu_new new_fd (word_of_nat i), fd) (\<lambda>vcpu fd.
          and_then (create_vcpus K (Suc i) n fd) (\<lambda>vcpus fd. (Ok (vcpu # vcpus), fd))))"

definition VirtualMachine_new ::
  "('m, 'z) gmem_ops_scheme \<Rightarrow> (kvm_errno \<Rightarrow> string) \<Rightarrow> ('k, 'v, 'f, 'c) kvm_ops \<Rightarrow> u32 \<Rightarrow> 'k \<Rightarrow>
   ('k, 'v, 'f, 'm, 'q, 'e) VirtualMachine Result \<times> 'k" where
  "VirtualMachine_new G errno_text K num_cpus k =
     (case kvm_new K k of
        (Some n, k) \<Rightarrow> (Err (KvmError n), k)
      | (None, k) \<Rightarrow>
     (case create_vm K k of
        (Inl n, k) \<Rightarrow> (Err (KvmError n), k)
      | (Inr fd, k) \<Rightarrow>
     (case and_then (ioctl_set (create_irq_chip K fd)) (\<lambda>_ fd.
           and_then (ioctl_set (create_pit2 K fd 0)) (\<lambda>_ fd.
           and_then (GuestMemoryRegions_new G, fd) (\<lambda>regions fd.
           and_then (setup_memory_region G K regions fd) (\<lambda>_ fd.
           and_then (create_vcpus K 0 (unat num_cpus) fd) (\<lambda>vcpus fd. (Ok (regions, vcpus), fd)))))) of
        (Err e, fd) \<Rightarrow> (Err e, k)
      | (Panic, fd) \<Rightarrow> (Panic, k)
      | (Ok (regions, vcpus), fd) \<Rightarrow>
     (case clone_vmfd errno_text K fd k of
        (Err e, k) \<Rightarrow> (Err e, k)
      | (Panic, k) \<Rightarrow> (Panic, k)
      | (Ok fd2, k) \<Rightarrow>
          (Ok \<lparr>vm_kvm = k, vm_fd = fd, vm_vcpus = vcpus, vm_memory = regions, vm_kernel_loader = None,
               vm_devices = mutex_new [], vm_snapshot_manager = SnapshotManager_new fd2, vm_num_cpus = num_cpus,
               vm_next_irq = 5, vm_running = False, vm_message_tx = []\<rparr>, k)))))"

section \<open>Loading\<close>

text \<open>\<open>for vcpu in &self.vcpus { f(vcpu)?; }\<close>.\<close>

fun for_vcpus :: "('f \<Rightarrow> unit Result \<times> 'f) \<Rightarrow> 'f Vcpu list \<Rightarrow> unit Result \<times> 'f Vcpu list" where
  "for_vcpus f [] = (Ok (), [])"
| "for_vcpus f (vcpu # vcpus) =
     (case f (vcpu_fd vcpu) of (r, fd) \<Rightarrow>
        let vcpu = vcpu\<lparr>vcpu_fd := fd\<rparr> in
        (case r of
           Ok _ \<Rightarrow> (case for_vcpus f vcpus of (r, vcpus) \<Rightarrow> (r, vcpu # vcpus))
         | Err e \<Rightarrow> (Err e, vcpu # vcpus)
         | Panic \<Rightarrow> (Panic, vcpu # vcpus)))"

definition vm_cmdline :: string where
  "vm_cmdline =
     ''console=hvc0 root=/dev/vda rw virtio_mmio.device=4K@0x1000:5 virtio_mmio.device=4K@0x2000:6 '' @
     ''virtio_mmio.device=4K@0x3000:7 virtio_mmio.device=4K@0x4000:8''"

definition set_vm_memory :: "'m \<Rightarrow> ('k, 'v, 'f, 'm, 'q, 'e) VirtualMachine \<Rightarrow> ('k, 'v, 'f, 'm, 'q, 'e) VirtualMachine" where
  "set_vm_memory m self = self\<lparr>vm_memory := (vm_memory self)\<lparr>memory := m\<rparr>\<rparr>"

definition vm_load_kernel ::
  "profile \<Rightarrow> bool \<Rightarrow> ('m, 'z) gmem_ops_scheme \<Rightarrow> ('k, 'v, 'f, 'c) kvm_ops \<Rightarrow> (u8 list \<Rightarrow> elf_image option) \<Rightarrow> host_fs \<Rightarrow> string \<Rightarrow>
   ('k, 'v, 'f, 'm, 'q, 'e) VirtualMachine \<Rightarrow> unit Result \<times> ('k, 'v, 'f, 'm, 'q, 'e) VirtualMachine" where
  "vm_load_kernel p info_enabled G K parse fs kernel_path self =
     (case load_kernel p info_enabled G parse fs kernel_path vm_cmdline KernelLoader_new (memory (vm_memory self)) of
        (r, kernel_loader, m) \<Rightarrow>
          and_then (r, set_vm_memory m self) (\<lambda>_ self.
          case for_vcpus (\<lambda>fd. Vcpu_init K fd (get_entry_point kernel_loader) 0x7000) (vm_vcpus self) of
            (r, vcpus) \<Rightarrow>
              and_then (r, self\<lparr>vm_vcpus := vcpus\<rparr>) (\<lambda>_ self. (Ok (), self\<lparr>vm_kernel_loader := Some kernel_loader\<rparr>))))"

definition vm_load_bootloader ::
  "('m, 'z) gmem_ops_scheme \<Rightarrow> ('k, 'v, 'f, 'c) kvm_ops \<Rightarrow> host_fs \<Rightarrow> string \<Rightarrow>
   ('k, 'v, 'f, 'm, 'q, 'e) VirtualMachine \<Rightarrow> unit Result \<times> ('k, 'v, 'f, 'm, 'q, 'e) VirtualMachine" where
  "vm_load_bootloader G K fs bootloader_path self =
     (case load_bootloader G fs bootloader_path (memory (vm_memory self)) of
        (r, m) \<Rightarrow>
          and_then (r, set_vm_memory m self) (\<lambda>_ self.
          case for_vcpus (init_vcpu_for_real_mode K) (vm_vcpus self) of
            (r, vcpus) \<Rightarrow> (r, self\<lparr>vm_vcpus := vcpus\<rparr>)))"

section \<open>Attaching devices\<close>

definition allocate_irq ::
  "profile \<Rightarrow> ('k, 'v, 'f, 'm, 'q, 'e) VirtualMachine \<Rightarrow> u32 Result \<times> ('k, 'v, 'f, 'm, 'q, 'e) VirtualMachine" where
  "allocate_irq p self =
     and_then (add_u32 p (vm_next_irq self) 1, self) (\<lambda>next_irq self.
     (Ok (vm_next_irq self), self\<lparr>vm_next_irq := next_irq\<rparr>))"

text \<open>\<open>self.devices.lock().unwrap().push(VirtioMmioDevice::new(Box::new(device), base))\<close>.\<close>

definition push_device ::
  "('q, 'e) Device \<Rightarrow> u64 \<Rightarrow> ('k, 'v, 'f, 'm, 'q, 'e) VirtualMachine \<Rightarrow> unit Result \<times> ('k, 'v, 'f, 'm, 'q, 'e) VirtualMachine" where
  "push_device device base self =
     (if mx_poisoned (vm_devices self) then (Panic, self)
      else (Ok (), self\<lparr>vm_devices := (vm_devices self)\<lparr>mx_data := mx_data (vm_devices self) @ [VirtioMmioDevice_new device base]\<rparr>\<rparr>))"

definition add_virtio_console ::
  "profile \<Rightarrow> ('m, 'q, 'c, 'e, 'z) virtio_ops_scheme \<Rightarrow> writer \<Rightarrow>
   ('k, 'v, 'f, 'm, 'q, 'e) VirtualMachine \<Rightarrow> unit Result \<times> ('k, 'v, 'f, 'm, 'q, 'e) VirtualMachine" where
  "add_virtio_console p V stdout self =
     and_then (allocate_irq p self) (\<lambda>irq self.
     and_then (VirtioConsole_new V 0x1000 irq (mutex_new stdout), self) (\<lambda>console self.
     push_device (ConsoleDev console) 0x1000 self))"

definition add_virtio_block ::
  "profile \<Rightarrow> ('m, 'q, 'c, 'e, 'z) virtio_ops_scheme \<Rightarrow> host_disks \<Rightarrow> string \<Rightarrow> bool \<Rightarrow>
   ('k, 'v, 'f, 'm, 'q, 'e) VirtualMachine \<Rightarrow> unit Result \<times> ('k, 'v, 'f, 'm, 'q, 'e) VirtualMachine" where
  "add_virtio_block p V disks disk_path read_only self =
     and_then (allocate_irq p self) (\<lambda>irq self.
     and_then (VirtioBlock_new V disks 0x2000 irq disk_path read_only, self) (\<lambda>block self.
     push_device (BlockDev block) 0x2000 self))"

definition add_virtio_net ::
  "profile \<Rightarrow> ('m, 'q, 'c, 'e, 'z) virtio_ops_scheme \<Rightarrow> (nat \<Rightarrow> string + u8 list) \<Rightarrow> (string \<Rightarrow> io_error + udp_socket) \<Rightarrow>
   (string \<Rightarrow> string + sock_addr) \<Rightarrow> string \<Rightarrow> string \<Rightarrow>
   ('k, 'v, 'f, 'm, 'q, 'e) VirtualMachine \<Rightarrow> unit Result \<times> ('k, 'v, 'f, 'm, 'q, 'e) VirtualMachine" where
  "add_virtio_net p V getrandom bind parse local_addr peer_addr self =
     and_then (allocate_irq p self) (\<lambda>irq self.
     case parse local_addr of
       Inl e \<Rightarrow> (Err (NetworkError (''Invalid local address: '' @ e)), self)
     | Inr _ \<Rightarrow>
     (case parse peer_addr of
        Inl e \<Rightarrow> (Err (NetworkError (''Invalid peer address: '' @ e)), self)
      | Inr _ \<Rightarrow>
     and_then (VirtioNet_new V getrandom bind parse 0x3000 irq local_addr None, self) (\<lambda>net self.
     push_device (NetDev net) 0x3000 self)))"

definition add_virtio_fs ::
  "profile \<Rightarrow> ('m, 'q, 'c, 'e, 'z) virtio_ops_scheme \<Rightarrow> host_tree \<Rightarrow> string \<Rightarrow> path \<Rightarrow> bool \<Rightarrow>
   ('k, 'v, 'f, 'm, 'q, 'e) VirtualMachine \<Rightarrow> unit Result \<times> host_tree \<times> ('k, 'v, 'f, 'm, 'q, 'e) VirtualMachine" where
  "add_virtio_fs p V t tag shared_dir readonly self =
     (case allocate_irq p self of
        (Err e, self) \<Rightarrow> (Err e, t, self)
      | (Panic, self) \<Rightarrow> (Panic, t, self)
      | (Ok irq, self) \<Rightarrow>
     (case evt_new V 0 of
        Inl e \<Rightarrow> (Err (IoError (IoErr Other (''Failed to create EventFd: '' @ io_error_to_string e))), t, self)
      | Inr queue_evt \<Rightarrow>
     (case VirtioFs_new V t shared_dir queue_evt of
        (Err e, t) \<Rightarrow> (Err e, t, self)
      | (Panic, t) \<Rightarrow> (Panic, t, self)
      | (Ok fs, t) \<Rightarrow> (case push_device (FsDev fs) 0x4000 self of (r, self) \<Rightarrow> (r, t, self)))))"

section \<open>Stopping, snapshots, the end\<close>

definition vm_stop :: "('k, 'v, 'f, 'm, 'q, 'e) VirtualMachine \<Rightarrow> unit Result \<times> ('k, 'v, 'f, 'm, 'q, 'e) VirtualMachine" where
  "vm_stop self =
     (Ok (), if vm_running self
             then self\<lparr>vm_running := False, vm_message_tx := map (\<lambda>tx. tx @ [Stop]) (vm_message_tx self)\<rparr>
             else self)"

definition state_error :: "(kvm_errno \<Rightarrow> string) \<Rightarrow> snap_error \<Rightarrow> HypervisorError" where
  "state_error errno_text e = IoError (IoErr Other (snap_error_to_string errno_text e))"

definition save_state ::
  "('m, 'z) gmem_ops_scheme \<Rightarrow> (kvm_errno \<Rightarrow> string) \<Rightarrow> ('k, 'v, 'f, 'c) kvm_ops \<Rightarrow> kvm_layout \<Rightarrow> 'd bincode_ops \<Rightarrow>
   ('k, 'v, 'f, 'm, 'q, 'e) VirtualMachine \<Rightarrow> string \<Rightarrow> host_store \<Rightarrow> unit Result \<times> host_store" where
  "save_state G errno_text K L B self path st =
     (case save_to_file G errno_text K L B path (memory (vm_memory self)) (vm_vcpus self) st of
        (r, st) \<Rightarrow> (map_err (state_error errno_text) r, st))"

definition restore_state ::
  "profile \<Rightarrow> ('m, 'z) gmem_ops_scheme \<Rightarrow> (kvm_errno \<Rightarrow> string) \<Rightarrow> ('k, 'v, 'f, 'c) kvm_ops \<Rightarrow> kvm_layout \<Rightarrow> 'd bincode_ops \<Rightarrow>
   host_store \<Rightarrow> string \<Rightarrow> ('k, 'v, 'f, 'm, 'q, 'e) VirtualMachine \<Rightarrow> unit Result \<times> ('k, 'v, 'f, 'm, 'q, 'e) VirtualMachine" where
  "restore_state p G errno_text K L B st path self =
     (case load_from_file p G errno_text K L B st path (memory (vm_memory self)) (vm_vcpus self) of
        (r, m, vcpus) \<Rightarrow> (map_err (state_error errno_text) r, (set_vm_memory m self)\<lparr>vm_vcpus := vcpus\<rparr>))"

text \<open>\<open>Drop\<close>: a device whose lock is poisoned, and all of them when the lock of the list is, are passed
  over; errors of \<open>shutdown\<close> are only logged.\<close>

definition shutdown_device ::
  "('d, 'm, 'z) VirtioDevice_scheme \<Rightarrow> 'd VirtioMmioDevice \<Rightarrow> 'd VirtioMmioDevice" where
  "shutdown_device T wrapped =
     (if mx_poisoned (mmio_device wrapped) then wrapped
      else case shutdown T (mx_data (mmio_device wrapped)) of
        (r, dev) \<Rightarrow> wrapped\<lparr>mmio_device := mutex_release r dev\<rparr>)"

definition vm_drop ::
  "(('q, 'e) Device, 'm, 'z) VirtioDevice_scheme \<Rightarrow> ('k, 'v, 'f, 'm, 'q, 'e) VirtualMachine \<Rightarrow> ('k, 'v, 'f, 'm, 'q, 'e) VirtualMachine" where
  "vm_drop T self =
     (let self = (if vm_running self then snd (vm_stop self) else self) in
      if mx_poisoned (vm_devices self) then self
      else self\<lparr>vm_devices := (vm_devices self)\<lparr>mx_data := map (shutdown_device T) (mx_data (vm_devices self))\<rparr>\<rparr>)"

section \<open>A new machine\<close>

context kvm_vm
begin

lemma create_vcpus_ok:
  "create_vcpus K i n fd = (Ok vcpus, fd') \<Longrightarrow>
   map vcpu_id vcpus = map word_of_nat [i..<i + n] \<and> slots fd' = slots fd"
proof (induction n arbitrary: i fd vcpus)
  case 0
  then show ?case by simp
next
  case (Suc n)
  obtain r fd1 where c: "create_vcpu K fd (word_of_nat i) = (r, fd1)"
    by (cases "create_vcpu K fd (word_of_nat i)")
  with Suc.prems obtain f where f: "r = Inr f"
    by (cases r) simp_all
  obtain vs where vs: "create_vcpus K (Suc i) n fd1 = (Ok vs, fd')" "vcpus = \<lparr>vcpu_fd = f, vcpu_id = word_of_nat i\<rparr> # vs"
    using Suc.prems c f by (auto simp: Vcpu_new_def elim!: and_then_OkE)
  from Suc.IH [OF vs(1)] vs(2) create_vcpu_law [of fd "word_of_nat i" f fd1] c f show ?case
    by (simp add: upt_conv_Cons del: upt_Suc)
qed

end

lemma VirtualMachine_new_parts:
  assumes "VirtualMachine_new G t K n k = (Ok vm, k')"
  obtains fd0 fd1 where "GuestMemoryRegions_new G = Ok (vm_memory vm)"
    and "setup_memory_region G K (vm_memory vm) fd0 = (Ok (), fd1)"
    and "create_vcpus K 0 (unat n) fd1 = (Ok (vm_vcpus vm), vm_fd vm)"
    and "vm_devices vm = mutex_new []" and "vm_next_irq vm = 5" and "\<not> vm_running vm" and "vm_message_tx vm = []"
    and "vm_num_cpus vm = n" and "vm_kernel_loader vm = None"
  using assms
  by (auto simp: VirtualMachine_new_def ioctl_set_Ok elim!: and_then_OkE
      split: prod.splits option.splits sum.splits outcome.splits)

lemma new_machine_slots:
  assumes "guest_regions G invar view" and "kvm_vm K slots" and "VirtualMachine_new G t K n k = (Ok vm, k')"
  shows "slots (vm_fd vm) 0 = Some (0, 134217728, unat (region_as_ptr G (memory (vm_memory vm)) 0))"
proof -
  obtain fd0 fd1 where new: "GuestMemoryRegions_new G = Ok (vm_memory vm)"
    and reg: "setup_memory_region G K (vm_memory vm) fd0 = (Ok (), fd1)"
    and cpus: "create_vcpus K 0 (unat n) fd1 = (Ok (vm_vcpus vm), vm_fd vm)"
    using VirtualMachine_new_parts [OF assms(3)] .
  have "mem_iter G (memory (vm_memory vm)) = [(0, 134217728)]"
    using guest_regions.GuestMemoryRegions_new_ok [OF assms(1) new] by blast
  with kvm_vm.register_slots_ok [OF assms(2), of "region_as_ptr G (memory (vm_memory vm))" 0 "[(0, 134217728)]" fd0 fd1 0] reg
  have "slots fd1 0 = Some (0, 134217728, unat (region_as_ptr G (memory (vm_memory vm)) 0))"
    by (simp add: setup_memory_region_def)
  with kvm_vm.create_vcpus_ok [OF assms(2) cpus] show ?thesis by simp
qed

text \<open>
  C8. A machine that \<open>VirtualMachine::new\<close> returns has the requested vCPUs, numbered from 0, 128 MiB of
  zeroed memory in slot 0 and no memory elsewhere; it is not running, has no devices, and gives out
  interrupt numbers from 5 on.
\<close>

theorem new_machine_ok:
  assumes "guest_regions G invar view" and "kvm_vm K slots" and "VirtualMachine_new G t K n k = (Ok vm, k')"
  shows "map vcpu_id (vm_vcpus vm) = map word_of_nat [0..<unat n] \<and>
    invar (memory (vm_memory vm)) \<and> (\<forall>a. view (memory (vm_memory vm)) a = (if a < 134217728 then Some 0 else None)) \<and>
    (\<forall>a. slot_translate (slots (vm_fd vm)) 0 a =
      (if a < 134217728 then Some (unat (region_as_ptr G (memory (vm_memory vm)) 0) + a) else None)) \<and>
    \<not> vm_running vm \<and> vm_devices vm = mutex_new [] \<and> vm_next_irq vm = 5"
proof -
  obtain fd0 fd1 where new: "GuestMemoryRegions_new G = Ok (vm_memory vm)"
    and cpus: "create_vcpus K 0 (unat n) fd1 = (Ok (vm_vcpus vm), vm_fd vm)"
    and rest: "vm_devices vm = mutex_new []" "vm_next_irq vm = 5" "\<not> vm_running vm"
    using VirtualMachine_new_parts [OF assms(3)] .
  show ?thesis
    using guest_regions.GuestMemoryRegions_new_ok [OF assms(1) new] kvm_vm.create_vcpus_ok [OF assms(2) cpus]
      new_machine_slots [OF assms] rest
    by (simp add: slot_translate_def)
qed

lemma demo_new_machine:
  "\<exists>vm. VirtualMachine_new flat_ops (\<lambda>_. []) flat_kvm 1 () =
     (Ok vm :: (unit, flat_slots, flat_cpu, flat_mem, split_queue, u64) VirtualMachine Result, ())"
  by (simp add: VirtualMachine_new_def clone_vmfd_def flat_ram_new setup_memory_region_def flat_set_region_def
      Vcpu_new_def)

theorem new_machine_ok_witness:
  "\<exists>vm :: (unit, flat_slots, flat_cpu, flat_mem, split_queue, u64) VirtualMachine.
     VirtualMachine_new flat_ops (\<lambda>_. []) flat_kvm 1 () = (Ok vm, ()) \<and> map vcpu_id (vm_vcpus vm) = [0] \<and>
     flat_view (memory (vm_memory vm)) 0x1000 = Some 0"
proof -
  obtain vm :: "(unit, flat_slots, flat_cpu, flat_mem, split_queue, u64) VirtualMachine"
    where vm: "VirtualMachine_new flat_ops (\<lambda>_. []) flat_kvm 1 () = (Ok vm, ())"
    using demo_new_machine by blast
  from new_machine_ok [OF fm.guest_regions_axioms fv.kvm_vm_axioms vm] vm show ?thesis
    by simp
qed

section \<open>Devices of a machine\<close>

text \<open>One call of an \<open>add_virtio_*\<close> method, with whatever arguments and outcome.\<close>

inductive vm_attach ::
  "profile \<Rightarrow> ('m, 'q, 'c, 'e, 'z) virtio_ops_scheme \<Rightarrow> ('k, 'v, 'f, 'm, 'q, 'e) VirtualMachine \<Rightarrow>
   ('k, 'v, 'f, 'm, 'q, 'e) VirtualMachine \<Rightarrow> bool" for p V where
  attach_console: "add_virtio_console p V stdout vm = (r, vm') \<Longrightarrow> vm_attach p V vm vm'"
| attach_block: "add_virtio_block p V disks path ro vm = (r, vm') \<Longrightarrow> vm_attach p V vm vm'"
| attach_net: "add_virtio_net p V getrandom bind parse local peer vm = (r, vm') \<Longrightarrow> vm_attach p V vm vm'"
| attach_fs: "add_virtio_fs p V t tag dir ro vm = (r, t', vm') \<Longrightarrow> vm_attach p V vm vm'"

primrec device_irq :: "('q, 'e) Device \<Rightarrow> u32 option" where
  "device_irq (ConsoleDev d) = Some (cfg_irq (con_config d))"
| "device_irq (BlockDev d) = Some (cfg_irq (blk_config d))"
| "device_irq (NetDev d) = Some (cfg_irq (net_config d))"
| "device_irq (FsDev d) = None"

primrec device_base :: "('q, 'e) Device \<Rightarrow> u64" where
  "device_base (ConsoleDev d) = 0x1000"
| "device_base (BlockDev d) = 0x2000"
| "device_base (NetDev d) = 0x3000"
| "device_base (FsDev d) = 0x4000"

text \<open>The effect of such a call: the interrupt number goes up unless the call panics over it, and at
  most one device is added, with this number and the base address of its kind.\<close>

definition attach_effect ::
  "('k, 'v, 'f, 'm, 'q, 'e) VirtualMachine \<Rightarrow> ('k, 'v, 'f, 'm, 'q, 'e) VirtualMachine \<Rightarrow> bool" where
  "attach_effect vm vm' \<longleftrightarrow>
     vm' = vm \<or>
     vm' = vm\<lparr>vm_next_irq := vm_next_irq vm + 1\<rparr> \<or>
     (\<exists>d. (device_irq d = Some (vm_next_irq vm) \<or> device_irq d = None) \<and>
       vm' = vm\<lparr>vm_next_irq := vm_next_irq vm + 1,
         vm_devices := (vm_devices vm)\<lparr>mx_data := mx_data (vm_devices vm) @ [VirtioMmioDevice_new d (device_base d)]\<rparr>\<rparr>)"

lemma allocate_irq_cases:
  "allocate_irq p vm = (Panic, vm) \<or> allocate_irq p vm = (Ok (vm_next_irq vm), vm\<lparr>vm_next_irq := vm_next_irq vm + 1\<rparr>)"
  by (simp add: allocate_irq_def add_u32_def)

lemma push_device_effect:
  assumes "push_device d (device_base d) (vm\<lparr>vm_next_irq := vm_next_irq vm + 1\<rparr>) = (r, vm')"
    and "device_irq d = Some (vm_next_irq vm) \<or> device_irq d = None"
  shows "attach_effect vm vm'"
  using assms by (auto simp: push_device_def attach_effect_def split: if_splits)

lemma VirtioConsole_new_irq: "VirtioConsole_new V g irq out = Ok c \<Longrightarrow> cfg_irq (con_config c) = irq"
  by (auto simp: VirtioConsole_new_def bind_outcome_Ok dest!: VirtioDeviceConfig_new_ok)

lemma VirtioBlock_new_irq: "VirtioBlock_new V disks g irq path ro = Ok b \<Longrightarrow> cfg_irq (blk_config b) = irq"
  by (auto simp: VirtioBlock_new_def bind_outcome_Ok dest!: VirtioDeviceConfig_new_ok split: sum.splits prod.splits)

lemma VirtioNet_new_irq: "VirtioNet_new V getrandom bind parse g irq local None = Ok n \<Longrightarrow> cfg_irq (net_config n) = irq"
  by (cases "getrandom 6")
    (auto simp: VirtioNet_new_def bind_outcome_Ok dest!: VirtioDeviceConfig_new_ok split: sum.splits prod.splits option.splits)

lemma attach_effect_irq: "attach_effect vm (vm\<lparr>vm_next_irq := vm_next_irq vm + 1\<rparr>)"
  by (simp add: attach_effect_def)

lemma attach_effect_refl: "attach_effect vm vm"
  by (simp add: attach_effect_def)

lemma vm_attach_effect: "vm_attach p V vm vm' \<Longrightarrow> attach_effect vm vm'"
proof (induction rule: vm_attach.induct)
  case (attach_console stdout vm r vm')
  show ?case
    using allocate_irq_cases [of p vm] attach_console [unfolded add_virtio_console_def]
      push_device_effect [of "ConsoleDev _" vm r vm'] VirtioConsole_new_irq [of V]
    by (auto intro: attach_effect_irq attach_effect_refl elim!: and_then_cases)
next
  case (attach_block disks path ro vm r vm')
  show ?case
    using allocate_irq_cases [of p vm] attach_block [unfolded add_virtio_block_def]
      push_device_effect [of "BlockDev _" vm r vm'] VirtioBlock_new_irq [of V]
    by (auto intro: attach_effect_irq attach_effect_refl elim!: and_then_cases)
next
  case (attach_net getrandom bind parse local peer vm r vm')
  show ?case
    using allocate_irq_cases [of p vm] attach_net [unfolded add_virtio_net_def]
      push_device_effect [of "NetDev _" vm r vm'] VirtioNet_new_irq [of V]
    by (auto intro: attach_effect_irq attach_effect_refl elim!: and_then_cases split: sum.splits)
next
  case (attach_fs t tag dir ro vm r t' vm')
  show ?case
    using allocate_irq_cases [of p vm] attach_fs [unfolded add_virtio_fs_def]
      push_device_effect [of "FsDev _" vm r vm']
    by (auto intro: attach_effect_irq attach_effect_refl split: sum.splits outcome.splits prod.splits)
qed

lemma attached_devices:
  assumes "(vm_attach p V)\<^sup>*\<^sup>* vm0 vm" and "vm_devices vm0 = mutex_new []"
  shows "vm_fd vm = vm_fd vm0 \<and> vm_memory vm = vm_memory vm0 \<and> vm_vcpus vm = vm_vcpus vm0 \<and> vm_running vm = vm_running vm0 \<and>
    list_all (\<lambda>w. \<exists>d. w = VirtioMmioDevice_new d (device_base d)) (mx_data (vm_devices vm))"
  using assms(1)
proof (induction rule: rtranclp_induct)
  case base
  then show ?case by (simp add: assms(2))
next
  case (step y z)
  then show ?case
    using vm_attach_effect [OF step(2)] by (auto simp: attach_effect_def)
qed

text \<open>The interrupt numbers of the devices that keep theirs.\<close>

definition machine_irqs :: "('k, 'v, 'f, 'm, 'q, 'e) VirtualMachine \<Rightarrow> u32 list" where
  "machine_irqs vm = List.map_filter (\<lambda>w. device_irq (mx_data (mmio_device w))) (mx_data (vm_devices vm))"

lemma machine_irqs_new [simp]: "vm_devices vm = mutex_new [] \<Longrightarrow> machine_irqs vm = []"
  by (simp add: machine_irqs_def List.map_filter_def)

lemma attach_effect_irqs:
  assumes "attach_effect vm vm'"
  shows "(vm_next_irq vm' = vm_next_irq vm \<and> machine_irqs vm' = machine_irqs vm) \<or>
    (vm_next_irq vm' = vm_next_irq vm + 1 \<and>
      (machine_irqs vm' = machine_irqs vm \<or> machine_irqs vm' = machine_irqs vm @ [vm_next_irq vm]))"
  using assms by (auto simp: attach_effect_def machine_irqs_def List.map_filter_def VirtioMmioDevice_new_def)

lemma attached_irqs:
  "((vm_attach p V) ^^ n) vm0 vm \<Longrightarrow> vm_devices vm0 = mutex_new [] \<Longrightarrow> vm_next_irq vm0 = 5 \<Longrightarrow> n + 5 < 2 ^ 32 \<Longrightarrow>
   unat (vm_next_irq vm) \<le> n + 5 \<and> sorted_wrt (<) (machine_irqs vm) \<and>
   list_all (\<lambda>i. 5 \<le> i \<and> i < vm_next_irq vm) (machine_irqs vm) \<and> 5 \<le> vm_next_irq vm"
proof (induction n arbitrary: vm)
  case 0
  then show ?case by simp
next
  case (Suc n)
  obtain vm1 where vm1: "((vm_attach p V) ^^ n) vm0 vm1" "vm_attach p V vm1 vm"
    using Suc.prems(1) by (auto elim: relpowp_Suc_E)
  note ih = Suc.IH [OF vm1(1) Suc.prems(2,3)]
  have "unat (vm_next_irq vm1) + 1 < 2 ^ 32"
    using ih Suc.prems(4) by simp
  then have up: "unat (vm_next_irq vm1 + 1) = unat (vm_next_irq vm1) + 1"
    by (subst unat_add_lem [THEN iffD1]) simp_all
  then have lt: "i < vm_next_irq vm1 + 1" if "i \<le> vm_next_irq vm1" for i
    using that by (simp add: word_less_nat_alt word_le_nat_alt)
  have "\<forall>i \<in> set (machine_irqs vm1). 5 \<le> i \<and> i < vm_next_irq vm1 \<and> i < vm_next_irq vm1 + 1"
    using ih Suc.prems(4) lt by (simp add: list_all_iff less_imp_le)
  with attach_effect_irqs [OF vm_attach_effect [OF vm1(2)]] ih up Suc.prems(4) lt show ?case
    by (auto simp: sorted_wrt_append list_all_iff intro: order.trans [OF _ less_imp_le])
qed

text \<open>
  C16. The interrupt numbers that devices are given are different from each other and from those of the
  legacy devices, whatever devices are attached, in whatever order, and whichever attempts fail.
\<close>

theorem device_irqs_distinct:
  assumes "VirtualMachine_new G t K cpus k = (Ok vm0, k')" and "((vm_attach p V) ^^ n) vm0 vm" and "n + 5 < 2 ^ 32"
  shows "distinct (machine_irqs vm) \<and> list_all (\<lambda>i. 5 \<le> i) (machine_irqs vm)"
proof -
  have "vm_devices vm0 = mutex_new []" "vm_next_irq vm0 = 5"
    using VirtualMachine_new_parts [OF assms(1)] by blast+
  from attached_irqs [OF assms(2) this assms(3)] show ?thesis
    by (auto simp: strict_sorted_iff list_all_iff)
qed

text \<open>
  C39. The register window of every device lies in guest RAM: KVM translates each of its addresses to
  memory of the host, so that an access of the guest is an access to RAM and causes no exit that the
  device could answer.
\<close>

theorem device_windows_in_ram:
  assumes "guest_regions G invar view" and "kvm_vm K slots" and "VirtualMachine_new G t K n k = (Ok vm0, k')"
    and "(vm_attach p V)\<^sup>*\<^sup>* vm0 vm" and "w \<in> set (mx_data (vm_devices vm))"
    and "unat (mmio_base_addr w) \<le> a" and "a < unat (mmio_base_addr w) + unat (mmio_size w)"
  shows "slot_translate (slots (vm_fd vm)) 0 a = Some (unat (region_as_ptr G (memory (vm_memory vm)) 0) + a)"
proof -
  have dev: "vm_devices vm0 = mutex_new []"
    using VirtualMachine_new_parts [OF assms(3)] by blast
  note att = attached_devices [OF assms(4) dev]
  obtain d where "w = VirtioMmioDevice_new d (device_base d)"
    using att assms(5) by (auto simp: list_all_iff)
  with assms(7) have "a < 134217728"
    by (cases d) (simp_all add: VirtioMmioDevice_new_def)
  with att new_machine_slots [OF assms(1-3)] show ?thesis
    by (simp add: slot_translate_def)
qed

lemma flat_new_queues: "\<exists>qs. new_queues flat_virtio n = Ok qs"
  by (induction n) (auto simp: split_new_def)

lemma flat_console_new: "\<exists>c. VirtioConsole_new flat_virtio g irq out = Ok c"
  using flat_new_queues [of 2] by (auto simp: VirtioConsole_new_def VirtioDeviceConfig_new_def Let_def)

lemma demo_console_attached:
  assumes "vm_devices vm = mutex_new []" and "vm_next_irq vm = 5"
  shows "\<exists>vm' d. add_virtio_console Debug flat_virtio \<lparr>written = [], wr_faults = []\<rparr> vm = (Ok (), vm') \<and>
    mx_data (vm_devices vm') = [VirtioMmioDevice_new (ConsoleDev d) 0x1000] \<and> machine_irqs vm' = [5]"
proof -
  obtain c where c: "VirtioConsole_new flat_virtio 0x1000 5 (mutex_new \<lparr>written = [], wr_faults = []\<rparr>) = Ok c"
    using flat_console_new by blast
  with assms VirtioConsole_new_irq [OF c] show ?thesis
    by (simp add: add_virtio_console_def allocate_irq_def add_u32_def push_device_def machine_irqs_def List.map_filter_def
        VirtioMmioDevice_new_def) blast
qed

text \<open>A new machine with a console on the reference platform.\<close>

lemma demo_machine:
  obtains vm0 vm :: "(unit, flat_slots, flat_cpu, flat_mem, split_queue, u64) VirtualMachine" and d
  where "VirtualMachine_new flat_ops (\<lambda>_. []) flat_kvm 1 () = (Ok vm0, ())" and "vm_attach Debug flat_virtio vm0 vm"
    and "mx_data (vm_devices vm) = [VirtioMmioDevice_new (ConsoleDev d) 0x1000]" and "machine_irqs vm = [5]"
proof -
  obtain vm0 :: "(unit, flat_slots, flat_cpu, flat_mem, split_queue, u64) VirtualMachine"
    where new: "VirtualMachine_new flat_ops (\<lambda>_. []) flat_kvm 1 () = (Ok vm0, ())"
    using demo_new_machine by blast
  have "vm_devices vm0 = mutex_new []" "vm_next_irq vm0 = 5"
    using VirtualMachine_new_parts [OF new] by blast+
  from demo_console_attached [OF this] obtain vm d where
    "add_virtio_console Debug flat_virtio \<lparr>written = [], wr_faults = []\<rparr> vm0 = (Ok (), vm)"
    "mx_data (vm_devices vm) = [VirtioMmioDevice_new (ConsoleDev d) 0x1000]" "machine_irqs vm = [5]"
    by blast
  with that new show thesis by (blast intro: attach_console)
qed

theorem device_irqs_distinct_witness:
  "\<exists>vm0 vm :: (unit, flat_slots, flat_cpu, flat_mem, split_queue, u64) VirtualMachine.
     VirtualMachine_new flat_ops (\<lambda>_. []) flat_kvm 1 () = (Ok vm0, ()) \<and> ((vm_attach Debug flat_virtio) ^^ 1) vm0 vm \<and>
     machine_irqs vm = [5] \<and> distinct (machine_irqs vm)"
proof (rule demo_machine)
  fix vm0 vm :: "(unit, flat_slots, flat_cpu, flat_mem, split_queue, u64) VirtualMachine" and d
  assume new: "VirtualMachine_new flat_ops (\<lambda>_. []) flat_kvm 1 () = (Ok vm0, ())" and att: "vm_attach Debug flat_virtio vm0 vm"
    and irqs: "machine_irqs vm = [5]"
  have one: "((vm_attach Debug flat_virtio) ^^ 1) vm0 vm"
    unfolding relpowp_1 by (rule att)
  from device_irqs_distinct [OF new one] new one irqs show ?thesis
    by auto
qed

theorem device_windows_in_ram_witness:
  "\<exists>vm0 vm :: (unit, flat_slots, flat_cpu, flat_mem, split_queue, u64) VirtualMachine.
     VirtualMachine_new flat_ops (\<lambda>_. []) flat_kvm 1 () = (Ok vm0, ()) \<and> vm_attach Debug flat_virtio vm0 vm \<and>
     length (mx_data (vm_devices vm)) = 1 \<and> slot_translate (flat_slot (vm_fd vm)) 0 0x1050 = Some 0x1050"
proof (rule demo_machine)
  fix vm0 vm :: "(unit, flat_slots, flat_cpu, flat_mem, split_queue, u64) VirtualMachine" and d
  assume new: "VirtualMachine_new flat_ops (\<lambda>_. []) flat_kvm 1 () = (Ok vm0, ())" and att: "vm_attach Debug flat_virtio vm0 vm"
    and dev: "mx_data (vm_devices vm) = [VirtioMmioDevice_new (ConsoleDev d) 0x1000]"
  have "slot_translate (flat_slot (vm_fd vm)) 0 0x1050 =
      Some (unat (region_as_ptr flat_ops (memory (vm_memory vm)) 0) + 0x1050)"
    by (rule device_windows_in_ram [OF fm.guest_regions_axioms fv.kvm_vm_axioms new r_into_rtranclp [of "vm_attach Debug flat_virtio", OF att],
        of "VirtioMmioDevice_new (ConsoleDev d) 0x1000"])
      (simp_all add: dev VirtioMmioDevice_new_def)
  with new att dev show ?thesis
    by (auto simp: flat_ops_def)
qed

end
