(* ===== verification/Hv_Run.thy ===== *)
theory Hv_Run
  imports Hv_Vm
begin

text \<open>
  Running the machine (\<open>VirtualMachine::run\<close> of \<open>src/vm.rs\<close>): one thread for each vCPU and the monitor
  loop of the main thread, which share two flags, a channel of errors and the devices.

  A thread is at one of the points of \<open>thread_pc\<close>; a step takes it to the next access of shared state.
  The relation \<open>run_step\<close> interleaves the steps of the threads and of the monitor in every possible way.
  A device operation that does not return, and waiting for threads that have not ended, are steps that
  cannot be taken.  Bytes for the serial port and for the console go to the same stream of the host; the
  model keeps what the vCPUs write apart from what the console writes.
\<close>

section \<open>State\<close>

datatype thread_pc =
    T_loop
  | T_flag
  | T_recv
  | T_run
  | T_exit VcpuExit
  | T_report string
  | T_set_flag
  | T_done
  | T_panicked

datatype main_pc = M_recv | M_flag | M_running | M_clear | M_join | M_done

record 'f vcpu_thread =
  th_vcpu :: "'f Vcpu"
  th_inbox :: "VmMessage list"
  th_pc :: thread_pc

text \<open>The channel of errors is the list of all messages ever sent and the number of those received.\<close>

record ('f, 'm, 'q, 'e) run_state =
  rs_running :: bool
  rs_error_occurred :: bool
  rs_errors :: "string list"
  rs_received :: nat
  rs_replies :: "(nat \<times> HypervisorError) list"
  rs_threads :: "'f vcpu_thread list"
  rs_devices :: "('q, 'e) Device VirtioMmioDevice list mutex"
  rs_memory :: 'm
  rs_stdout :: writer
  rs_main :: main_pc

section \<open>Access to the devices\<close>

definition in_window :: "profile \<Rightarrow> u64 \<Rightarrow> 'd VirtioMmioDevice \<Rightarrow> bool Result" where
  "in_window p addr dev =
     (if mmio_base_addr dev \<le> addr
      then bind_outcome (add_u64 p (mmio_base_addr dev) (mmio_size dev)) (\<lambda>window_end. Ok (addr < window_end))
      else Ok False)"

text \<open>The loops over the devices: every device whose window holds the address is accessed, errors are
  dropped, a panic ends the loop.\<close>

fun dispatch_read ::
  "profile \<Rightarrow> ('d, 'm, 'z) VirtioDevice_scheme \<Rightarrow> u64 \<Rightarrow> u8 list \<Rightarrow> 'd VirtioMmioDevice list \<Rightarrow>
   unit Result \<times> u8 list \<times> 'd VirtioMmioDevice list" where
  "dispatch_read p T addr data [] = (Ok (), data, [])"
| "dispatch_read p T addr data (dev # devs) =
     (case in_window p addr dev of
        Ok False \<Rightarrow> (case dispatch_read p T addr data devs of (r, data, devs) \<Rightarrow> (r, data, dev # devs))
      | Ok True \<Rightarrow>
          (case mmio_read T dev (addr - mmio_base_addr dev) data of (r, data, dev) \<Rightarrow>
             (case r of
                Panic \<Rightarrow> (Panic, data, dev # devs)
              | _ \<Rightarrow> (case dispatch_read p T addr data devs of (r, data, devs) \<Rightarrow> (r, data, dev # devs))))
      | _ \<Rightarrow> (Panic, data, dev # devs))"

fun dispatch_write ::
  "profile \<Rightarrow> ('d, 'm, 'z) VirtioDevice_scheme \<Rightarrow> u64 \<Rightarrow> u8 list \<Rightarrow> 'd VirtioMmioDevice list \<Rightarrow> 'm \<Rightarrow>
   (unit Result \<times> 'd VirtioMmioDevice list \<times> 'm) option" where
  "dispatch_write p T addr data [] m = Some (Ok (), [], m)"
| "dispatch_write p T addr data (dev # devs) m =
     (case in_window p addr dev of
        Ok False \<Rightarrow> map_option (\<lambda>(r, devs, m). (r, dev # devs, m)) (dispatch_write p T addr data devs m)
      | Ok True \<Rightarrow>
          (case mmio_write T dev (addr - mmio_base_addr dev) data m of
             None \<Rightarrow> None
           | Some (r, dev, m) \<Rightarrow>
               (case r of
                  Panic \<Rightarrow> Some (Panic, dev # devs, m)
                | _ \<Rightarrow> map_option (\<lambda>(r, devs, m). (r, dev # devs, m)) (dispatch_write p T addr data devs m)))
      | _ \<Rightarrow> Some (Panic, dev # devs, m))"

section \<open>Steps\<close>

definition set_thread :: "nat \<Rightarrow> 'f vcpu_thread \<Rightarrow> ('f, 'm, 'q, 'e) run_state \<Rightarrow> ('f, 'm, 'q, 'e) run_state" where
  "set_thread i t s = s\<lparr>rs_threads := (rs_threads s)[i := t]\<rparr>"

definition snapshot_reply :: HypervisorError where
  "snapshot_reply = SnapshotError ''Snapshot not implemented''"

text \<open>After \<open>devices.lock().unwrap()\<close>: the exits for which the devices are asked.\<close>

definition exit_step ::
  "profile \<Rightarrow> ('m, 'q, 'c, 'e, 'z) virtio_ops_scheme \<Rightarrow> ('k, 'v, 'f, 'x) kvm_ops \<Rightarrow> VcpuExit \<Rightarrow> nat \<Rightarrow> 'f vcpu_thread \<Rightarrow>
   ('f, 'm, 'q, 'e) run_state \<Rightarrow> ('f, 'm, 'q, 'e) run_state option" where
  "exit_step p V K exit_reason i t s =
     (case exit_reason of
        MmioRead addr data \<Rightarrow>
          if mx_poisoned (rs_devices s) then Some (set_thread i (t\<lparr>th_pc := T_panicked\<rparr>) s)
          else (case dispatch_read p (dyn_device p V) addr data (mx_data (rs_devices s)) of
                  (r, data, devs) \<Rightarrow>
                    Some (set_thread i
                      (t\<lparr>th_vcpu := (th_vcpu t)\<lparr>vcpu_fd := put_run_data K (vcpu_fd (th_vcpu t)) data\<rparr>,
                         th_pc := (if r = Panic then T_panicked else T_loop)\<rparr>)
                      (s\<lparr>rs_devices := mutex_release r devs\<rparr>)))
      | MmioWrite addr data \<Rightarrow>
          if mx_poisoned (rs_devices s) then Some (set_thread i (t\<lparr>th_pc := T_panicked\<rparr>) s)
          else (case dispatch_write p (dyn_device p V) addr data (mx_data (rs_devices s)) (rs_memory s) of
                  None \<Rightarrow> None
                | Some (r, devs, m) \<Rightarrow>
                    Some (set_thread i (t\<lparr>th_pc := (if r = Panic then T_panicked else T_loop)\<rparr>)
                      (s\<lparr>rs_devices := mutex_release r devs, rs_memory := m\<rparr>)))
      | _ \<Rightarrow> Some (set_thread i (t\<lparr>th_pc := T_loop\<rparr>) s))"

definition thread_step ::
  "profile \<Rightarrow> ('m, 'q, 'c, 'e, 'z) virtio_ops_scheme \<Rightarrow> (kvm_errno \<Rightarrow> string) \<Rightarrow> ('k, 'v, 'f, 'x) kvm_ops \<Rightarrow> nat \<Rightarrow>
   ('f, 'm, 'q, 'e) run_state \<Rightarrow> ('f, 'm, 'q, 'e) run_state option" where
  "thread_step p V errno_text K i s =
     (if length (rs_threads s) \<le> i then None
      else let t = rs_threads s ! i in
      case th_pc t of
        T_loop \<Rightarrow> Some (set_thread i (t\<lparr>th_pc := (if rs_running s then T_flag else T_done)\<rparr>) s)
      | T_flag \<Rightarrow> Some (set_thread i (t\<lparr>th_pc := (if rs_error_occurred s then T_done else T_recv)\<rparr>) s)
      | T_recv \<Rightarrow>
          (case th_inbox t of
             [] \<Rightarrow> Some (set_thread i (t\<lparr>th_pc := T_run\<rparr>) s)
           | Stop # rest \<Rightarrow> Some (set_thread i (t\<lparr>th_inbox := rest, th_pc := T_done\<rparr>) s)
           | SnapshotRequest tx path # rest \<Rightarrow>
               Some (set_thread i (t\<lparr>th_inbox := rest, th_pc := T_loop\<rparr>)
                 (if (word_of_nat i :: u8) = 0 then s\<lparr>rs_replies := rs_replies s @ [(tx, snapshot_reply)]\<rparr> else s)))
      | T_run \<Rightarrow>
          (case Vcpu_run K (vcpu_fd (th_vcpu t)) (rs_stdout s) of
             (r, fd, stdout) \<Rightarrow>
               Some (set_thread i
                 (t\<lparr>th_vcpu := (th_vcpu t)\<lparr>vcpu_fd := fd\<rparr>,
                    th_pc := (case r of
                        Ok exit_reason \<Rightarrow> T_exit exit_reason
                      | Err e \<Rightarrow> T_report (hypervisor_error_to_string errno_text e)
                      | Panic \<Rightarrow> T_panicked)\<rparr>)
                 (s\<lparr>rs_stdout := stdout\<rparr>)))
      | T_exit exit_reason \<Rightarrow> exit_step p V K exit_reason i t s
      | T_report e \<Rightarrow> Some (set_thread i (t\<lparr>th_pc := T_set_flag\<rparr>) (s\<lparr>rs_errors := rs_errors s @ [e]\<rparr>))
      | T_set_flag \<Rightarrow> Some (set_thread i (t\<lparr>th_pc := T_done\<rparr>) (s\<lparr>rs_error_occurred := True\<rparr>))
      | T_done \<Rightarrow> None
      | T_panicked \<Rightarrow> None)"

definition thread_ended :: "'f vcpu_thread \<Rightarrow> bool" where
  "thread_ended t = (th_pc t = T_done \<or> th_pc t = T_panicked)"

text \<open>The monitor loop, and the end of the scope, which waits for every thread.\<close>

definition main_step :: "('f, 'm, 'q, 'e) run_state \<Rightarrow> ('f, 'm, 'q, 'e) run_state option" where
  "main_step s =
     (case rs_main s of
        M_recv \<Rightarrow>
          if rs_received s < length (rs_errors s)
          then Some (s\<lparr>rs_received := Suc (rs_received s), rs_main := M_clear\<rparr>)
          else Some (s\<lparr>rs_main := M_flag\<rparr>)
      | M_flag \<Rightarrow> Some (s\<lparr>rs_main := (if rs_error_occurred s then M_clear else M_running)\<rparr>)
      | M_running \<Rightarrow> Some (s\<lparr>rs_main := (if rs_running s then M_recv else M_join)\<rparr>)
      | M_clear \<Rightarrow> Some (s\<lparr>rs_running := False, rs_main := M_join\<rparr>)
      | M_join \<Rightarrow> if list_all thread_ended (rs_threads s) then Some (s\<lparr>rs_main := M_done\<rparr>) else None
      | M_done \<Rightarrow> None)"

inductive run_step ::
  "profile \<Rightarrow> ('m, 'q, 'c, 'e, 'z) virtio_ops_scheme \<Rightarrow> (kvm_errno \<Rightarrow> string) \<Rightarrow> ('k, 'v, 'f, 'x) kvm_ops \<Rightarrow>
   ('f, 'm, 'q, 'e) run_state \<Rightarrow> ('f, 'm, 'q, 'e) run_state \<Rightarrow> bool" for p V errno_text K where
  vcpu: "thread_step p V errno_text K i s = Some s' \<Longrightarrow> run_step p V errno_text K s s'"
| monitor: "main_step s = Some s' \<Longrightarrow> run_step p V errno_text K s s'"

text \<open>A schedule names who moves next: a thread by its number, or the monitor.\<close>

fun run_schedule ::
  "profile \<Rightarrow> ('m, 'q, 'c, 'e, 'z) virtio_ops_scheme \<Rightarrow> (kvm_errno \<Rightarrow> string) \<Rightarrow> ('k, 'v, 'f, 'x) kvm_ops \<Rightarrow>
   nat option list \<Rightarrow> ('f, 'm, 'q, 'e) run_state \<Rightarrow> ('f, 'm, 'q, 'e) run_state option" where
  "run_schedule p V errno_text K [] s = Some s"
| "run_schedule p V errno_text K (x # xs) s =
     (case (case x of Some i \<Rightarrow> thread_step p V errno_text K i s | None \<Rightarrow> main_step s) of
        None \<Rightarrow> None
      | Some s' \<Rightarrow> run_schedule p V errno_text K xs s')"

lemma run_schedule_steps:
  "run_schedule p V t K xs s = Some s' \<Longrightarrow> ((run_step p V t K) ^^ length xs) s s'"
proof (induction xs arbitrary: s)
  case (Cons x xs)
  then obtain u where u: "(case x of Some i \<Rightarrow> thread_step p V t K i s | None \<Rightarrow> main_step s) = Some u"
      "run_schedule p V t K xs u = Some s'"
    by (auto split: option.splits)
  then have "run_step p V t K s u"
    by (cases x) (auto intro: run_step.intros)
  from relpowp_Suc_I2 [of "run_step p V t K", OF this Cons.IH [OF u(2)]] show ?case
    by (simp only: list.size(4) add_0_right add_Suc_right)
qed simp

lemma run_schedule_complete:
  "(run_step p V t K)\<^sup>*\<^sup>* s s' \<Longrightarrow> \<exists>xs. run_schedule p V t K xs s = Some s'"
proof (induction rule: converse_rtranclp_induct)
  case base
  then show ?case by (rule exI [of _ "[]"]) simp
next
  case (step s u)
  then obtain xs where xs: "run_schedule p V t K xs u = Some s'" by blast
  from step(1) show ?case
  proof cases
    case (vcpu i)
    with xs show ?thesis by (intro exI [of _ "Some i # xs"]) simp
  next
    case monitor
    with xs show ?thesis by (intro exI [of _ "None # xs"]) simp
  qed
qed

section \<open>A run\<close>

text \<open>
  Taking a receiver for each vCPU panics when there are more vCPUs than channels; the scope then still
  waits for the threads that have been started, and nobody is at the monitor.
\<close>

definition spawn_panics :: "('k, 'v, 'f, 'm, 'q, 'e) VirtualMachine \<Rightarrow> bool" where
  "spawn_panics self = (unat (vm_num_cpus self) < length (vm_vcpus self))"

definition run_start :: "writer \<Rightarrow> ('k, 'v, 'f, 'm, 'q, 'e) VirtualMachine \<Rightarrow> ('f, 'm, 'q, 'e) run_state" where
  "run_start stdout self =
     \<lparr>rs_running = True, rs_error_occurred = False, rs_errors = [], rs_received = 0, rs_replies = [],
      rs_threads = map (\<lambda>vcpu. \<lparr>th_vcpu = vcpu, th_inbox = [], th_pc = T_loop\<rparr>) (take (unat (vm_num_cpus self)) (vm_vcpus self)),
      rs_devices = vm_devices self, rs_memory = memory (vm_memory self), rs_stdout = stdout,
      rs_main = (if spawn_panics self then M_join else M_recv)\<rparr>"

text \<open>What is left in the machine when the scope ends; a thread that has panicked makes the scope panic,
  otherwise \<open>self.stop().ok()\<close> follows and \<open>run\<close> returns \<open>Ok\<close>.\<close>

definition run_finish ::
  "('f, 'm, 'q, 'e) run_state \<Rightarrow> ('k, 'v, 'f, 'm, 'q, 'e) VirtualMachine \<Rightarrow> unit Result \<times> ('k, 'v, 'f, 'm, 'q, 'e) VirtualMachine" where
  "run_finish s self =
     (let n = length (rs_threads s);
          self' = (set_vm_memory (rs_memory s) self)
            \<lparr>vm_vcpus := map th_vcpu (rs_threads s) @ drop n (vm_vcpus self), vm_devices := rs_devices s,
             vm_running := rs_running s,
             vm_message_tx := map th_inbox (rs_threads s) @ replicate (unat (vm_num_cpus self) - n) []\<rparr> in
      if spawn_panics self \<or> list_ex (\<lambda>t. th_pc t = T_panicked) (rs_threads s) then (Panic, self')
      else (Ok (), snd (vm_stop self')))"

text \<open>A complete run: from the start to the end of the scope.\<close>

definition vm_runs ::
  "profile \<Rightarrow> ('m, 'q, 'c, 'e, 'z) virtio_ops_scheme \<Rightarrow> (kvm_errno \<Rightarrow> string) \<Rightarrow> ('k, 'v, 'f, 'x) kvm_ops \<Rightarrow> writer \<Rightarrow>
   ('k, 'v, 'f, 'm, 'q, 'e) VirtualMachine \<Rightarrow> unit Result \<Rightarrow> ('k, 'v, 'f, 'm, 'q, 'e) VirtualMachine \<Rightarrow> bool" where
  "vm_runs p V errno_text K stdout self r self' \<longleftrightarrow>
     (\<exists>s. (run_step p V errno_text K)\<^sup>*\<^sup>* (run_start stdout self) s \<and> rs_main s = M_done \<and> run_finish s self = (r, self'))"

section \<open>Which device answers\<close>

text \<open>The devices of a machine have windows of 4 KiB at the four base addresses.\<close>

definition in_page :: "u64 \<Rightarrow> 'd VirtioMmioDevice \<Rightarrow> bool" where
  "in_page addr w \<longleftrightarrow> mmio_base_addr w \<le> addr \<and> addr < mmio_base_addr w + 0x1000"

lemma in_window_page:
  "in_window p addr (VirtioMmioDevice_new d (device_base d')) = Ok (in_page addr (VirtioMmioDevice_new d (device_base d')))"
  by (cases d') (simp_all add: in_window_def in_page_def VirtioMmioDevice_new_def add_u64_def)

lemma in_page_unique:
  assumes "in_page addr (VirtioMmioDevice_new d (device_base d))" and "in_page addr (VirtioMmioDevice_new e (device_base e))"
  shows "device_base d = device_base e"
  using assms by (cases d; cases e) (simp_all add: in_page_def VirtioMmioDevice_new_def word_less_nat_alt word_le_nat_alt)

lemma dispatch_read_skip:
  "list_all (\<lambda>w. in_window p addr w = Ok False) ws \<Longrightarrow>
   dispatch_read p T addr data (ws @ devs) = (case dispatch_read p T addr data devs of (r, data, devs) \<Rightarrow> (r, data, ws @ devs))"
  by (induction ws) (auto split: prod.splits)

lemma dispatch_write_skip:
  "list_all (\<lambda>w. in_window p addr w = Ok False) ws \<Longrightarrow>
   dispatch_write p T addr data (ws @ devs) m = map_option (\<lambda>(r, devs, m). (r, ws @ devs, m)) (dispatch_write p T addr data devs m)"
  by (induction ws; cases "dispatch_write p T addr data devs m") auto

lemma dispatch_read_one:
  assumes "list_all (\<lambda>w. in_window p addr w = Ok False) (ws @ vs)" and "in_window p addr w = Ok True"
  shows "dispatch_read p T addr data (ws @ w # vs) =
    (case mmio_read T w (addr - mmio_base_addr w) data of (r, data, w) \<Rightarrow> (if r = Panic then Panic else Ok (), data, ws @ w # vs))"
  using assms dispatch_read_skip [of p addr vs T _ "[]"]
  by (auto simp: dispatch_read_skip split: prod.splits outcome.splits)

lemma dispatch_write_one:
  assumes "list_all (\<lambda>w. in_window p addr w = Ok False) (ws @ vs)" and "in_window p addr w = Ok True"
  shows "dispatch_write p T addr data (ws @ w # vs) m =
    map_option (\<lambda>(r, w, m). (if r = Panic then Panic else Ok (), ws @ w # vs, m)) (mmio_write T w (addr - mmio_base_addr w) data m)"
  using assms dispatch_write_skip [of p addr vs T _ "[]"]
  by (auto simp: dispatch_write_skip split: prod.splits outcome.splits option.splits)

text \<open>
  C15. An access of the guest goes to one device only.  In a machine whose devices have different base
  addresses, a read or a write at an address of a device's window is the access of that device at the
  offset in the window; no other device is asked or changed, and an error of the device is dropped.
\<close>

theorem dispatch_one_device:
  assumes "vm_devices vm0 = mutex_new []" and "(vm_attach p V)\<^sup>*\<^sup>* vm0 vm"
    and "mx_data (vm_devices vm) = ws @ w # vs" and "distinct (map mmio_base_addr (ws @ w # vs))" and "in_page addr w"
  shows "dispatch_read p (dyn_device p V) addr data (mx_data (vm_devices vm)) =
      (case mmio_read (dyn_device p V) w (addr - mmio_base_addr w) data of
         (r, data, w) \<Rightarrow> (if r = Panic then Panic else Ok (), data, ws @ w # vs)) \<and>
    dispatch_write p (dyn_device p V) addr data (mx_data (vm_devices vm)) m =
      map_option (\<lambda>(r, w, m). (if r = Panic then Panic else Ok (), ws @ w # vs, m))
        (mmio_write (dyn_device p V) w (addr - mmio_base_addr w) data m)"
proof -
  have dev: "list_all (\<lambda>w. \<exists>d. w = VirtioMmioDevice_new d (device_base d)) (ws @ w # vs)"
    using attached_devices [OF assms(2,1)] assms(3) by simp
  have "in_window p addr v = Ok False" if other: "v \<in> set (ws @ vs)" for v
  proof -
    obtain d where v: "v = VirtioMmioDevice_new d (device_base d)"
      using dev other by (auto simp: list_all_iff)
    obtain e where w: "w = VirtioMmioDevice_new e (device_base e)"
      using dev by auto
    have "mmio_base_addr v \<noteq> mmio_base_addr w"
      using assms(4) other by (auto simp: image_iff)
    with in_page_unique [of addr d e] assms(5) show ?thesis
      by (auto simp: v w in_window_page) (auto simp: VirtioMmioDevice_new_def)
  qed
  then have "list_all (\<lambda>w. in_window p addr w = Ok False) (ws @ vs)"
    by (simp add: list_all_iff)
  moreover have "in_window p addr w = Ok True"
    using dev assms(5) by (auto simp: in_window_page)
  ultimately show ?thesis
    using assms(3) by (simp add: dispatch_read_one dispatch_write_one)
qed

section \<open>How a thread moves\<close>

text \<open>The points that a thread can go to, as a function of what it reads of the shared state.\<close>

fun thread_move :: "bool \<Rightarrow> bool \<Rightarrow> VmMessage list \<Rightarrow> thread_pc \<Rightarrow> thread_pc \<Rightarrow> bool" where
  "thread_move running err inbox T_loop pc' = (pc' = (if running then T_flag else T_done))"
| "thread_move running err inbox T_flag pc' = (pc' = (if err then T_done else T_recv))"
| "thread_move running err inbox T_recv pc' =
     (pc' = (case inbox of [] \<Rightarrow> T_run | Stop # _ \<Rightarrow> T_done | SnapshotRequest _ _ # _ \<Rightarrow> T_loop))"
| "thread_move running err inbox T_run pc' = ((\<exists>x. pc' = T_exit x) \<or> (\<exists>e. pc' = T_report e) \<or> pc' = T_panicked)"
| "thread_move running err inbox (T_exit x) pc' = (pc' = T_loop \<or> pc' = T_panicked)"
| "thread_move running err inbox (T_report e) pc' = (pc' = T_set_flag)"
| "thread_move running err inbox T_set_flag pc' = (pc' = T_done)"
| "thread_move running err inbox T_done pc' = False"
| "thread_move running err inbox T_panicked pc' = False"

definition thread_effect :: "nat \<Rightarrow> ('f, 'm, 'q, 'e) run_state \<Rightarrow> 'f vcpu_thread \<Rightarrow> ('f, 'm, 'q, 'e) run_state \<Rightarrow> bool" where
  "thread_effect i s t' s' \<longleftrightarrow>
     (let t = rs_threads s ! i in
      i < length (rs_threads s) \<and> rs_threads s' = (rs_threads s)[i := t'] \<and>
      rs_running s' = rs_running s \<and> rs_main s' = rs_main s \<and> rs_received s' = rs_received s \<and>
      thread_move (rs_running s) (rs_error_occurred s) (th_inbox t) (th_pc t) (th_pc t') \<and>
      th_inbox t' = (if th_pc t = T_recv then tl (th_inbox t) else th_inbox t) \<and>
      rs_errors s' = (case th_pc t of T_report e \<Rightarrow> rs_errors s @ [e] | _ \<Rightarrow> rs_errors s) \<and>
      rs_error_occurred s' = (rs_error_occurred s \<or> th_pc t = T_set_flag))"

lemma set_thread_simps [simp]:
  "rs_threads (set_thread i t s) = (rs_threads s)[i := t]" "rs_running (set_thread i t s) = rs_running s"
  "rs_main (set_thread i t s) = rs_main s" "rs_received (set_thread i t s) = rs_received s"
  "rs_errors (set_thread i t s) = rs_errors s" "rs_error_occurred (set_thread i t s) = rs_error_occurred s"
  by (simp_all add: set_thread_def)

lemma exit_step_effect:
  assumes "exit_step p V K x i t s = Some s'" and "i < length (rs_threads s)" and "rs_threads s ! i = t" and "th_pc t = T_exit x"
  shows "\<exists>t'. thread_effect i s t' s'"
proof -
  have "\<exists>t'. rs_threads s' = (rs_threads s)[i := t'] \<and> (th_pc t' = T_loop \<or> th_pc t' = T_panicked) \<and> th_inbox t' = th_inbox t"
    using assms(1) by (auto simp: exit_step_def split: VcpuExit.splits if_splits prod.splits option.splits)
  moreover have "rs_running s' = rs_running s \<and> rs_main s' = rs_main s \<and> rs_received s' = rs_received s \<and>
      rs_errors s' = rs_errors s \<and> rs_error_occurred s' = rs_error_occurred s"
    using assms(1) by (auto simp: exit_step_def split: VcpuExit.splits if_splits prod.splits option.splits)
  ultimately show ?thesis
    using assms(2-4) by (auto simp: thread_effect_def Let_def)
qed

lemma thread_step_effect:
  assumes "thread_step p V errno_text K i s = Some s'"
  shows "\<exists>t'. thread_effect i s t' s'"
proof -
  have i: "i < length (rs_threads s)"
    using assms by (simp add: thread_step_def split: if_splits)
  show ?thesis
  proof (cases "th_pc (rs_threads s ! i)")
    case T_loop
    then show ?thesis
      using assms i by (auto simp: thread_step_def thread_effect_def)
  next
    case T_flag
    then show ?thesis
      using assms i by (auto simp: thread_step_def thread_effect_def)
  next
    case T_recv
    then show ?thesis
      using assms i
      by (cases "th_inbox (rs_threads s ! i)"; cases "hd (th_inbox (rs_threads s ! i))")
        (auto simp: thread_step_def thread_effect_def Let_def, (rule exI, rule conjI, rule refl, simp)?)
  next
    case T_run
    obtain r fd out where run: "Vcpu_run K (vcpu_fd (th_vcpu (rs_threads s ! i))) (rs_stdout s) = (r, fd, out)"
      by (cases "Vcpu_run K (vcpu_fd (th_vcpu (rs_threads s ! i))) (rs_stdout s)")
    then show ?thesis
      using assms i T_run by (cases r) (auto simp: thread_step_def thread_effect_def Let_def)
  next
    case (T_exit x)
    with assms i exit_step_effect [of p V K x i _ s s'] show ?thesis
      by (auto simp: thread_step_def Let_def)
  next
    case (T_report e)
    then show ?thesis
      using assms i by (auto simp: thread_step_def thread_effect_def Let_def)
  next
    case T_set_flag
    then show ?thesis
      using assms i by (auto simp: thread_step_def thread_effect_def Let_def)
  next
    case T_done
    then show ?thesis
      using assms i by (simp add: thread_step_def)
  next
    case T_panicked
    then show ?thesis
      using assms i by (simp add: thread_step_def)
  qed
qed

section \<open>Safety\<close>

text \<open>
  The invariant of a run: whenever the machine has been told to stop, or is about to be, a vCPU has
  reported an error; the monitor is past its loop only when the machine has been told to stop.
\<close>

definition run_inv :: "('f, 'm, 'q, 'e) run_state \<Rightarrow> bool" where
  "run_inv s \<longleftrightarrow>
     list_all (\<lambda>t. th_inbox t = []) (rs_threads s) \<and>
     rs_received s \<le> length (rs_errors s) \<and>
     (\<not> rs_running s \<or> rs_error_occurred s \<or> rs_main s \<in> {M_clear, M_join, M_done} \<or>
       list_ex (\<lambda>t. th_pc t = T_set_flag \<or> th_pc t = T_done) (rs_threads s) \<longrightarrow> rs_errors s \<noteq> []) \<and>
     (rs_main s \<in> {M_join, M_done} \<longrightarrow> \<not> rs_running s) \<and>
     (rs_main s = M_done \<longrightarrow> list_all thread_ended (rs_threads s))"

lemma list_all_upd: "list_all P xs \<Longrightarrow> P x \<Longrightarrow> list_all P (xs[i := x])"
  by (induction xs arbitrary: i) (auto split: nat.split)

lemma list_ex_upd: "list_ex P (xs[i := x]) \<Longrightarrow> P x \<or> list_ex P xs"
  by (induction xs arbitrary: i) (auto split: nat.splits)

lemma list_ex_nth: "i < length xs \<Longrightarrow> P (xs ! i) \<Longrightarrow> list_ex P xs"
  by (auto simp: list_ex_iff intro: bexI [of _ "xs ! i"])

lemma thread_effect_inv:
  assumes "run_inv s" and "thread_effect i s t' s'"
  shows "run_inv s'"
proof -
  let ?t = "rs_threads s ! i"
  note e = assms(2) [unfolded thread_effect_def Let_def]
  have i: "i < length (rs_threads s)" and inbox: "th_inbox ?t = []"
    using e assms(1) by (auto simp: run_inv_def list_all_length)
  have live: "th_pc ?t \<noteq> T_done" "th_pc ?t \<noteq> T_panicked"
    using e by (auto elim: thread_move.elims)
  have errs: "rs_errors s \<noteq> [] \<Longrightarrow> rs_errors s' \<noteq> []" "length (rs_errors s) \<le> length (rs_errors s')"
    using e by (auto split: thread_pc.splits)
  have stop: "rs_errors s' \<noteq> []" if "th_pc t' = T_set_flag \<or> th_pc t' = T_done \<or> th_pc ?t = T_set_flag"
  proof (cases "th_pc ?t")
    case T_loop
    then show ?thesis using that e errs(1) assms(1) by (auto simp: run_inv_def split: if_splits)
  next
    case T_flag
    then show ?thesis using that e errs(1) assms(1) by (auto simp: run_inv_def split: if_splits)
  next
    case T_set_flag
    then show ?thesis
      using errs(1) assms(1) list_ex_nth [OF i, of "\<lambda>t. th_pc t = T_set_flag \<or> th_pc t = T_done"] by (auto simp: run_inv_def)
  qed (use that e inbox in auto)
  have "\<not> (rs_main s = M_done)"
    using assms(1) i live by (auto simp: run_inv_def list_all_length thread_ended_def)
  moreover have "list_all (\<lambda>t. th_inbox t = []) (rs_threads s')"
    using e assms(1) inbox by (auto simp: run_inv_def intro: list_all_upd)
  moreover have "rs_errors s' \<noteq> []" if "\<not> rs_running s' \<or> rs_error_occurred s' \<or> rs_main s' \<in> {M_clear, M_join, M_done} \<or>
      list_ex (\<lambda>t. th_pc t = T_set_flag \<or> th_pc t = T_done) (rs_threads s')"
    using that e stop errs(1) assms(1) by (auto simp: run_inv_def dest!: list_ex_upd)
  ultimately show ?thesis
    using e errs(2) assms(1) by (auto simp: run_inv_def)
qed

lemma main_step_inv: "run_inv s \<Longrightarrow> main_step s = Some s' \<Longrightarrow> run_inv s'"
  by (cases "rs_main s") (auto simp: main_step_def run_inv_def split: if_splits)

lemma run_step_inv: "run_step p V t K s s' \<Longrightarrow> run_inv s \<Longrightarrow> run_inv s'"
  by (induction rule: run_step.induct) (auto dest!: thread_step_effect intro: thread_effect_inv main_step_inv)

lemma run_steps_inv: "(run_step p V t K)\<^sup>*\<^sup>* s s' \<Longrightarrow> run_inv s \<Longrightarrow> run_inv s'"
  by (induction rule: rtranclp_induct) (auto intro: run_step_inv)

lemma run_start_inv: "\<not> spawn_panics vm \<Longrightarrow> run_inv (run_start out vm)"
  by (auto simp: run_start_def run_inv_def list_ex_iff list_all_iff)

text \<open>
  C18. \<open>run\<close> returns only after a vCPU has reported an error: nothing else clears the flag that the
  threads and the monitor watch.  When it returns, the machine is stopped and every thread has ended;
  the error is not passed on, since the result is \<open>Ok\<close> unless a thread has panicked.
\<close>

theorem run_returns_after_error:
  assumes "length (vm_vcpus vm) = unat (vm_num_cpus vm)" and "(run_step p V t K)\<^sup>*\<^sup>* (run_start out vm) s"
    and "rs_main s = M_done" and "run_finish s vm = (r, vm')"
  shows "rs_errors s \<noteq> [] \<and> list_all thread_ended (rs_threads s) \<and> \<not> vm_running vm' \<and>
    r = (if list_ex (\<lambda>t. th_pc t = T_panicked) (rs_threads s) then Panic else Ok ())"
proof -
  have np: "\<not> spawn_panics vm"
    using assms(1) by (simp add: spawn_panics_def)
  have "run_inv s"
    using run_steps_inv [OF assms(2) run_start_inv [OF np]] .
  with assms(3,4) np show ?thesis
    by (auto simp: run_inv_def run_finish_def Let_def vm_stop_def set_vm_memory_def split: if_splits)
qed

section \<open>Termination\<close>

primrec pc_rank :: "thread_pc \<Rightarrow> nat" where
  "pc_rank T_loop = 2"
| "pc_rank T_flag = 1"
| "pc_rank T_recv = 5"
| "pc_rank T_run = 4"
| "pc_rank (T_exit x) = 3"
| "pc_rank (T_report e) = 2"
| "pc_rank T_set_flag = 1"
| "pc_rank T_done = 0"
| "pc_rank T_panicked = 0"

primrec main_rank :: "main_pc \<Rightarrow> nat" where
  "main_rank M_recv = 4"
| "main_rank M_flag = 3"
| "main_rank M_running = 5"
| "main_rank M_clear = 2"
| "main_rank M_join = 1"
| "main_rank M_done = 0"

definition run_measure :: "('f, 'm, 'q, 'e) run_state \<Rightarrow> nat" where
  "run_measure s = main_rank (rs_main s) + sum_list (map (\<lambda>t. pc_rank (th_pc t)) (rs_threads s))"

lemma thread_move_rank: "thread_move running True inbox pc pc' \<Longrightarrow> pc_rank pc' < pc_rank pc"
  by (cases pc) (auto split: list.splits VmMessage.splits if_splits)

lemma thread_effect_measure:
  assumes "thread_effect i s t' s'" and "rs_error_occurred s"
  shows "run_measure s' < run_measure s"
proof -
  let ?f = "\<lambda>t. pc_rank (th_pc t)"
  note e = assms(1) [unfolded thread_effect_def Let_def]
  have "?f t' < ?f (rs_threads s ! i)"
    using e assms(2) by (auto intro: thread_move_rank)
  moreover have "?f (rs_threads s ! i) \<le> sum_list (map ?f (rs_threads s))"
    using e by (intro member_le_sum_list) auto
  ultimately have "sum_list (map ?f (rs_threads s')) < sum_list (map ?f (rs_threads s))"
    using e by (simp add: map_update sum_list_update)
  with e show ?thesis
    by (simp add: run_measure_def)
qed

lemma run_step_measure:
  "run_step p V t K s s' \<Longrightarrow> rs_error_occurred s \<Longrightarrow> run_measure s' < run_measure s \<and> rs_error_occurred s'"
proof (induction rule: run_step.induct)
  case (vcpu i s s')
  from thread_step_effect [OF vcpu(1)] obtain t' where eff: "thread_effect i s t' s'" ..
  with vcpu(2) have "rs_error_occurred s'"
    by (simp add: thread_effect_def Let_def)
  with thread_effect_measure [OF eff vcpu(2)] show ?case ..
next
  case (monitor s s')
  then show ?case
    by (cases "rs_main s") (auto simp: main_step_def run_measure_def split: if_splits)
qed

lemma run_steps_measure:
  "((run_step p V t K) ^^ n) s s' \<Longrightarrow> rs_error_occurred s \<Longrightarrow> n + run_measure s' \<le> run_measure s"
proof (induction n arbitrary: s')
  case 0
  then show ?case by simp
next
  case (Suc n)
  then obtain u where u: "((run_step p V t K) ^^ n) s u" "run_step p V t K u s'"
    by (auto elim: relpowp_Suc_E)
  have "rs_error_occurred u"
    using u(1) Suc.prems(2)
  proof (induction n arbitrary: u)
    case (Suc n)
    then show ?case by (auto elim!: relpowp_Suc_E dest: run_step_measure)
  qed simp
  with Suc.IH [OF u(1) Suc.prems(2)] run_step_measure [OF u(2)] show ?case by simp
qed

lemma run_measure_bound: "run_measure s \<le> 5 + 5 * length (rs_threads s)"
proof -
  have "sum_list (map (\<lambda>t. pc_rank (th_pc t)) ts) \<le> 5 * length ts" for ts :: "'a vcpu_thread list"
  proof (induction ts)
    case (Cons t ts)
    have "pc_rank (th_pc t) \<le> 5" by (cases "th_pc t") simp_all
    with Cons show ?case by simp
  qed simp
  moreover have "main_rank (rs_main s) \<le> 5" by (cases "rs_main s") simp_all
  ultimately show ?thesis
    by (simp add: run_measure_def add_mono)
qed

text \<open>A vCPU waits for a device that does not come back from a register write.\<close>

definition device_hangs :: "profile \<Rightarrow> ('m, 'q, 'c, 'e, 'z) virtio_ops_scheme \<Rightarrow> ('f, 'm, 'q, 'e) run_state \<Rightarrow> bool" where
  "device_hangs p V s \<longleftrightarrow>
     (\<exists>t \<in> set (rs_threads s). \<exists>addr data. th_pc t = T_exit (MmioWrite addr data) \<and>
        dispatch_write p (dyn_device p V) addr data (mx_data (rs_devices s)) (rs_memory s) = None)"

lemma thread_step_None:
  assumes "thread_step p V errno_text K i s = None" and "i < length (rs_threads s)"
  shows "thread_ended (rs_threads s ! i) \<or> device_hangs p V s"
proof (cases "th_pc (rs_threads s ! i)")
  case T_recv
  then show ?thesis
    using assms by (auto simp: thread_step_def Let_def split: list.splits VmMessage.splits)
next
  case (T_exit x)
  then have "exit_step p V K x i (rs_threads s ! i) s = None"
    using assms by (simp add: thread_step_def Let_def)
  then obtain addr data where "x = MmioWrite addr data"
      "dispatch_write p (dyn_device p V) addr data (mx_data (rs_devices s)) (rs_memory s) = None"
    by (auto simp: exit_step_def split: VcpuExit.splits if_splits prod.splits option.splits)
  with T_exit assms(2) show ?thesis
    unfolding device_hangs_def by (metis nth_mem)
qed (use assms in \<open>auto simp: thread_step_def thread_ended_def Let_def split: prod.splits\<close>)

lemma run_stuck:
  assumes "run_inv s" and "\<nexists>s'. run_step p V t K s s'" and "\<not> device_hangs p V s"
  shows "rs_main s = M_done"
proof -
  have "list_all thread_ended (rs_threads s)"
    using assms(2,3) thread_step_None [of p V t K _ s]
    by (auto simp: list_all_length intro: vcpu) (metis option.exhaust vcpu)
  moreover have "main_step s = None"
    using assms(2) by (metis monitor option.exhaust)
  ultimately show ?thesis
    by (cases "rs_main s") (auto simp: main_step_def split: if_splits)
qed



section \<open>Examples\<close>

definition demo_vm :: "VcpuExit list \<Rightarrow> (unit, flat_slots, flat_cpu, flat_mem, split_queue, u64) VirtualMachine" where
  "demo_vm exits =
     \<lparr>vm_kvm = (), vm_fd = [], vm_vcpus = [\<lparr>vcpu_fd = reset_cpu\<lparr>fc_exits := exits\<rparr>, vcpu_id = 0\<rparr>],
      vm_memory = \<lparr>memory = flat_ram, low_mem_size = 134217728\<rparr>, vm_kernel_loader = None, vm_devices = mutex_new [],
      vm_snapshot_manager = SnapshotManager_new [], vm_num_cpus = 1, vm_next_irq = 5, vm_running = False, vm_message_tx = []\<rparr>"

text \<open>A vCPU that fails at once: it reports the error and ends, then the monitor sees the report.\<close>

abbreviation demo_schedule :: "nat option list" where
  "demo_schedule \<equiv> [Some 0, Some 0, Some 0, Some 0, Some 0, Some 0]"

abbreviation demo_out :: writer where
  "demo_out \<equiv> \<lparr>written = [], wr_faults = []\<rparr>"

lemma demo_flagged:
  "\<exists>s. run_schedule Debug flat_virtio (\<lambda>_. ''E'') flat_kvm demo_schedule (run_start demo_out (demo_vm [])) = Some s \<and>
     rs_error_occurred s \<and> rs_running s \<and> length (rs_errors s) = 1 \<and> rs_received s = 0 \<and> rs_main s = M_recv \<and>
     map th_pc (rs_threads s) = [T_done]"
  by (simp add: run_start_def demo_vm_def spawn_panics_def thread_step_def set_thread_def Vcpu_run_def flat_run_def reset_cpu_def)

lemma demo_ends:
  assumes "rs_received s < length (rs_errors s)" and "rs_main s = M_recv" and "map th_pc (rs_threads s) = [T_done]"
  shows "\<exists>s'. run_schedule p V t K [None, None, None] s = Some s' \<and> rs_main s' = M_done \<and> rs_threads s' = rs_threads s"
  using assms by (auto simp: main_step_def thread_ended_def)

lemma demo_vm_devices: "vm_devices (demo_vm xs) = mutex_new []" "vm_next_irq (demo_vm xs) = 5"
  by (simp_all add: demo_vm_def)

lemma numeral_nat_4: "(4::nat) = Suc (Suc (Suc (Suc 0)))"
  by simp

lemma magic_bytes: "u32_to_le_bytes 0x74726976 = [0x76, 0x69, 0x72, 0x74]"
proof -
  have "le_bytes_nat (Suc (Suc (Suc (Suc 0)))) 0x74726976 = [0x76, 0x69, 0x72, 0x74]"
    by simp
  then have "le_bytes_nat 4 0x74726976 = [0x76, 0x69, 0x72, 0x74]"
    unfolding numeral_nat_4 .
  then show ?thesis by (simp add: u32_to_le_bytes_def)
qed

text \<open>The guest asks the console for the magic number of the transport.\<close>

theorem dispatch_one_device_witness:
  "\<exists>vm d. vm_attach Debug flat_virtio (demo_vm []) vm \<and> mx_data (vm_devices vm) = [VirtioMmioDevice_new (ConsoleDev d) 0x1000] \<and>
     dispatch_read Debug (dyn_device Debug flat_virtio) 0x1000 [0, 0, 0, 0] (mx_data (vm_devices vm)) =
       (Ok (), [0x76, 0x69, 0x72, 0x74], [VirtioMmioDevice_new (ConsoleDev d) 0x1000])"
proof -
  obtain vm d where vm: "add_virtio_console Debug flat_virtio demo_out (demo_vm []) = (Ok (), vm)"
    "mx_data (vm_devices vm) = [VirtioMmioDevice_new (ConsoleDev d) 0x1000]"
    using demo_console_attached [OF demo_vm_devices, of "[]"] by blast
  have att: "vm_attach Debug flat_virtio (demo_vm []) vm"
    using vm(1) by (rule attach_console)
  have dev: "mx_data (vm_devices vm) = [] @ VirtioMmioDevice_new (ConsoleDev d) 0x1000 # []"
    using vm(2) by simp
  have here: "in_page 0x1000 (VirtioMmioDevice_new (ConsoleDev d) 0x1000)"
    by (simp add: in_page_def VirtioMmioDevice_new_def)
  have magic: "mmio_read (dyn_device Debug flat_virtio) (VirtioMmioDevice_new (ConsoleDev d) 0x1000) 0 [0, 0, 0, 0] =
      (Ok (), [0x76, 0x69, 0x72, 0x74], VirtioMmioDevice_new (ConsoleDev d) 0x1000)"
    by (simp add: VirtioMmioDevice_new_def mmio_read_def mmio_register_def copy_prefix_same_length magic_bytes)
  have base: "mmio_base_addr (VirtioMmioDevice_new (ConsoleDev d) 0x1000) = 0x1000"
    by (simp add: VirtioMmioDevice_new_def)
  have "dispatch_read Debug (dyn_device Debug flat_virtio) 0x1000 [0, 0, 0, 0] (mx_data (vm_devices vm)) =
      (Ok (), [0x76, 0x69, 0x72, 0x74], [VirtioMmioDevice_new (ConsoleDev d) 0x1000])"
    using dispatch_one_device [OF demo_vm_devices(1) r_into_rtranclp [of "vm_attach Debug flat_virtio", OF att] dev _ here,
        of "[0, 0, 0, 0]", THEN conjunct1]
    by (simp add: base magic del: dispatch_read.simps)
  with att vm(2) show ?thesis by blast
qed

theorem run_returns_after_error_witness:
  "\<exists>s vm'. (run_step Debug flat_virtio (\<lambda>_. ''E'') flat_kvm)\<^sup>*\<^sup>* (run_start demo_out (demo_vm [])) s \<and> rs_main s = M_done \<and>
     run_finish s (demo_vm []) = (Ok (), vm') \<and> rs_errors s \<noteq> [] \<and> \<not> vm_running vm'"
proof -
  let ?R = "run_step Debug flat_virtio (\<lambda>_. ''E'') flat_kvm"
  obtain s where s: "run_schedule Debug flat_virtio (\<lambda>_. ''E'') flat_kvm demo_schedule (run_start demo_out (demo_vm [])) = Some s"
      "rs_received s < length (rs_errors s)" "rs_main s = M_recv" "map th_pc (rs_threads s) = [T_done]"
    using demo_flagged by auto
  obtain s' where s': "run_schedule Debug flat_virtio (\<lambda>_. ''E'') flat_kvm [None, None, None] s = Some s'" "rs_main s' = M_done"
      "rs_threads s' = rs_threads s"
    using demo_ends [OF s(2-4)] by blast
  have steps: "?R\<^sup>*\<^sup>* (run_start demo_out (demo_vm [])) s'"
    using run_schedule_steps [OF s(1)] run_schedule_steps [OF s'(1)] by (meson relpowp_imp_rtranclp rtranclp_trans)
  obtain r vm' where fin: "run_finish s' (demo_vm []) = (r, vm')"
    by (cases "run_finish s' (demo_vm [])")
  have "\<not> list_ex (\<lambda>t. th_pc t = T_panicked) (rs_threads s')"
    using s(4) s'(3) by auto
  with run_returns_after_error [OF _ steps s'(2) fin] steps s'(2) fin show ?thesis
    by (auto simp: demo_vm_def)
qed



end
