(* ===== verification/Hv_Main.thy ===== *)
theory Hv_Main
  imports Hv_Run
begin

text \<open>
  The command (\<open>src/main.rs\<close>): from the arguments to a machine with its devices, its memory and its
  vCPUs, the run, and the snapshot at the end.

  Parsing the arguments is the work of the crate \<open>clap\<close>; \<open>Args\<close> is its result.  \<open>main_host\<close> holds what
  the command finds on its host.  Log output is left out, except that the level decides whether the
  arguments of \<open>info!\<close> are evaluated.
\<close>

section \<open>Arguments\<close>

record Args =
  arg_kernel :: string
  arg_cpus :: u32
  arg_memory :: u64
  arg_disk :: "string option"
  arg_read_only :: bool
  arg_net :: "string option"
  arg_peer :: "string option"
  arg_share :: "string list"
  arg_save_state :: "string option"
  arg_restore_state :: "string option"
  arg_bootloader :: "string option"
  arg_log_level :: string

datatype LevelFilter = Level_Error | Level_Warn | Level_Info | Level_Debug | Level_Trace

definition log_level :: "string \<Rightarrow> LevelFilter" where
  "log_level s =
     (if s = ''error'' then Level_Error
      else if s = ''warn'' then Level_Warn
      else if s = ''debug'' then Level_Debug
      else if s = ''trace'' then Level_Trace
      else Level_Info)"

definition info_enabled :: "LevelFilter \<Rightarrow> bool" where
  "info_enabled level = (level \<noteq> Level_Error \<and> level \<noteq> Level_Warn)"

section \<open>Paths\<close>

text \<open>The components of a path: the root, a leading dot, and what the separators enclose.\<close>

fun split_on :: "'a \<Rightarrow> 'a list \<Rightarrow> 'a list list" where
  "split_on c [] = [[]]"
| "split_on c (x # xs) =
     (if x = c then [] # split_on c xs
      else case split_on c xs of [] \<Rightarrow> [[x]] | y # ys \<Rightarrow> (x # y) # ys)"

definition Path_new :: "string \<Rightarrow> path" where
  "Path_new s =
     (let cs = split_on (CHR ''/'') s in
      (if s \<noteq> [] \<and> hd s = CHR ''/'' then [''/''] else if hd cs = ''.'' then [''.''] else []) @
      filter (\<lambda>c. c \<noteq> [] \<and> c \<noteq> ''.'') cs)"

definition file_name :: "path \<Rightarrow> string option" where
  "file_name p =
     (if p = [] \<or> last p = ''/'' \<or> last p = ''.'' \<or> last p = ''..'' then None else Some (last p))"

definition share_tag :: "string \<Rightarrow> string" where
  "share_tag share = (case file_name (Path_new share) of Some n \<Rightarrow> n | None \<Rightarrow> ''shared'')"

section \<open>Preparing the machine\<close>

text \<open>The two ways to give up: an error returned from \<open>main\<close>, and \<open>exit\<close>.\<close>

datatype main_stop = Returned HypervisorError | Exited nat

record main_host =
  mh_files :: host_fs
  mh_elf :: "u8 list \<Rightarrow> elf_image option"
  mh_disks :: host_disks
  mh_random :: "nat \<Rightarrow> string + u8 list"
  mh_bind :: "string \<Rightarrow> io_error + udp_socket"
  mh_addr :: "string \<Rightarrow> string + sock_addr"
  mh_tree :: host_tree
  mh_store :: host_store
  mh_stdout :: writer

text \<open>\<open>vm.f()?\<close>, and \<open>if let Err(e) = vm.f() { exit(1) }\<close>.\<close>

definition or_return :: "('s \<Rightarrow> 'a Result \<times> 's) \<Rightarrow> 't \<times> 's \<Rightarrow> (main_stop, 'a) outcome \<times> 't \<times> 's" where
  "or_return f x = (case x of (t, vm) \<Rightarrow> (case f vm of (r, vm) \<Rightarrow> (map_err Returned r, t, vm)))"

definition or_exit :: "('s \<Rightarrow> 'a Result \<times> 's) \<Rightarrow> 't \<times> 's \<Rightarrow> (main_stop, 'a) outcome \<times> 't \<times> 's" where
  "or_exit f x = (case x of (t, vm) \<Rightarrow> (case f vm of (r, vm) \<Rightarrow> (map_err (\<lambda>_. Exited 1) r, t, vm)))"

fun attach_shares ::
  "profile \<Rightarrow> ('m, 'q, 'c, 'e, 'z) virtio_ops_scheme \<Rightarrow> string list \<Rightarrow> host_tree \<times> ('k, 'v, 'f, 'm, 'q, 'e) VirtualMachine \<Rightarrow>
   (main_stop, unit) outcome \<times> host_tree \<times> ('k, 'v, 'f, 'm, 'q, 'e) VirtualMachine" where
  "attach_shares p V [] s = (Ok (), s)"
| "attach_shares p V (share # rest) s =
     (case s of (t, vm) \<Rightarrow>
      (case add_virtio_fs p V t (share_tag share) (Path_new share) False vm of
         (r, t, vm) \<Rightarrow> and_then (map_err Returned r, t, vm) (\<lambda>_ s. attach_shares p V rest s)))"

definition main_attach ::
  "profile \<Rightarrow> ('m, 'q, 'c, 'e, 'z) virtio_ops_scheme \<Rightarrow> main_host \<Rightarrow> Args \<Rightarrow> host_tree \<times> ('k, 'v, 'f, 'm, 'q, 'e) VirtualMachine \<Rightarrow>
   (main_stop, unit) outcome \<times> host_tree \<times> ('k, 'v, 'f, 'm, 'q, 'e) VirtualMachine" where
  "main_attach p V H args s =
     and_then (or_return (add_virtio_console p V (mh_stdout H)) s) (\<lambda>_ s.
     and_then (case arg_disk args of
                 None \<Rightarrow> (Ok (), s)
               | Some disk_path \<Rightarrow> or_return (add_virtio_block p V (mh_disks H) disk_path (arg_read_only args)) s) (\<lambda>_ s.
     and_then (case arg_net args of
                 None \<Rightarrow> (Ok (), s)
               | Some net_addr \<Rightarrow>
                   (case arg_peer args of
                      None \<Rightarrow> (Err (Exited 1), s)
                    | Some peer \<Rightarrow> or_return (add_virtio_net p V (mh_random H) (mh_bind H) (mh_addr H) net_addr peer) s)) (\<lambda>_ s.
     attach_shares p V (arg_share args) s)))"

definition main_load ::
  "profile \<Rightarrow> ('m, 'z) gmem_ops_scheme \<Rightarrow> (kvm_errno \<Rightarrow> string) \<Rightarrow> ('k, 'v, 'f, 'x) kvm_ops \<Rightarrow> kvm_layout \<Rightarrow> 'd bincode_ops \<Rightarrow>
   main_host \<Rightarrow> Args \<Rightarrow> host_tree \<times> ('k, 'v, 'f, 'm, 'q, 'e) VirtualMachine \<Rightarrow>
   (main_stop, unit) outcome \<times> host_tree \<times> ('k, 'v, 'f, 'm, 'q, 'e) VirtualMachine" where
  "main_load p G errno_text K L B H args s =
     and_then (case arg_restore_state args of
                 None \<Rightarrow> (Ok (), s)
               | Some path \<Rightarrow> or_return (restore_state p G errno_text K L B (mh_store H) path) s) (\<lambda>_ s.
     and_then (or_exit (vm_load_kernel p (info_enabled (log_level (arg_log_level args))) G K (mh_elf H) (mh_files H) (arg_kernel args)) s) (\<lambda>_ s.
     case arg_bootloader args of
       None \<Rightarrow> (Ok (), s)
     | Some path \<Rightarrow> or_exit (vm_load_bootloader G K (mh_files H) path) s))"

definition main_setup ::
  "profile \<Rightarrow> ('m, 'q, 'c, 'e, 'z) virtio_ops_scheme \<Rightarrow> (kvm_errno \<Rightarrow> string) \<Rightarrow> ('k, 'v, 'f, 'x) kvm_ops \<Rightarrow> kvm_layout \<Rightarrow> 'd bincode_ops \<Rightarrow>
   main_host \<Rightarrow> Args \<Rightarrow> 'k \<Rightarrow> (main_stop, ('k, 'v, 'f, 'm, 'q, 'e) VirtualMachine) outcome \<times> host_tree" where
  "main_setup p V errno_text K L B H args k =
     (case VirtualMachine_new V errno_text K (arg_cpus args) k of
        (Err e, k) \<Rightarrow> (Err (Exited 1), mh_tree H)
      | (Panic, k) \<Rightarrow> (Panic, mh_tree H)
      | (Ok vm, k) \<Rightarrow>
          (case and_then (main_attach p V H args (mh_tree H, vm)) (\<lambda>_ s. main_load p V errno_text K L B H args s) of
             (Ok _, t, vm) \<Rightarrow> (Ok vm, t)
           | (Err e, t, vm) \<Rightarrow> (Err e, t)
           | (Panic, t, vm) \<Rightarrow> (Panic, t)))"

section \<open>The end of the command\<close>

definition main_save ::
  "('m, 'z) gmem_ops_scheme \<Rightarrow> (kvm_errno \<Rightarrow> string) \<Rightarrow> ('k, 'v, 'f, 'x) kvm_ops \<Rightarrow> kvm_layout \<Rightarrow> 'd bincode_ops \<Rightarrow> Args \<Rightarrow>
   ('k, 'v, 'f, 'm, 'q, 'e) VirtualMachine \<Rightarrow> host_store \<Rightarrow> (main_stop, unit) outcome \<times> host_store" where
  "main_save G errno_text K L B args vm st =
     (case arg_save_state args of
        None \<Rightarrow> (Ok (), st)
      | Some path \<Rightarrow> (case save_state G errno_text K L B vm path st of (r, st) \<Rightarrow> (map_err Returned r, st)))"

text \<open>What \<open>main\<close> can end with, and the snapshots that it can leave behind.  An error of the run is only
  logged; a panic ends the command.\<close>

definition main_ends ::
  "profile \<Rightarrow> ('m, 'q, 'c, 'e, 'z) virtio_ops_scheme \<Rightarrow> (kvm_errno \<Rightarrow> string) \<Rightarrow> ('k, 'v, 'f, 'x) kvm_ops \<Rightarrow> kvm_layout \<Rightarrow> 'd bincode_ops \<Rightarrow>
   main_host \<Rightarrow> Args \<Rightarrow> 'k \<Rightarrow> (main_stop, unit) outcome \<Rightarrow> host_store \<Rightarrow> bool" where
  "main_ends p V errno_text K L B H args k r st \<longleftrightarrow>
     (case fst (main_setup p V errno_text K L B H args k) of
        Err e \<Rightarrow> r = Err e \<and> st = mh_store H
      | Panic \<Rightarrow> r = Panic \<and> st = mh_store H
      | Ok vm \<Rightarrow>
          (\<exists>rr vm' :: ('k, 'v, 'f, 'm, 'q, 'e) VirtualMachine. vm_runs p V errno_text K (mh_stdout H) vm rr vm' \<and>
             (if rr = Panic then r = Panic \<and> st = mh_store H
              else main_save V errno_text K L B args vm' (mh_store H) = (r, st))))"

section \<open>Helper lemmas\<close>

lemma or_return_Ok [simp]: "or_return f (t, vm) = (Ok a, s) \<longleftrightarrow> f vm = (Ok a, snd s) \<and> fst s = t"
  by (cases s; cases "f vm"; cases "fst (f vm)") (auto simp: or_return_def map_err_def)

lemma or_exit_Ok [simp]: "or_exit f (t, vm) = (Ok a, s) \<longleftrightarrow> f vm = (Ok a, snd s) \<and> fst s = t"
  by (cases s; cases "f vm"; cases "fst (f vm)") (auto simp: or_exit_def map_err_def)

text \<open>A device attached.\<close>

definition with_device ::
  "('q, 'e) Device \<Rightarrow> ('k, 'v, 'f, 'm, 'q, 'e) VirtualMachine \<Rightarrow> ('k, 'v, 'f, 'm, 'q, 'e) VirtualMachine" where
  "with_device d vm =
     vm\<lparr>vm_next_irq := vm_next_irq vm + 1,
        vm_devices := (vm_devices vm)\<lparr>mx_data := mx_data (vm_devices vm) @ [VirtioMmioDevice_new d (device_base d)]\<rparr>\<rparr>"

lemma push_device_Ok:
  "push_device d (device_base d) (vm\<lparr>vm_next_irq := vm_next_irq vm + 1\<rparr>) = (Ok (), vm') \<Longrightarrow> vm' = with_device d vm"
  by (auto simp: push_device_def with_device_def split: if_splits)

lemma allocate_irq_Ok:
  "allocate_irq p vm = (Ok irq, vm') \<Longrightarrow> irq = vm_next_irq vm \<and> vm' = vm\<lparr>vm_next_irq := vm_next_irq vm + 1\<rparr>"
  using allocate_irq_cases [of p vm] by auto

lemma add_virtio_console_Ok:
  "add_virtio_console p V out vm = (Ok (), vm') \<Longrightarrow> \<exists>d. device_irq d = Some (vm_next_irq vm) \<and> device_base d = 0x1000 \<and> vm' = with_device d vm"
  using push_device_Ok [of "ConsoleDev _" vm vm'] VirtioConsole_new_irq [of V]
  by (fastforce simp: add_virtio_console_def elim!: and_then_OkE dest!: allocate_irq_Ok intro: exI [of _ "ConsoleDev _"])

lemma add_virtio_block_Ok:
  "add_virtio_block p V disks path ro vm = (Ok (), vm') \<Longrightarrow>
   \<exists>d. device_irq d = Some (vm_next_irq vm) \<and> device_base d = 0x2000 \<and> vm' = with_device d vm"
  using push_device_Ok [of "BlockDev _" vm vm'] VirtioBlock_new_irq [of V]
  by (fastforce simp: add_virtio_block_def elim!: and_then_OkE dest!: allocate_irq_Ok intro: exI [of _ "BlockDev _"])

lemma add_virtio_net_Ok:
  "add_virtio_net p V rnd bnd parse local peer vm = (Ok (), vm') \<Longrightarrow>
   \<exists>d. device_irq d = Some (vm_next_irq vm) \<and> device_base d = 0x3000 \<and> vm' = with_device d vm"
  using push_device_Ok [of "NetDev _" vm vm'] VirtioNet_new_irq [of V]
  by (fastforce simp: add_virtio_net_def elim!: and_then_OkE dest!: allocate_irq_Ok intro: exI [of _ "NetDev _"] split: sum.splits)

lemma add_virtio_fs_Ok:
  "add_virtio_fs p V t tag dir ro vm = (Ok (), t', vm') \<Longrightarrow>
   \<exists>d. device_irq d = None \<and> device_base d = 0x4000 \<and> vm' = with_device d vm"
  using push_device_Ok [of "FsDev _" vm vm']
  by (fastforce simp: add_virtio_fs_def dest!: allocate_irq_Ok intro: exI [of _ "FsDev _"] split: outcome.splits prod.splits sum.splits)

text \<open>The base address and the interrupt number of every device.\<close>

definition machine_table :: "('k, 'v, 'f, 'm, 'q, 'e) VirtualMachine \<Rightarrow> (u64 \<times> u32 option) list" where
  "machine_table vm = map (\<lambda>w. (mmio_base_addr w, device_irq (mx_data (mmio_device w)))) (mx_data (vm_devices vm))"

definition same_core :: "('k, 'v, 'f, 'm, 'q, 'e) VirtualMachine \<Rightarrow> ('k, 'v, 'f, 'm, 'q, 'e) VirtualMachine \<Rightarrow> bool" where
  "same_core vm vm' \<longleftrightarrow> vm_memory vm' = vm_memory vm \<and> vm_vcpus vm' = vm_vcpus vm \<and> vm_fd vm' = vm_fd vm \<and> vm_num_cpus vm' = vm_num_cpus vm"

lemma same_core_refl [simp]: "same_core vm vm"
  by (simp add: same_core_def)

lemma with_device_simps [simp]:
  "machine_table (with_device d vm) = machine_table vm @ [(device_base d, device_irq d)]"
  "vm_next_irq (with_device d vm) = vm_next_irq vm + 1"
  "same_core vm' (with_device d vm) = same_core vm' vm"
  by (auto simp: machine_table_def with_device_def VirtioMmioDevice_new_def same_core_def)

lemma attach_shares_Ok:
  "attach_shares p V shares (t, vm) = (Ok (), t', vm') \<Longrightarrow>
   machine_table vm' = machine_table vm @ replicate (length shares) (0x4000, None) \<and> same_core vm vm'"
proof (induction shares arbitrary: t vm)
  case Nil
  then show ?case by (simp add: same_core_def)
next
  case (Cons share shares)
  obtain t1 vm1 where "add_virtio_fs p V t (share_tag share) (Path_new share) False vm = (Ok (), t1, vm1)"
    and rest: "attach_shares p V shares (t1, vm1) = (Ok (), t', vm')"
    using Cons.prems by (auto elim!: and_then_OkE split: prod.splits)
  then obtain d where "device_irq d = None" "device_base d = 0x4000" "vm1 = with_device d vm"
    using add_virtio_fs_Ok by blast
  with Cons.IH [OF rest] show ?case
    by (simp add: same_core_def with_device_def machine_table_def VirtioMmioDevice_new_def)
qed

lemma main_attach_Ok:
  assumes "main_attach p V H args (t, vm) = (Ok (), t', vm')" and "vm_devices vm = mutex_new []" and "vm_next_irq vm = 5"
  shows "machine_table vm' = [(0x1000, Some 5)] @ (if arg_disk args = None then [] else [(0x2000, Some 6)]) @
      (if arg_net args = None then [] else [(0x3000, Some (if arg_disk args = None then 6 else 7))]) @
      replicate (length (arg_share args)) (0x4000, None) \<and> same_core vm vm'"
proof -
  have empty: "machine_table vm = []"
    by (simp add: machine_table_def assms(2))
  obtain vm1 where c: "add_virtio_console p V (mh_stdout H) vm = (Ok (), vm1)"
    and r1: "and_then (case arg_disk args of None \<Rightarrow> (Ok (), t, vm1)
        | Some path \<Rightarrow> or_return (add_virtio_block p V (mh_disks H) path (arg_read_only args)) (t, vm1)) (\<lambda>_ s.
      and_then (case arg_net args of None \<Rightarrow> (Ok (), s)
        | Some net_addr \<Rightarrow> (case arg_peer args of None \<Rightarrow> (Err (Exited 1), s)
            | Some peer \<Rightarrow> or_return (add_virtio_net p V (mh_random H) (mh_bind H) (mh_addr H) net_addr peer) s)) (\<lambda>_ s.
      attach_shares p V (arg_share args) s)) = (Ok (), t', vm')"
    using assms(1) unfolding main_attach_def by (auto elim!: and_then_OkE)
  have i1: "vm_next_irq vm1 = 6" and t1: "machine_table vm1 = [(0x1000, Some 5)]" and s1: "same_core vm vm1"
    using add_virtio_console_Ok [OF c] assms(3) empty by auto
  obtain vm2 where b: "(case arg_disk args of None \<Rightarrow> (Ok (), t, vm1)
        | Some path \<Rightarrow> or_return (add_virtio_block p V (mh_disks H) path (arg_read_only args)) (t, vm1)) = (Ok (), t, vm2)"
    and r2: "and_then (case arg_net args of None \<Rightarrow> (Ok (), t, vm2)
        | Some net_addr \<Rightarrow> (case arg_peer args of None \<Rightarrow> (Err (Exited 1), t, vm2)
            | Some peer \<Rightarrow> or_return (add_virtio_net p V (mh_random H) (mh_bind H) (mh_addr H) net_addr peer) (t, vm2))) (\<lambda>_ s.
      attach_shares p V (arg_share args) s) = (Ok (), t', vm')"
    using r1 by (auto elim!: and_then_OkE split: option.splits)
  have t2: "machine_table vm2 = [(0x1000, Some 5)] @ (if arg_disk args = None then [] else [(0x2000, Some 6)])"
    and i2: "vm_next_irq vm2 = (if arg_disk args = None then 6 else 7)" and s2: "same_core vm vm2"
    using b i1 t1 s1 by (auto split: option.splits dest!: add_virtio_block_Ok)
  obtain vm3 where n: "(case arg_net args of None \<Rightarrow> (Ok (), t, vm2)
        | Some net_addr \<Rightarrow> (case arg_peer args of None \<Rightarrow> (Err (Exited 1), t, vm2)
            | Some peer \<Rightarrow> or_return (add_virtio_net p V (mh_random H) (mh_bind H) (mh_addr H) net_addr peer) (t, vm2))) = (Ok (), t, vm3)"
    and r3: "attach_shares p V (arg_share args) (t, vm3) = (Ok (), t', vm')"
    using r2 by (auto elim!: and_then_OkE split: option.splits)
  have "machine_table vm3 = machine_table vm2 @ (if arg_net args = None then [] else [(0x3000, Some (vm_next_irq vm2))])"
    and "same_core vm vm3"
    using n s2 by (auto split: option.splits dest!: add_virtio_net_Ok)
  with t2 i2 attach_shares_Ok [OF r3] show ?thesis
    by (auto simp: same_core_def)
qed

lemma for_vcpus_Ok:
  "for_vcpus f vs = (Ok (), vs') \<Longrightarrow>
   map vcpu_id vs' = map vcpu_id vs \<and> list_all (\<lambda>v'. \<exists>v \<in> set vs. f (vcpu_fd v) = (Ok (), vcpu_fd v')) vs'"
proof (induction vs arbitrary: vs')
  case (Cons v vs)
  then obtain fd ws where "f (vcpu_fd v) = (Ok (), fd)" "for_vcpus f vs = (Ok (), ws)" "vs' = v\<lparr>vcpu_fd := fd\<rparr> # ws"
    by (auto simp: Let_def split: prod.splits outcome.splits)
  with Cons.IH show ?case
    by (fastforce simp: list_all_iff)
qed simp

lemma vm_load_kernel_parts:
  assumes "vm_load_kernel p info G K parse fs path vm = (Ok (), vm')"
  obtains kl m vcpus where "load_kernel p info G parse fs path vm_cmdline KernelLoader_new (memory (vm_memory vm)) = (Ok (), kl, m)"
    and "for_vcpus (\<lambda>fd. Vcpu_init K fd (get_entry_point kl) 0x7000) (vm_vcpus vm) = (Ok (), vcpus)"
    and "memory (vm_memory vm') = m" and "vm_vcpus vm' = vcpus" and "vm_devices vm' = vm_devices vm"
  using assms
  by (auto simp: vm_load_kernel_def set_vm_memory_def elim!: and_then_OkE split: prod.splits)

lemma main_load_table:
  assumes "main_load p G t K L B H args (tr, vm) = (Ok (), tr', vm')"
  shows "machine_table vm' = machine_table vm"
proof -
  have boot: "vm_devices v' = vm_devices v" if "vm_load_bootloader G K fs path v = (Ok (), v')" for path fs v v'
    using that by (auto simp: vm_load_bootloader_def set_vm_memory_def elim!: and_then_OkE split: prod.splits)
  have rest: "vm_devices v' = vm_devices v" if "restore_state p G t K L B st path v = (Ok (), v')" for st path v v'
    using that by (auto simp: restore_state_def set_vm_memory_def split: prod.splits)
  have kern: "vm_devices v' = vm_devices v" if "vm_load_kernel p info G K parse fs path v = (Ok (), v')" for info parse fs path v v'
    using vm_load_kernel_parts [OF that] .
  have "vm_devices vm' = vm_devices vm"
    using assms by (auto simp: main_load_def elim!: and_then_OkE split: option.splits dest!: boot rest kern)
  then show ?thesis
    by (simp add: machine_table_def)
qed

lemma main_setup_Ok:
  assumes "main_setup p V t K L B H args k = (Ok vm, tr)"
  obtains k' vm0 tr1 vm1 where "VirtualMachine_new V t K (arg_cpus args) k = (Ok vm0, k')"
    and "main_attach p V H args (mh_tree H, vm0) = (Ok (), tr1, vm1)"
    and "main_load p V t K L B H args (tr1, vm1) = (Ok (), tr, vm)"
  using assms
  by (auto simp: main_setup_def elim!: and_then_OkE split: prod.splits outcome.splits)

end
