(* ===== verification/Hv_Supervisor.thy ===== *)
theory Hv_Supervisor
  imports Hv_Run
begin

text \<open>
  What \<open>VirtualMachine::run\<close> promises as a supervisor of the vCPU threads, as an abstract machine, and
  the proof that the steps of \<open>Hv_Run\<close> refine it.

  The abstract machine knows the phase of the run, how many threads are alive and how many have
  panicked, and whether an error has been reported.  It does not know the points of the threads, the
  flags, the channel, the devices or the memory.
\<close>

section \<open>Specification\<close>

datatype phase = Running | Stopping | Stopped

record supervisor =
  sv_phase :: phase
  sv_live :: nat
  sv_panicked :: nat
  sv_failed :: bool

inductive supervise :: "supervisor \<Rightarrow> supervisor \<Rightarrow> bool" where
  report: "0 < sv_live c \<Longrightarrow> supervise c (c\<lparr>sv_failed := True\<rparr>)"
| leave: "sv_live c = Suc n \<Longrightarrow> sv_failed c \<Longrightarrow> supervise c (c\<lparr>sv_live := n\<rparr>)"
| panic: "sv_live c = Suc n \<Longrightarrow> supervise c (c\<lparr>sv_live := n, sv_panicked := Suc (sv_panicked c)\<rparr>)"
| stop: "sv_phase c = Running \<Longrightarrow> sv_failed c \<Longrightarrow> supervise c (c\<lparr>sv_phase := Stopping\<rparr>)"
| finish: "sv_phase c = Stopping \<Longrightarrow> sv_live c = 0 \<Longrightarrow> supervise c (c\<lparr>sv_phase := Stopped\<rparr>)"

text \<open>The contract: a run that has stopped has reported an error and has no live thread, and no thread
  is lost.\<close>

definition sv_ok :: "nat \<Rightarrow> supervisor \<Rightarrow> bool" where
  "sv_ok n c \<longleftrightarrow>
     sv_live c + sv_panicked c \<le> n \<and> (sv_phase c \<noteq> Running \<longrightarrow> sv_failed c) \<and> (sv_phase c = Stopped \<longrightarrow> sv_live c = 0) \<and>
     (\<not> sv_failed c \<longrightarrow> sv_live c + sv_panicked c = n)"

lemma supervise_ok: "supervise c c' \<Longrightarrow> sv_ok n c \<Longrightarrow> sv_ok n c'"
  by (induction rule: supervise.induct) (auto simp: sv_ok_def)

lemma supervises_ok: "supervise\<^sup>*\<^sup>* c c' \<Longrightarrow> sv_ok n c \<Longrightarrow> sv_ok n c'"
  by (induction rule: rtranclp_induct) (auto intro: supervise_ok)

section \<open>Abstraction\<close>

definition live_threads :: "'f vcpu_thread list \<Rightarrow> nat" where
  "live_threads ts = length (filter (\<lambda>t. \<not> thread_ended t) ts)"

definition panicked_threads :: "'f vcpu_thread list \<Rightarrow> nat" where
  "panicked_threads ts = length (filter (\<lambda>t. th_pc t = T_panicked) ts)"

definition abs_run :: "('f, 'm, 'q, 'e) run_state \<Rightarrow> supervisor" where
  "abs_run s =
     \<lparr>sv_phase = (if rs_main s = M_done then Stopped else if rs_running s then Running else Stopping),
      sv_live = live_threads (rs_threads s), sv_panicked = panicked_threads (rs_threads s), sv_failed = (rs_errors s \<noteq> [])\<rparr>"

lemma count_update:
  "i < length xs \<Longrightarrow>
   length (filter P (xs[i := x])) + (if P (xs ! i) then 1 else 0) = length (filter P xs) + (if P x then 1 else 0)"
proof (induction xs arbitrary: i)
  case (Cons y ys)
  then show ?case by (cases i) auto
qed simp

lemma live_update:
  assumes "i < length ts" and "\<not> thread_ended (ts ! i)"
  shows "live_threads ts = live_threads (ts[i := t']) + (if thread_ended t' then 1 else 0)"
  using count_update [OF assms(1), of "\<lambda>t. \<not> thread_ended t" t'] assms(2) by (auto simp: live_threads_def)

lemma panicked_update:
  assumes "i < length ts" and "\<not> thread_ended (ts ! i)"
  shows "panicked_threads (ts[i := t']) = panicked_threads ts + (if th_pc t' = T_panicked then 1 else 0)"
  using count_update [OF assms(1), of "\<lambda>t. th_pc t = T_panicked" t'] assms(2)
  by (auto simp: panicked_threads_def thread_ended_def split: if_splits)

lemma live_0: "live_threads ts = 0 \<longleftrightarrow> list_all thread_ended ts"
  by (auto simp: live_threads_def filter_empty_conv list_all_iff)

section \<open>Refinement\<close>

text \<open>A thread ends in good order only when an error has been reported.\<close>

lemma thread_done_failed:
  assumes "run_inv s" and "thread_effect i s t' s'" and "th_pc t' = T_done"
  shows "rs_errors s \<noteq> [] \<and> rs_errors s' = rs_errors s"
proof -
  let ?t = "rs_threads s ! i"
  note e = assms(2) [unfolded thread_effect_def Let_def]
  have inbox: "th_inbox ?t = []"
    using e assms(1) by (auto simp: run_inv_def list_all_length)
  have flag: "list_ex (\<lambda>t. th_pc t = T_set_flag \<or> th_pc t = T_done) (rs_threads s)" if "th_pc ?t = T_set_flag"
    using that e by (intro list_ex_nth) auto
  show ?thesis
    using e assms(1,3) inbox flag by (cases "th_pc ?t") (auto simp: run_inv_def split: if_splits)
qed

lemma thread_effect_refines:
  assumes "run_inv s" and "thread_effect i s t' s'"
  shows "abs_run s' = abs_run s \<or> supervise (abs_run s) (abs_run s')"
proof -
  note e = assms(2) [unfolded thread_effect_def Let_def]
  have i: "i < length (rs_threads s)" and live: "\<not> thread_ended (rs_threads s ! i)"
    using e by (auto simp: thread_ended_def elim: thread_move.elims)
  note upd = live_update [OF i live, of t'] panicked_update [OF i live, of t']
  have pos: "0 < live_threads (rs_threads s)"
    using live i by (auto simp: live_0 list_all_length simp flip: neq0_conv)
  consider "th_pc t' = T_done" | "th_pc t' = T_panicked" | "\<not> thread_ended t'"
    by (auto simp: thread_ended_def)
  then show ?thesis
  proof cases
    case 1
    have "abs_run s' = (abs_run s)\<lparr>sv_live := live_threads (rs_threads s')\<rparr>"
      using e upd thread_done_failed [OF assms 1] 1 by (simp add: abs_run_def)
    moreover have "sv_live (abs_run s) = Suc (live_threads (rs_threads s'))" "sv_failed (abs_run s)"
      using e upd thread_done_failed [OF assms 1] 1 by (simp_all add: abs_run_def thread_ended_def)
    ultimately show ?thesis
      using supervise.leave by simp
  next
    case 2
    have "rs_errors s' = rs_errors s"
      using e 2 by (cases "th_pc (rs_threads s ! i)") auto
    then have "abs_run s' = (abs_run s)\<lparr>sv_live := live_threads (rs_threads s'), sv_panicked := Suc (sv_panicked (abs_run s))\<rparr>"
      using e upd 2 by (simp add: abs_run_def)
    moreover have "sv_live (abs_run s) = Suc (live_threads (rs_threads s'))"
      using e upd 2 by (simp add: abs_run_def thread_ended_def)
    ultimately show ?thesis
      using supervise.panic by simp
  next
    case 3
    then have "abs_run s' = (abs_run s)\<lparr>sv_failed := (rs_errors s' \<noteq> [])\<rparr>"
      using e upd by (simp add: abs_run_def thread_ended_def)
    moreover have "rs_errors s' = rs_errors s \<or> rs_errors s' \<noteq> []"
      using e by (auto split: thread_pc.splits)
    moreover have "0 < sv_live (abs_run s)" "(abs_run s)\<lparr>sv_failed := (rs_errors s \<noteq> [])\<rparr> = abs_run s"
      using pos by (simp_all add: abs_run_def)
    ultimately show ?thesis
      using supervise.report [of "abs_run s"] by auto
  qed
qed

lemma main_step_refines:
  assumes "run_inv s" and "main_step s = Some s'"
  shows "abs_run s' = abs_run s \<or> supervise (abs_run s) (abs_run s')"
proof (cases "rs_main s")
  case M_clear
  then have "abs_run s' = (abs_run s)\<lparr>sv_phase := Stopping\<rparr>" "sv_failed (abs_run s)"
    using assms by (auto simp: main_step_def abs_run_def run_inv_def)
  moreover have "sv_phase (abs_run s) = Running \<or> abs_run s' = abs_run s"
    using assms M_clear by (auto simp: main_step_def abs_run_def)
  ultimately show ?thesis
    using supervise.stop by metis
next
  case M_join
  then have "abs_run s' = (abs_run s)\<lparr>sv_phase := Stopped\<rparr>" "sv_phase (abs_run s) = Stopping" "sv_live (abs_run s) = 0"
    using assms by (auto simp: main_step_def abs_run_def run_inv_def live_0 split: if_splits)
  then show ?thesis
    using supervise.finish by metis
qed (use assms in \<open>auto simp: main_step_def abs_run_def split: if_splits\<close>)

lemma run_step_refines:
  assumes "run_step p V t K s s'" and "run_inv s"
  shows "abs_run s' = abs_run s \<or> supervise (abs_run s) (abs_run s')"
  using assms(1)
proof cases
  case (vcpu i)
  then obtain t' where "thread_effect i s t' s'"
    using thread_step_effect by blast
  then show ?thesis
    by (rule thread_effect_refines [OF assms(2)])
next
  case monitor
  then show ?thesis
    by (rule main_step_refines [OF assms(2)])
qed

lemma run_steps_refine:
  assumes "(run_step p V t K)\<^sup>*\<^sup>* s s'" and "run_inv s"
  shows "supervise\<^sup>*\<^sup>* (abs_run s) (abs_run s')"
  using assms(1)
proof (induction rule: rtranclp_induct)
  case (step u u')
  have "run_inv u"
    using run_steps_inv [OF step(1) assms(2)] .
  with run_step_refines [OF step(2)] have "abs_run u' = abs_run u \<or> supervise (abs_run u) (abs_run u')" .
  then show ?case
    using step(3) by (auto intro: rtranclp.rtrancl_into_rtrancl)
qed simp

section \<open>Property\<close>

text \<open>
  C2. A run refines the supervisor: whatever the scheduler, the devices and the guest do, every state
  that the threads and the monitor reach is a state that the abstract machine reaches from the start
  with all threads alive.  In particular a run that has come to its end has reported an error and has
  no live thread, and as long as no error has been reported every thread is alive or has panicked.
\<close>

theorem run_refines_supervisor:
  assumes "length (vm_vcpus vm) = unat (vm_num_cpus vm)" and "(run_step p V t K)\<^sup>*\<^sup>* (run_start out vm) s"
  shows "supervise\<^sup>*\<^sup>* \<lparr>sv_phase = Running, sv_live = unat (vm_num_cpus vm), sv_panicked = 0, sv_failed = False\<rparr> (abs_run s) \<and>
    sv_ok (unat (vm_num_cpus vm)) (abs_run s)"
proof -
  have np: "\<not> spawn_panics vm"
    using assms(1) by (simp add: spawn_panics_def)
  have start: "abs_run (run_start out vm) = \<lparr>sv_phase = Running, sv_live = unat (vm_num_cpus vm), sv_panicked = 0, sv_failed = False\<rparr>"
    using assms(1) by (simp add: abs_run_def run_start_def spawn_panics_def live_threads_def panicked_threads_def thread_ended_def
        filter_map comp_def)
  have sim: "supervise\<^sup>*\<^sup>* (abs_run (run_start out vm)) (abs_run s)"
    using run_steps_refine [OF assms(2) run_start_inv [OF np]] .
  moreover have "sv_ok (unat (vm_num_cpus vm)) (abs_run (run_start out vm))"
    by (simp add: start sv_ok_def)
  ultimately show ?thesis
    using supervises_ok [OF sim] start by simp
qed

theorem run_refines_supervisor_witness:
  "\<exists>s. (run_step Debug flat_virtio (\<lambda>_. ''E'') flat_kvm)\<^sup>*\<^sup>* (run_start demo_out (demo_vm [])) s \<and>
     abs_run s = \<lparr>sv_phase = Running, sv_live = 0, sv_panicked = 0, sv_failed = True\<rparr> \<and> sv_ok 1 (abs_run s)"
proof -
  obtain s where s: "run_schedule Debug flat_virtio (\<lambda>_. ''E'') flat_kvm demo_schedule (run_start demo_out (demo_vm [])) = Some s"
      "rs_running s" "length (rs_errors s) = 1" "rs_main s = M_recv" "map th_pc (rs_threads s) = [T_done]"
    using demo_flagged by auto
  have steps: "(run_step Debug flat_virtio (\<lambda>_. ''E'') flat_kvm)\<^sup>*\<^sup>* (run_start demo_out (demo_vm [])) s"
    using run_schedule_steps [OF s(1)] by (rule relpowp_imp_rtranclp)
  have "abs_run s = \<lparr>sv_phase = Running, sv_live = 0, sv_panicked = 0, sv_failed = True\<rparr>"
    using s(2-5) by (auto simp: abs_run_def live_threads_def panicked_threads_def thread_ended_def)
  with run_refines_supervisor [OF _ steps] steps show ?thesis
    by (auto simp: demo_vm_def)
qed

end
