(* ===== verification/Spec2Isabelle.thy ===== *)
theory Spec2Isabelle
  imports Hv_Main Hv_Supervisor
begin

text \<open>
  A verification library for MO-VM, a hypervisor on KVM written in Rust
  (\<open>src/rust-hypervisor/src\<close>; file names below are relative to it).

  \<^bold>\<open>The program.\<close>  \<open>main.rs\<close> makes a machine (\<open>vm.rs\<close>): guest memory in KVM slots (\<open>memory.rs\<close>), vCPUs
  (\<open>vcpu.rs\<close>), virtio devices (\<open>virtio/block.rs\<close>, \<open>console.rs\<close>, \<open>net.rs\<close>, \<open>fs.rs\<close>) behind register
  windows (\<open>virtio/mmio.rs\<close>, \<open>virtio/mod.rs\<close>).  It loads a kernel (\<open>kernel_loader.rs\<close>) or a boot sector
  (\<open>bootloader.rs\<close>), runs one thread for each vCPU, and can save and restore the state (\<open>snapshot.rs\<close>).
  All parts report errors with the type of \<open>error.rs\<close>.

  \<^bold>\<open>The foundation.\<close>
  \<^item> \<open>Hv_Prelude\<close>: the result type \<open>outcome\<close> with \<open>Ok\<close>, \<open>Err\<close> and \<open>Panic\<close>, and \<open>and_then\<close>, which is \<open>?\<close>
    with the state threaded through; overflow in the two build profiles; slices, little-endian bytes,
    memory as a partial map from addresses to bytes.
  \<^item> \<open>Hv_Error\<close>: \<open>HypervisorError\<close>, its texts and conversions.
  \<^item> \<open>Hv_Platform\<close>, \<open>Hv_Kvm\<close>, \<open>Hv_Virtqueue\<close>, \<open>Hv_Serde\<close>: the crates \<open>vm-memory\<close>, \<open>kvm-ioctls\<close>,
    \<open>virtio-queue\<close> with \<open>vmm-sys-util\<close>, and \<open>serde\<close>.  They are not part of the repository: their
    operations are records of functions, arguments of the definitions that use them, and their
    documented behaviour is a locale (\<open>guest_memory\<close>, \<open>guest_regions\<close>, \<open>kvm_vcpu\<close>, \<open>kvm_vm\<close>, \<open>virtqueue\<close>,
    \<open>serde_format\<close>, \<open>self_describing\<close>, \<open>positional\<close>).  Each locale is interpreted on an executable
    reference platform (\<open>flat_ops\<close>, \<open>flat_kvm\<close>, \<open>flat_virtio\<close> with a split ring in flat memory, \<open>json_de\<close>,
    \<open>sval_de\<close>), on which the examples run.  \<open>Hv_Virtqueue\<close> also has the two loops over queues and chains.
  \<^item> \<open>Hv_Host\<close>: what the program uses of the standard library: writers, files, sockets, locks with
    their poison flag.  A script of faults decides which system calls fail.

  \<^bold>\<open>The components.\<close>
  \<^item> \<open>Hv_Memory\<close>: \<open>GuestMemoryRegions\<close>.  The regions add up, do not overlap and avoid the PCI gap; after
    registration each guest address is translated to its place in the mapping.
  \<^item> \<open>Hv_Vcpu\<close>: \<open>Vcpu::init\<close>, \<open>setup_msrs\<close> and \<open>run\<close>.  The mode in which a vCPU starts; the serial port.
  \<^item> \<open>Hv_Bootloader\<close>, \<open>Hv_Kernel_Loader\<close>: boot sector, interrupt vectors and real mode; segments, page
    tables (against a specification of four-level translation), command line, boot parameters.
  \<^item> \<open>Hv_Virtio\<close>, \<open>Hv_Mmio\<close>: the trait \<open>VirtioDevice\<close> as a record of operations, with the locale
    \<open>virtio_device\<close> that every device interprets; the register window, whose registers are stable
    because the devices keep the laws of the locale.
  \<^item> \<open>Hv_Console\<close>, \<open>Hv_Block\<close>, \<open>Hv_Net\<close>, \<open>Hv_Acl\<close>, \<open>Hv_Fs\<close>: the devices.  What they do to host and
    guest for every content of the queues; termination for drivers that follow the specification.
  \<^item> \<open>Hv_Vm_State\<close>, \<open>Hv_Snapshot\<close>: \<open>VmState\<close> with its hand-written (de)serialisation, and
    \<open>SnapshotManager\<close>.  Round trips for self-describing formats, restoring what was saved, bounds on
    what a hostile file can change, and failure on formats like \<open>bincode\<close>.
  \<^item> \<open>Hv_Vm\<close>: \<open>VirtualMachine\<close> except \<open>run\<close>.  The state of a new machine; interrupt numbers and register
    windows after any sequence of \<open>add_virtio_*\<close> calls (the relation \<open>vm_attach\<close>).
  \<^item> \<open>Hv_Run\<close>: \<open>VirtualMachine::run\<close> as a step relation that interleaves the vCPU threads and the
    monitor.  Which device answers an access; an invariant; termination after an error.
  \<^item> \<open>Hv_Supervisor\<close>: an abstract machine for \<open>run\<close> and the refinement to it.
  \<^item> \<open>Hv_Main\<close>: \<open>main\<close>, from the parsed arguments to the snapshot at the end.
  \<^item> This theory: the properties of the whole command.

  \<^bold>\<open>Conventions.\<close>  A struct is a record and an enum a datatype with the constructors of the source.
  A method with \<open>&mut self\<close> returns the changed value next to its result.  Integers are words of their
  width; \<open>usize\<close> values are numbers where the source cannot reach the bound.  Guest memory, which all
  devices and vCPUs share, is passed along explicitly.  Operations that may not return (the loops over
  a ring that the guest controls) are \<open>partial_function (option)\<close>, and that they return is proved under
  the rules for drivers of the virtio specification; no definition has a fuel argument except
  the number of descriptors that the specification function \<open>chain_descs\<close> follows, which is the size of
  the queue and so the length of the longest chain.  In \<open>Hv_Run\<close> a step goes from one access of shared
  state to the next; such an access is atomic in the source (a sequentially consistent atomic, a
  channel operation, or a section under a lock).

  \<^bold>\<open>Not modelled.\<close>  Log output, except that the level decides whether the arguments of \<open>info!\<close>, which
  can overflow, are evaluated.  Parsing of the command line (\<open>clap\<close>) and of ELF files (\<open>goblin\<close>): their
  results are arguments.  The execution of guest code by KVM: an exit is whatever the vCPU descriptor
  returns; accesses of the guest to RAM are not steps.  \<open>lib.rs\<close> declares modules and has no code.  The
  vhost-user daemon that would call the backend of \<open>fs.rs\<close> is a crate; the backend methods are modelled.
  The tests of \<open>snapshot.rs\<close>.  The empty \<open>Drop\<close> of \<open>Vcpu\<close>.  Time: the pause of the monitor loop.
\<close>

section \<open>Properties\<close>

text \<open>
  C17. The devices of the machine that the command runs: the console at \<open>0x1000\<close> with interrupt 5, the
  disk at \<open>0x2000\<close> with interrupt 6, the network at \<open>0x3000\<close>, and all shared directories, without
  an interrupt, at \<open>0x4000\<close>, each of them.  The network device gets the interrupt 7 that the kernel
  command line announces only when there is a disk; without one it gets 6.
\<close>

theorem main_device_table:
  assumes "main_setup p V t K L B H args k = (Ok vm, tr)"
  shows "machine_table vm = [(0x1000, Some 5)] @ (if arg_disk args = None then [] else [(0x2000, Some 6)]) @
      (if arg_net args = None then [] else [(0x3000, Some (if arg_disk args = None then 6 else 7))]) @
      replicate (length (arg_share args)) (0x4000, None)"
proof -
  obtain k' vm0 tr1 vm1 where new: "VirtualMachine_new V t K (arg_cpus args) k = (Ok vm0, k')"
    and att: "main_attach p V H args (mh_tree H, vm0) = (Ok (), tr1, vm1)"
    and load: "main_load p V t K L B H args (tr1, vm1) = (Ok (), tr, vm)"
    using main_setup_Ok [OF assms] .
  have "vm_devices vm0 = mutex_new []" "vm_next_irq vm0 = 5"
    using VirtualMachine_new_parts [OF new] by blast+
  from main_attach_Ok [OF att this] main_load_table [OF load] show ?thesis
    by simp
qed


text \<open>The memory of a new machine.\<close>

definition fresh_ram :: bytemap where
  "fresh_ram a = (if a < 134217728 then Some 0 else None)"

lemma fresh_ram_mapped: "a + n \<le> 134217728 \<Longrightarrow> mapped fresh_ram a n"
  by (simp add: mapped_iff fresh_ram_def)

lemma loaded_memory:
  assumes "guest_memory G invar view" and "invar m" and "view m = fresh_ram"
    and "fs path = Inr buffer" and "parse buffer = Some elf"
    and "list_all (segment_ok buffer fresh_ram) (program_headers elf)" and "unat (elf_entry elf) + 16 \<le> 134217728"
    and "load_kernel p info G parse fs path vm_cmdline self m = (Ok (), kl, m')"
  shows "get_entry_point kl = elf_entry elf \<and> (\<forall>va < 2 ^ 32. page_walk (view m') 0x9000 va = Some va) \<and>
    bytes_at (view m') 0x10000 (Suc (length vm_cmdline)) = string_bytes vm_cmdline @ [0] \<and>
    bytes_at (view m') 0x7000 4096 = kernel_boot_params \<and>
    (\<forall>x. 0x10000 + length vm_cmdline < x \<longrightarrow> view m' x = foldl (apply_segment buffer) fresh_ram (program_headers elf) x)"
proof -
  have fits: "mapped (view m) 0x7000 (0x9001 + length vm_cmdline)" "mapped (view m) (unat (elf_entry elf)) 16"
    "list_all (segment_ok buffer (view m)) (program_headers elf)"
    using assms(6,7) unfolding assms(3) by (auto intro: fresh_ram_mapped simp: vm_cmdline_def)
  obtain g where kl: "kl = \<lparr>entry_point = elf_entry elf, kl_cmdline = vm_cmdline\<rparr>"
    and h: "view m' = put_bytes (put_bytes g 0x10000 (string_bytes vm_cmdline @ [0])) 0x7000 kernel_boot_params"
    and pt: "bytes_at g 0x9000 8 = u64_to_le_bytes pml4_entry"
      "\<forall>j<4. bytes_at g (0xA000 + 8 * j) 8 = u64_to_le_bytes (pdpte_entry j)"
      "\<forall>j<2048. bytes_at g (0xB000 + 8 * j) 8 = u64_to_le_bytes (pde_entry j)"
    and segs: "\<forall>x. x < 0x9000 \<or> 0xF000 \<le> x \<longrightarrow> g x = foldl (apply_segment buffer) (view m) (program_headers elf) x"
    using guest_memory.load_kernel_total [OF assms(1), OF assms(2), of fs path buffer parse elf vm_cmdline p info self,
        OF assms(4,5) fits(3,1,2)] assms(8) by auto
  have "bytes_at (view m') 0x10000 (length (string_bytes vm_cmdline @ [0])) = string_bytes vm_cmdline @ [0]"
    unfolding h by (subst bytes_at_put_disjoint) (simp, rule bytes_at_put_same)
  moreover have "bytes_at (view m') 0x7000 (length kernel_boot_params) = kernel_boot_params"
    unfolding h by (rule bytes_at_put_same)
  moreover have "view m' x = foldl (apply_segment buffer) fresh_ram (program_headers elf) x" if "0x10000 + length vm_cmdline < x" for x
    using segs that by (simp add: h put_bytes_other assms(3))
  ultimately show ?thesis
    using kernel_tables_walk [OF h pt] by (simp add: kl get_entry_point_def)
qed

text \<open>
  C1. The command boots the kernel: without a snapshot and a boot sector, and with an image that fits
  into RAM, the machine that it runs has the requested vCPUs, all of them at the entry point of the
  image in flat protected mode with the boot parameters in \<open>rsi\<close>; its memory holds the boot
  parameters, the command line, page tables that map the first 4 GiB to themselves, and above the
  command line the segments of the image on zeroed RAM and nothing else.
\<close>

theorem main_boots:
  assumes "guest_regions V invar view" and "kvm_vm K slots" and "kvm_vcpu K cpu_regs cpu_sregs cpu_fpu"
    and "main_setup p V t K L B H args k = (Ok vm, tr)" and "arg_restore_state args = None" and "arg_bootloader args = None"
    and "mh_files H (arg_kernel args) = Inr buffer" and "mh_elf H buffer = Some elf"
    and "list_all (segment_ok buffer fresh_ram) (program_headers elf)" and "unat (elf_entry elf) + 16 \<le> 134217728"
  shows "map vcpu_id (vm_vcpus vm) = map word_of_nat [0..<unat (arg_cpus args)] \<and>
    list_all (\<lambda>v. rip (cpu_regs (vcpu_fd v)) = elf_entry elf \<and> rsi (cpu_regs (vcpu_fd v)) = 0x7000 \<and>
      protected_mode (cpu_sregs (vcpu_fd v))) (vm_vcpus vm) \<and>
    (let f = view (memory (vm_memory vm)) in
      (\<forall>va < 2 ^ 32. page_walk f 0x9000 va = Some va) \<and>
      bytes_at f 0x10000 (Suc (length vm_cmdline)) = string_bytes vm_cmdline @ [0] \<and> bytes_at f 0x7000 4096 = kernel_boot_params \<and>
      (\<forall>x. 0x10000 + length vm_cmdline < x \<longrightarrow> f x = foldl (apply_segment buffer) fresh_ram (program_headers elf) x))"
proof -
  obtain k' vm0 tr1 vm1 where new: "VirtualMachine_new V t K (arg_cpus args) k = (Ok vm0, k')"
    and att: "main_attach p V H args (mh_tree H, vm0) = (Ok (), tr1, vm1)"
    and load: "main_load p V t K L B H args (tr1, vm1) = (Ok (), tr, vm)"
    using main_setup_Ok [OF assms(4)] .
  obtain fd0 fd1 where mem: "GuestMemoryRegions_new V = Ok (vm_memory vm0)"
    and cpus: "create_vcpus K 0 (unat (arg_cpus args)) fd1 = (Ok (vm_vcpus vm0), vm_fd vm0)"
    and rest: "vm_devices vm0 = mutex_new []" "vm_next_irq vm0 = 5"
    using VirtualMachine_new_parts [OF new] .
  have core: "vm_memory vm1 = vm_memory vm0" "vm_vcpus vm1 = vm_vcpus vm0"
    using main_attach_Ok [OF att rest] by (auto simp: same_core_def)
  have ram: "invar (memory (vm_memory vm1))" "view (memory (vm_memory vm1)) = fresh_ram"
    using guest_regions.GuestMemoryRegions_new_ok [OF assms(1) mem] by (auto simp: core fresh_ram_def)
  have "vm_load_kernel p (info_enabled (log_level (arg_log_level args))) V K (mh_elf H) (mh_files H) (arg_kernel args) vm1 = (Ok (), vm)"
    using load by (auto simp: main_load_def assms(5,6) elim!: and_then_OkE)
  then obtain kl where lk: "load_kernel p (info_enabled (log_level (arg_log_level args))) V (mh_elf H) (mh_files H) (arg_kernel args)
      vm_cmdline KernelLoader_new (memory (vm_memory vm1)) = (Ok (), kl, memory (vm_memory vm))"
    and fv: "for_vcpus (\<lambda>fd. Vcpu_init K fd (get_entry_point kl) 0x7000) (vm_vcpus vm1) = (Ok (), vm_vcpus vm)"
    by (auto elim!: vm_load_kernel_parts)
  note lm = loaded_memory [OF guest_regions.axioms(1) [OF assms(1)] ram assms(7-10) lk]
  have "rip (cpu_regs fd') = elf_entry elf \<and> rsi (cpu_regs fd') = 0x7000 \<and> protected_mode (cpu_sregs fd')"
    if "Vcpu_init K fd (get_entry_point kl) 0x7000 = (Ok (), fd')" for fd fd'
    using kvm_vcpu.Vcpu_init_state [OF assms(3) that] lm by (auto simp: init_regs_def init_sregs_protected)
  with for_vcpus_Ok [OF fv] kvm_vm.create_vcpus_ok [OF assms(2) cpus] lm show ?thesis
    by (auto simp: core list_all_iff Let_def)
qed

section \<open>An example\<close>

definition demo_host :: main_host where
  "demo_host =
     \<lparr>mh_files = (\<lambda>_. Inr tiny_image), mh_elf = (\<lambda>_. Some tiny_elf), mh_disks = (\<lambda>_. Inl os_error),
      mh_random = (\<lambda>n. Inr (replicate n 7)),
      mh_bind = (\<lambda>_. Inr \<lparr>sock_nonblocking = False, sock_inbox = [], sock_sent = [], sock_faults = []\<rparr>), mh_addr = Inr,
      mh_tree = \<lparr>ht_owner = Map.empty, ht_process = (0, 0), ht_faults = []\<rparr>, mh_store = empty_store, mh_stdout = demo_out\<rparr>"

definition demo_args :: Args where
  "demo_args =
     \<lparr>arg_kernel = ''vmlinuz'', arg_cpus = 1, arg_memory = 128, arg_disk = None, arg_read_only = False,
      arg_net = Some ''127.0.0.1:5000'', arg_peer = Some ''127.0.0.1:5001'', arg_share = [], arg_save_state = None,
      arg_restore_state = None, arg_bootloader = None, arg_log_level = ''info''\<rparr>"

type_synonym flat_vm = "(unit, flat_slots, flat_cpu, flat_mem, split_queue, u64) VirtualMachine"

lemma demo_new:
  "\<exists>vm. VirtualMachine_new flat_virtio (\<lambda>_. []) flat_kvm 1 () = (Ok vm :: flat_vm Result, ()) \<and>
     memory (vm_memory vm) = flat_ram \<and> vm_devices vm = mutex_new [] \<and> vm_next_irq vm = 5"
proof -
  have "GuestMemoryRegions_new flat_virtio = Ok \<lparr>memory = flat_ram, low_mem_size = MEMORY_SIZE\<rparr>"
    using flat_ram_new by (simp add: GuestMemoryRegions_new_def)
  then show ?thesis
    by (simp add: VirtualMachine_new_def clone_vmfd_def setup_memory_region_def flat_set_region_def Vcpu_new_def)
qed

lemma demo_attach:
  fixes vm :: flat_vm
  assumes "vm_devices vm = mutex_new []" and "vm_next_irq vm = 5"
  shows "\<exists>vm'. main_attach Debug flat_virtio demo_host demo_args (t, vm) = (Ok (), t, vm')"
proof -
  obtain c where c: "VirtioConsole_new flat_virtio 0x1000 5 (mutex_new demo_out) = Ok c"
    using flat_console_new by blast
  obtain qs where "new_queues flat_virtio 2 = Ok qs"
    using flat_new_queues by blast
  then obtain n where n: "VirtioNet_new flat_virtio (mh_random demo_host) (mh_bind demo_host) (mh_addr demo_host) 0x3000 6 ''127.0.0.1:5000'' None = Ok n"
    by (simp add: VirtioNet_new_def VirtioDeviceConfig_new_def demo_host_def udp_set_nonblocking_def next_fault_def Let_def map_err_def)
  have addr: "mh_addr demo_host = Inr" "mh_stdout demo_host = demo_out"
    by (simp_all add: demo_host_def)
  show ?thesis
    using assms c n
    by (simp add: main_attach_def demo_args_def or_return_def add_virtio_console_def add_virtio_net_def allocate_irq_def add_u32_def
        push_device_def addr map_err_def)
qed

lemma flat_vcpus_init: "\<exists>vs'. for_vcpus (\<lambda>fd. Vcpu_init flat_kvm fd e b) vs = (Ok (), vs')"
  by (induction vs) (auto simp: Vcpu_init_def setup_msrs_def)

lemma flat_fresh_ram: "flat_view flat_ram = fresh_ram"
  by (auto simp: flat_view_def flat_ram_def in_regions_def fresh_ram_def)

lemma demo_load:
  fixes vm :: flat_vm
  assumes "memory (vm_memory vm) = flat_ram"
  shows "\<exists>vm'. main_load Debug flat_virtio (\<lambda>_. []) flat_kvm packed_layout sval_bincode demo_host demo_args (t, vm) = (Ok (), t, vm')"
proof -
  have "mapped (flat_view flat_ram) 0x7000 (0x9001 + length vm_cmdline)"
    by (rule flat_ram_mapped) (simp add: vm_cmdline_def)
  then obtain kl m where "load_kernel Debug True flat_virtio (\<lambda>_. Some tiny_elf) (\<lambda>_. Inr tiny_image) ''vmlinuz'' vm_cmdline KernelLoader_new flat_ram =
      (Ok (), kl, m)"
    using guest_memory.load_kernel_total [OF fq.guest_memory_axioms, OF flat_ram_invar, of "\<lambda>_. Inr tiny_image" "''vmlinuz''" tiny_image "\<lambda>_. Some tiny_elf" tiny_elf vm_cmdline
        Debug True KernelLoader_new] tiny_elf_fits(1,3) by auto
  moreover obtain vs where "for_vcpus (\<lambda>fd. Vcpu_init flat_kvm fd (get_entry_point kl) 0x7000) (vm_vcpus vm) = (Ok (), vs)"
    using flat_vcpus_init by blast
  ultimately show ?thesis
    by (simp add: main_load_def demo_args_def or_exit_def vm_load_kernel_def assms demo_host_def set_vm_memory_def map_err_def
        info_enabled_def log_level_def)
qed

lemma demo_setup:
  "\<exists>vm :: flat_vm. main_setup Debug flat_virtio (\<lambda>_. []) flat_kvm packed_layout sval_bincode demo_host demo_args () = (Ok vm, mh_tree demo_host)"
proof -
  obtain vm :: flat_vm where vm: "VirtualMachine_new flat_virtio (\<lambda>_. []) flat_kvm 1 () = (Ok vm, ())" "memory (vm_memory vm) = flat_ram"
    "vm_devices vm = mutex_new []" "vm_next_irq vm = 5"
    using demo_new by blast
  obtain vm1 where vm1: "main_attach Debug flat_virtio demo_host demo_args (mh_tree demo_host, vm) = (Ok (), mh_tree demo_host, vm1)"
    using demo_attach [OF vm(3,4)] by blast
  then have "memory (vm_memory vm1) = flat_ram"
    using main_attach_Ok [OF vm1 vm(3,4)] vm(2) by (simp add: same_core_def)
  from demo_load [OF this, of "mh_tree demo_host"] vm(1) vm1 show ?thesis
    by (auto simp: main_setup_def demo_args_def)
qed

text \<open>With a network device and no disk.\<close>

theorem main_device_table_witness:
  "\<exists>vm :: flat_vm. main_setup Debug flat_virtio (\<lambda>_. []) flat_kvm packed_layout sval_bincode demo_host demo_args () = (Ok vm, mh_tree demo_host) \<and>
     machine_table vm = [(0x1000, Some 5), (0x3000, Some 6)]"
  using demo_setup main_device_table [of Debug flat_virtio "\<lambda>_. []" flat_kvm packed_layout sval_bincode demo_host demo_args "()" _ "mh_tree demo_host"]
  by (force simp: demo_args_def)

theorem main_boots_witness:
  "\<exists>vm :: flat_vm. main_setup Debug flat_virtio (\<lambda>_. []) flat_kvm packed_layout sval_bincode demo_host demo_args () = (Ok vm, mh_tree demo_host) \<and>
     map vcpu_id (vm_vcpus vm) = [0] \<and> rip (fc_regs (vcpu_fd (vm_vcpus vm ! 0))) = 0x100000 \<and>
     page_walk (flat_view (memory (vm_memory vm))) 0x9000 0x100000 = Some 0x100000"
proof -
  obtain vm :: flat_vm where vm: "main_setup Debug flat_virtio (\<lambda>_. []) flat_kvm packed_layout sval_bincode demo_host demo_args () =
      (Ok vm, mh_tree demo_host)"
    using demo_setup by blast
  have args: "arg_restore_state demo_args = None" "arg_bootloader demo_args = None" "mh_files demo_host (arg_kernel demo_args) = Inr tiny_image"
    "mh_elf demo_host tiny_image = Some tiny_elf" "arg_cpus demo_args = 1"
    by (simp_all add: demo_args_def demo_host_def)
  have fits: "list_all (segment_ok tiny_image fresh_ram) (program_headers tiny_elf)" "unat (elf_entry tiny_elf) + 16 \<le> 134217728"
    using tiny_elf_fits(1) by (simp_all add: flat_fresh_ram tiny_elf_def)
  from main_boots [OF fr.guest_regions_axioms fv.kvm_vm_axioms fc.kvm_vcpu_axioms vm args(1-4) fits] vm args(5) show ?thesis
    by (cases "vm_vcpus vm") (auto simp: Let_def tiny_elf_def)
qed

end
